(* ===== verification/Web_Prelude.thy ===== *)
theory Web_Prelude
  imports Main "HOL-Library.Char_ord" "HOL-Library.Multiset"
begin

text \<open>
  What every component shares: the results of C++ operations that can fail, the characters
  the sources test for, and the interface of the hash maps the sources keep their headers,
  routes and query parameters in.

  \<^item> An operation that can throw, or whose behaviour the language leaves undefined, returns a
    \<open>result\<close>: \<open>Inl\<close> of the fault or \<open>Inr\<close> of the value. A thrown \<open>std::exception\<close> can be
    caught by a caller; an \<open>Undefined_behaviour\<close> (a read past the end of a buffer, a null or
    end iterator that is dereferenced) cannot, and neither can a call of \<open>exit\<close>.
  \<^item> A \<open>std::unordered_map\<close> is an association list with distinct keys. The order in which the
    library enumerates it is not specified, so an operation that iterates over one takes the
    enumeration order as an argument \<open>ord\<close>, of which only \<open>enumerates\<close> is assumed.
\<close>

named_theorems char_class "membership of concrete characters in the character classes"
named_theorems result_simps "propagation of faults"

section \<open>Results and faults\<close>

datatype std_exception =
    Invalid_argument
  | Out_of_range
  | Runtime_error string
  | Logic_error
  | System_error

datatype fault = Throw std_exception | Undefined_behaviour | Exit_process int

type_synonym 'a result = "fault + 'a"

definition result_bind :: "'a result \<Rightarrow> ('a \<Rightarrow> 'b result) \<Rightarrow> 'b result" where
  "result_bind r f = (case r of Inl e \<Rightarrow> Inl e | Inr x \<Rightarrow> f x)"

lemma result_bind_Inr [simp, result_simps]: "result_bind (Inr x) f = f x"
  by (simp add: result_bind_def)

lemma result_bind_Inl [simp, result_simps]: "result_bind (Inl e) f = Inl e"
  by (simp add: result_bind_def)

lemma result_bind_eq_Inr:
  "result_bind r f = Inr y \<longleftrightarrow> (\<exists>x. r = Inr x \<and> f x = Inr y)"
  by (cases r) auto

lemma result_bind_eq_Inl:
  "result_bind r f = Inl e \<longleftrightarrow> r = Inl e \<or> (\<exists>x. r = Inr x \<and> f x = Inl e)"
  by (cases r) auto

text \<open>Indexing a vector or a string: the sources use \<open>operator[]\<close>, which does not check.\<close>

definition nth_res :: "'a list \<Rightarrow> nat \<Rightarrow> 'a result" where
  "nth_res xs i = (if i < length xs then Inr (xs ! i) else Inl Undefined_behaviour)"

lemma nth_res_ok [simp]: "i < length xs \<Longrightarrow> nth_res xs i = Inr (xs ! i)"
  by (simp add: nth_res_def)

lemma nth_res_bad [simp]: "length xs \<le> i \<Longrightarrow> nth_res xs i = Inl Undefined_behaviour"
  by (simp add: nth_res_def)

text \<open>A loop that computes one value per element and stops at the first fault.\<close>

fun map_res :: "('a \<Rightarrow> 'b result) \<Rightarrow> 'a list \<Rightarrow> 'b list result" where
  "map_res f [] = Inr []"
| "map_res f (x # xs) =
     result_bind (f x) (\<lambda>y. result_bind (map_res f xs) (\<lambda>ys. Inr (y # ys)))"

lemma map_res_Inr: "(\<And>x. x \<in> set xs \<Longrightarrow> f x = Inr (g x)) \<Longrightarrow> map_res f xs = Inr (map g xs)"
  by (induction xs) simp_all

section \<open>Characters\<close>

abbreviation tab :: char where "tab \<equiv> CHR 0x09"
abbreviation lf :: char where "lf \<equiv> CHR 0x0A"
abbreviation vtab :: char where "vtab \<equiv> CHR 0x0B"
abbreviation ffeed :: char where "ffeed \<equiv> CHR 0x0C"
abbreviation cr :: char where "cr \<equiv> CHR 0x0D"
abbreviation nul :: char where "nul \<equiv> CHR 0x00"
abbreviation crlf :: string where "crlf \<equiv> [CHR 0x0D, CHR 0x0A]"

definition is_digit :: "char \<Rightarrow> bool" where
  "is_digit c \<longleftrightarrow> CHR ''0'' \<le> c \<and> c \<le> CHR ''9''"

definition is_upper :: "char \<Rightarrow> bool" where
  "is_upper c \<longleftrightarrow> CHR ''A'' \<le> c \<and> c \<le> CHR ''Z''"

definition is_lower :: "char \<Rightarrow> bool" where
  "is_lower c \<longleftrightarrow> CHR ''a'' \<le> c \<and> c \<le> CHR ''z''"

text \<open>\<open>\w\<close> of an ECMAScript regular expression in the C locale.\<close>

definition is_word :: "char \<Rightarrow> bool" where
  "is_word c \<longleftrightarrow> is_digit c \<or> is_upper c \<or> is_lower c \<or> c = CHR ''_''"

text \<open>\<open>isspace\<close> in the C locale.\<close>

definition is_space :: "char \<Rightarrow> bool" where
  "is_space c \<longleftrightarrow> c \<in> {CHR '' '', tab, lf, vtab, ffeed, cr}"

lemma is_word_not [char_class]:
  "\<not> is_word (CHR '' '')" "\<not> is_word lf" "\<not> is_word cr" "\<not> is_word (CHR ''/'')"
  "\<not> is_word (CHR ''.'')" "\<not> is_word (CHR ''-'')" "\<not> is_word (CHR ''='')"
  "\<not> is_word (CHR ''&'')" "\<not> is_word (CHR 0x22)"
  by (simp_all add: is_word_def is_digit_def is_upper_def is_lower_def less_eq_char_def)

lemma is_digit_word [char_class]: "is_digit c \<Longrightarrow> is_word c"
  by (simp add: is_word_def)

lemma is_digit_not_space: "is_digit c \<Longrightarrow> \<not> is_space c"
  by (auto simp: is_digit_def is_space_def less_eq_char_def)

section \<open>Hash maps\<close>

type_synonym ('k, 'v) umap = "('k \<times> 'v) list"

definition umap_find :: "('k, 'v) umap \<Rightarrow> 'k \<Rightarrow> 'v option" where
  "umap_find m k = map_of m k"

text \<open>\<open>unordered_map::insert\<close> keeps the entry of a key that is already there.\<close>

definition umap_insert :: "'k \<times> 'v \<Rightarrow> ('k, 'v) umap \<Rightarrow> ('k, 'v) umap" where
  "umap_insert h m = (case umap_find m (fst h) of None \<Rightarrow> m @ [h] | Some _ \<Rightarrow> m)"

text \<open>\<open>it->second = v\<close> for the iterator of a key that was found.\<close>

definition umap_replace :: "'k \<Rightarrow> 'v \<Rightarrow> ('k, 'v) umap \<Rightarrow> ('k, 'v) umap" where
  "umap_replace k v m = map (\<lambda>e. if fst e = k then (k, v) else e) m"

text \<open>The find, then overwrite or insert, of \<open>set_header\<close> and \<open>register_default_header\<close>.\<close>

definition umap_assign :: "'k \<times> 'v \<Rightarrow> ('k, 'v) umap \<Rightarrow> ('k, 'v) umap" where
  "umap_assign h m =
     (case umap_find m (fst h) of
        Some _ \<Rightarrow> umap_replace (fst h) (snd h) m
      | None \<Rightarrow> umap_insert h m)"

definition umap_wf :: "('k, 'v) umap \<Rightarrow> bool" where
  "umap_wf m \<longleftrightarrow> distinct (map fst m)"

text \<open>An order in which the library may enumerate a hash map.\<close>

definition enumerates :: "(('k, 'v) umap \<Rightarrow> ('k \<times> 'v) list) \<Rightarrow> bool" where
  "enumerates ord \<longleftrightarrow> (\<forall>m. mset (ord m) = mset m)"

lemma enumerates_set: "enumerates ord \<Longrightarrow> set (ord m) = set m"
  by (metis enumerates_def set_mset_mset)

lemma enumerates_wf:
  assumes "enumerates ord" and "umap_wf m"
  shows "umap_wf (ord m)"
proof -
  have "mset (map fst (ord m)) = mset (map fst m)"
    using assms(1) by (simp add: enumerates_def)
  then show ?thesis
    using assms(2) by (metis umap_wf_def distinct_count_atmost_1 set_mset_mset)
qed

lemma enumerates_map_of:
  assumes "enumerates ord" and "umap_wf m"
  shows "map_of (ord m) = map_of m"
  using assms enumerates_wf [OF assms] enumerates_set [OF assms(1), of m]
  by (metis map_of_inject_set umap_wf_def)

lemma enumerates_id: "enumerates (\<lambda>m. m)"
  by (simp add: enumerates_def)

lemma enumerates_rev: "enumerates rev"
  by (simp add: enumerates_def)

section \<open>The interface of the maps\<close>

text \<open>
  What the clients of a map (the parsed request, the response, the router) rely on: an
  insertion that does not overwrite, as \<open>unordered_map::insert\<close> has it.
\<close>

locale dictionary =
  fixes find :: "'m \<Rightarrow> 'k \<Rightarrow> 'v option"
    and ins :: "'k \<times> 'v \<Rightarrow> 'm \<Rightarrow> 'm"
    and wf :: "'m \<Rightarrow> bool"
  assumes find_ins: "wf m \<Longrightarrow> find (ins (k, v) m) = [k \<mapsto> v] ++ find m"
    and wf_ins: "wf m \<Longrightarrow> wf (ins h m)"
begin

lemma wf_fold_ins: "wf m \<Longrightarrow> wf (fold ins ps m)"
  by (induction ps arbitrary: m) (auto intro: wf_ins)

text \<open>The first of several insertions under one key wins, and an entry already there wins.\<close>

lemma find_fold_ins: "wf m \<Longrightarrow> find (fold ins ps m) = map_of ps ++ find m"
proof (induction ps arbitrary: m)
  case (Cons p ps)
  obtain k v where p: "p = (k, v)" by fastforce
  have "find (fold ins (p # ps) m) = map_of ps ++ find (ins p m)"
    using Cons.IH [of "ins p m"] Cons.prems by (simp add: wf_ins)
  also have "\<dots> = map_of ps ++ ([k \<mapsto> v] ++ find m)"
    using Cons.prems by (simp only: p find_ins)
  also have "\<dots> = map_of (p # ps) ++ find m"
    by (rule ext) (simp add: p map_add_def split: option.split)
  finally show ?case .
qed simp

end

text \<open>The same interface with an operation that overwrites.\<close>

locale assignable_dictionary = dictionary +
  fixes asg :: "'b \<times> 'c \<Rightarrow> 'a \<Rightarrow> 'a"
  assumes find_asg: "wf m \<Longrightarrow> find (asg (k, v) m) = (find m)(k \<mapsto> v)"
    and wf_asg: "wf m \<Longrightarrow> wf (asg h m)"
begin

lemma wf_fold_asg: "wf m \<Longrightarrow> wf (fold asg ps m)"
  by (induction ps arbitrary: m) (auto intro: wf_asg)

text \<open>The last of several assignments under one key wins.\<close>

lemma find_fold_asg: "wf m \<Longrightarrow> find (fold asg ps m) = find m ++ map_of (rev ps)"
proof (induction ps arbitrary: m)
  case (Cons p ps)
  obtain k v where p: "p = (k, v)" by fastforce
  have "find (fold asg (p # ps) m) = find (asg p m) ++ map_of (rev ps)"
    using Cons.IH [of "asg p m"] Cons.prems by (simp add: wf_asg)
  also have "\<dots> = (find m)(k \<mapsto> v) ++ map_of (rev ps)"
    using Cons.prems by (simp only: p find_asg)
  also have "\<dots> = find m ++ map_of (rev (p # ps))"
    by (rule ext) (simp add: p map_add_def split: option.split)
  finally show ?case .
qed simp

lemma find_fold_asg_distinct:
  assumes "wf m" and "distinct (map fst ps)"
  shows "find (fold asg ps m) = find m ++ map_of ps"
proof -
  have "map_of (rev ps) = map_of ps"
    using assms(2) by (simp add: map_of_inject_set rev_map [symmetric])
  then show ?thesis using assms(1) by (simp add: find_fold_asg)
qed

end

lemma umap_replace_fst [simp]: "map fst (umap_replace k v m) = map fst m"
  by (induction m) (auto simp: umap_replace_def)

lemma umap_replace_Cons [simp]:
  "umap_replace k v (e # m) = (if fst e = k then (k, v) else e) # umap_replace k v m"
  by (simp add: umap_replace_def)

lemma umap_replace_Nil [simp]: "umap_replace k v [] = []"
  by (simp add: umap_replace_def)

lemma map_of_replace:
  "map_of (umap_replace k v m) x = (if x = k \<and> k \<in> fst ` set m then Some v else map_of m x)"
  by (induction m) (auto simp del: image_iff split: if_splits)

lemma umap_find_map_of: "umap_find m = map_of m"
  by (simp add: umap_find_def fun_eq_iff)

lemma umap_find_None: "umap_find m k = None \<longleftrightarrow> k \<notin> fst ` set m"
  by (simp add: umap_find_def map_of_eq_None_iff)

lemma umap_insert_simps:
  "umap_find m k = None \<Longrightarrow> umap_insert (k, v) m = m @ [(k, v)]"
  "umap_find m k = Some w \<Longrightarrow> umap_insert (k, v) m = m"
  by (simp_all add: umap_insert_def)

interpretation umap: assignable_dictionary umap_find umap_insert umap_wf umap_assign
proof unfold_locales
  fix m :: "('a, 'b) umap" and k v h
  show "umap_find (umap_insert (k, v) m) = [k \<mapsto> v] ++ umap_find m"
    by (rule ext) (auto simp: umap_insert_def umap_find_def map_add_def split: option.split)
  show "umap_wf m \<Longrightarrow> umap_wf (umap_insert h m)"
    by (auto simp: umap_insert_def umap_wf_def umap_find_None split: option.split)
  then show "umap_wf m \<Longrightarrow> umap_wf (umap_assign h m)"
    by (auto simp: umap_assign_def umap_wf_def split: option.split)
  show "umap_find (umap_assign (k, v) m) = (umap_find m)(k \<mapsto> v)"
  proof (cases "k \<in> fst ` set m")
    case True
    then obtain w where "umap_find m k = Some w"
      by (metis not_None_eq umap_find_None)
    with True show ?thesis
      by (simp add: umap_assign_def umap_find_def map_of_replace fun_eq_iff)
  next
    case False
    then have "umap_find m k = None" by (simp add: umap_find_None)
    then show ?thesis
      by (auto simp: umap_assign_def umap_insert_def umap_find_def map_add_def fun_eq_iff
          split: option.split)
  qed
qed

lemma umap_wf_Nil [simp]: "umap_wf []"
  by (simp add: umap_wf_def)

lemma umap_wf_single [simp]: "umap_wf [h]"
  by (simp add: umap_wf_def)

lemma umap_find_Nil [simp]: "umap_find [] = Map.empty"
  by (simp add: umap_find_def fun_eq_iff)

end
