(* ===== verification/Cpp_Text.thy ===== *)
theory Cpp_Text
  imports Web_Prelude
begin

text \<open>
  Numbers as text, the way the sources read and write them: \<open>std::to_string\<close> for status
  codes, lengths and view counters, \<open>std::stoi\<close> for ports, thread counts and view counters,
  and the extraction of a hexadecimal \<open>short\<close> from a stream, which the URI decoder uses.
  The lemmas are the round trips and the range of each reader.
\<close>

section \<open>Writing numbers: \<open>std::to_string\<close>\<close>

definition digit_char :: "nat \<Rightarrow> char" where
  "digit_char d = char_of (48 + d)"

definition digit_val :: "char \<Rightarrow> nat" where
  "digit_val c = of_char c - 48"

fun nat_string :: "nat \<Rightarrow> string" where
  "nat_string n =
     (if n < 10 then [digit_char n] else nat_string (n div 10) @ [digit_char (n mod 10)])"

declare nat_string.simps [simp del]

definition int_string :: "int \<Rightarrow> string" where
  "int_string i = (if i < 0 then CHR ''-'' # nat_string (nat (- i)) else nat_string (nat i))"

lemma of_char_digit_char: "d < 10 \<Longrightarrow> of_char (digit_char d) = 48 + d"
  by (simp add: digit_char_def)

lemma is_digit_digit_char [simp]: "d < 10 \<Longrightarrow> is_digit (digit_char d)"
  by (simp add: is_digit_def less_eq_char_def of_char_digit_char)

lemma digit_val_digit_char [simp]: "d < 10 \<Longrightarrow> digit_val (digit_char d) = d"
  by (simp add: digit_val_def of_char_digit_char)

lemma digit_val_bound: "is_digit c \<Longrightarrow> digit_val c < 10"
  unfolding is_digit_def digit_val_def less_eq_char_def by simp arith

lemma nat_string_digits: "c \<in> set (nat_string n) \<Longrightarrow> is_digit c"
proof (induction n rule: nat_string.induct)
  case (1 n)
  then show ?case
    by (subst (asm) (2) nat_string.simps) (auto split: if_splits)
qed

lemma nat_string_nonempty [simp]: "nat_string n \<noteq> []"
  by (subst nat_string.simps) simp

section \<open>Reading numbers: \<open>std::stoi\<close>\<close>

definition digits_value :: "string \<Rightarrow> nat" where
  "digits_value ds = foldl (\<lambda>a c. 10 * a + digit_val c) 0 ds"

definition int_min :: int where "int_min = - 2147483648"
definition int_max :: int where "int_max = 2147483647"

text \<open>
  Leading white space, one optional sign, then the longest run of digits; what follows is
  ignored. No digit is \<open>invalid_argument\<close>, a value outside \<open>int\<close> is \<open>out_of_range\<close>.
\<close>

fun split_sign :: "string \<Rightarrow> bool \<times> string" where
  "split_sign [] = (False, [])"
| "split_sign (c # s) =
     (if c = CHR ''-'' then (True, s) else if c = CHR ''+'' then (False, s) else (False, c # s))"

definition stoi :: "string \<Rightarrow> int result" where
  "stoi s =
     (let (neg, u) = split_sign (dropWhile is_space s);
          ds = takeWhile is_digit u;
          v = (if neg then - int (digits_value ds) else int (digits_value ds))
      in if ds = [] then Inl (Throw Invalid_argument)
         else if v < int_min \<or> int_max < v then Inl (Throw Out_of_range)
         else Inr v)"

lemma digits_value_append:
  "digits_value (xs @ [c]) = 10 * digits_value xs + digit_val c"
  by (simp add: digits_value_def)

lemma digits_value_nat_string [simp]: "digits_value (nat_string n) = n"
proof (induction n rule: nat_string.induct)
  case (1 n)
  show ?case
  proof (cases "n < 10")
    case True
    then show ?thesis by (subst nat_string.simps) (simp add: digits_value_def)
  next
    case False
    then show ?thesis
      using 1 by (subst nat_string.simps) (simp add: digits_value_append)
  qed
qed

lemma nat_string_inj: "nat_string m = nat_string n \<longleftrightarrow> m = n"
  by (metis digits_value_nat_string)

lemma stoi_range: "stoi s = Inr v \<Longrightarrow> int_min \<le> v \<and> v \<le> int_max"
  by (auto simp: stoi_def Let_def split: if_splits prod.splits)

lemma stoi_fault: "stoi s = Inl e \<Longrightarrow> e = Throw Invalid_argument \<or> e = Throw Out_of_range"
  by (auto simp: stoi_def Let_def split: if_splits prod.splits)

lemma split_sign_digits:
  assumes "ds \<noteq> []" and "\<forall>c \<in> set ds. is_digit c"
  shows "split_sign (dropWhile is_space (ds @ t)) = (False, ds @ t)"
proof -
  obtain c ds' where ds: "ds = c # ds'" and c: "is_digit c"
    using assms by (cases ds) auto
  have "c \<noteq> CHR ''-''" and "c \<noteq> CHR ''+''"
    using c by (auto simp: is_digit_def less_eq_char_def)
  then show ?thesis using is_digit_not_space [OF c] by (simp add: ds)
qed

text \<open>\<open>stoi\<close> reads back what \<open>to_string\<close> wrote, whatever text follows that is no digit.\<close>

lemma stoi_nat_string:
  assumes "int n \<le> int_max" and "t = [] \<or> \<not> is_digit (hd t)"
  shows "stoi (nat_string n @ t) = Inr (int n)"
proof -
  have "takeWhile is_digit t = []"
    using assms(2) by (cases t) auto
  then have "takeWhile is_digit (nat_string n @ t) = nat_string n"
    by (simp add: takeWhile_append2 nat_string_digits)
  then show ?thesis
    using assms(1) split_sign_digits [of "nat_string n" t] nat_string_digits
    by (simp add: stoi_def int_min_def)
qed

section \<open>Narrowing conversions\<close>

text \<open>A value converted to \<open>int\<close> or \<open>short\<close> keeps its low bits, read as a signed number.\<close>

definition to_int :: "int \<Rightarrow> int" where
  "to_int i = (i + 2147483648) mod 4294967296 - 2147483648"

definition to_short :: "int \<Rightarrow> int" where
  "to_short i = (i + 32768) mod 65536 - 32768"

lemma to_int_range: "- 2147483648 \<le> i \<Longrightarrow> i < 2147483648 \<Longrightarrow> to_int i = i"
  by (simp add: to_int_def)

lemma mod_above: "(n::int) \<le> i \<Longrightarrow> i < 2 * n \<Longrightarrow> i mod n = i - n"
  using mod_pos_pos_trivial [of "i - n" n] by simp

lemma to_int_wrap: "2147483648 \<le> i \<Longrightarrow> i < 4294967296 \<Longrightarrow> to_int i = i - 4294967296"
  using mod_above [of 4294967296 "i + 2147483648"] by (simp add: to_int_def)

lemma to_short_range: "- 32768 \<le> i \<Longrightarrow> i < 32768 \<Longrightarrow> to_short i = i"
  by (simp add: to_short_def)

lemma to_short_wrap: "32768 \<le> i \<Longrightarrow> i < 65536 \<Longrightarrow> to_short i = i - 65536"
  using mod_above [of 65536 "i + 32768"] by (simp add: to_short_def)

section \<open>Reading a hexadecimal \<open>short\<close> from a stream\<close>

definition is_hex :: "char \<Rightarrow> bool" where
  "is_hex c \<longleftrightarrow> is_digit c
     \<or> (CHR ''a'' \<le> c \<and> c \<le> CHR ''f'') \<or> (CHR ''A'' \<le> c \<and> c \<le> CHR ''F'')"

definition hex_val :: "char \<Rightarrow> nat" where
  "hex_val c =
     (if is_digit c then of_char c - 48
      else if CHR ''a'' \<le> c then of_char c - 87
      else of_char c - 55)"

definition hex_char :: "nat \<Rightarrow> char" where
  "hex_char d = (if d < 10 then char_of (48 + d) else char_of (87 + d))"

definition hex_value :: "string \<Rightarrow> nat" where
  "hex_value ds = foldl (\<lambda>a c. 16 * a + hex_val c) 0 ds"

text \<open>
  \<open>in >> std::hex >> c\<close>: white space is skipped, then one optional sign and one optional
  prefix \<open>0x\<close>. A prefix without a digit after it fails, and so does a value outside \<open>short\<close>.
\<close>

fun hex_prefix :: "string \<Rightarrow> bool \<times> string" where
  "hex_prefix (a # b # s) =
     (if a = CHR ''0'' \<and> (b = CHR ''x'' \<or> b = CHR ''X'') then (True, s) else (False, a # b # s))"
| "hex_prefix s = (False, s)"

definition read_hex_short :: "string \<Rightarrow> int option" where
  "read_hex_short s =
     (let (neg, u) = split_sign (dropWhile is_space s);
          ds = takeWhile is_hex (snd (hex_prefix u));
          v = (if neg then - int (hex_value ds) else int (hex_value ds))
      in if ds = [] \<or> v < - 32768 \<or> 32767 < v then None else Some v)"

lemma hex_chars_checked:
  "list_all (\<lambda>d. is_hex (hex_char d) \<and> hex_val (hex_char d) = d \<and> \<not> is_space (hex_char d)
     \<and> hex_char d \<noteq> CHR ''-'' \<and> hex_char d \<noteq> CHR ''+'' \<and> hex_char d \<noteq> CHR ''x''
     \<and> hex_char d \<noteq> CHR ''X'' \<and> hex_char d \<noteq> CHR ''%'') [0..<16]"
  by code_simp

lemma hex_char_facts:
  assumes "d < 16"
  shows "is_hex (hex_char d)" "hex_val (hex_char d) = d" "\<not> is_space (hex_char d)"
    "hex_char d \<noteq> CHR ''-''" "hex_char d \<noteq> CHR ''+''"
    "hex_char d \<noteq> CHR ''x''" "hex_char d \<noteq> CHR ''X''" "hex_char d \<noteq> CHR ''%''"
  using hex_chars_checked assms by (simp_all add: list_all_iff)

lemma read_hex_short_pair:
  assumes "a < 16" and "b < 16"
  shows "read_hex_short [hex_char a, hex_char b] = Some (int (16 * a + b))"
  using hex_char_facts [OF assms(1)] hex_char_facts [OF assms(2)] assms
  by (simp add: read_hex_short_def hex_value_def)

end
