(* ===== verification/Config_Parser.thy ===== *)
theory Config_Parser
  imports Cpp_Text
begin

text \<open>
  \<open>src/config_parser.cc\<close>, the tokenizer, the parser and the printer of the configuration
  format. A configuration is a list of statements; a statement is its tokens and an optional
  nested block. The parser's stack of pointers into the tree it is building is a stack of
  blocks, innermost first: the block above belongs to the last statement of the block below,
  and \<open>collapse\<close> puts it there, on a closing brace and also when parsing stops with an error,
  since the tree built so far stays with the caller.
\<close>

named_theorems tokenizer "what the tokenizer does on concrete beginnings of the input"

section \<open>Data\<close>

datatype token_type =
    TOKEN_TYPE_START
  | TOKEN_TYPE_NORMAL
  | TOKEN_TYPE_START_BLOCK
  | TOKEN_TYPE_END_BLOCK
  | TOKEN_TYPE_COMMENT
  | TOKEN_TYPE_STATEMENT_END
  | TOKEN_TYPE_EOF
  | TOKEN_TYPE_ERROR

datatype token_state =
    TOKEN_STATE_INITIAL_WHITESPACE
  | TOKEN_STATE_SINGLE_QUOTE
  | TOKEN_STATE_DOUBLE_QUOTE
  | TOKEN_STATE_TOKEN_TYPE_COMMENT
  | TOKEN_STATE_TOKEN_TYPE_NORMAL

datatype statement =
  Statement (tokens: "string list") (child_block: "statement list option")

type_synonym block = "statement list"

section \<open>The printer: \<open>ToString\<close>\<close>

definition indent :: "nat \<Rightarrow> string" where
  "indent depth = concat (replicate depth ''  '')"

fun join_tokens :: "string list \<Rightarrow> string" where
  "join_tokens [] = []"
| "join_tokens [t] = t"
| "join_tokens (t # ts) = t @ '' '' @ join_tokens ts"

fun statement_ToString :: "nat \<Rightarrow> statement \<Rightarrow> string" where
  "statement_ToString depth (Statement ts child) =
     indent depth @ join_tokens ts @
     (case child of
        Some b \<Rightarrow> '' {'' @ [lf] @ concat (map (statement_ToString (Suc depth)) b)
                    @ indent depth @ ''}''
      | None \<Rightarrow> '';'')
     @ [lf]"

definition config_ToString :: "nat \<Rightarrow> block \<Rightarrow> string" where
  "config_ToString depth b = concat (map (statement_ToString depth) b)"

section \<open>The tokenizer: \<open>ParseToken\<close>\<close>

definition initial_whitespace :: "char \<Rightarrow> bool" where
  "initial_whitespace c \<longleftrightarrow> c = CHR '' '' \<or> c = tab \<or> c = lf \<or> c = cr"

definition normal_end :: "char \<Rightarrow> bool" where
  "normal_end c \<longleftrightarrow> c = CHR '' '' \<or> c = tab \<or> c = lf \<or> c = tab \<or>
     c = CHR '';'' \<or> c = CHR ''{'' \<or> c = CHR ''}''"

text \<open>
  The loop over the stream: the token so far, then the input. The result is the type of the
  token, its text, and the input that is left; a normal token's end is put back.
\<close>

fun token_loop :: "token_state \<Rightarrow> string \<Rightarrow> string \<Rightarrow> token_type \<times> string \<times> string" where
  "token_loop st v [] =
     (if st = TOKEN_STATE_SINGLE_QUOTE \<or> st = TOKEN_STATE_DOUBLE_QUOTE
      then (TOKEN_TYPE_ERROR, v, []) else (TOKEN_TYPE_EOF, v, []))"
| "token_loop TOKEN_STATE_INITIAL_WHITESPACE v (c # s) =
     (if c = CHR ''{'' then (TOKEN_TYPE_START_BLOCK, [c], s)
      else if c = CHR ''}'' then (TOKEN_TYPE_END_BLOCK, [c], s)
      else if c = CHR ''#'' then token_loop TOKEN_STATE_TOKEN_TYPE_COMMENT [c] s
      else if c = CHR 0x22 then token_loop TOKEN_STATE_DOUBLE_QUOTE [c] s
      else if c = CHR 0x27 then token_loop TOKEN_STATE_SINGLE_QUOTE [c] s
      else if c = CHR '';'' then (TOKEN_TYPE_STATEMENT_END, [c], s)
      else if initial_whitespace c then token_loop TOKEN_STATE_INITIAL_WHITESPACE v s
      else token_loop TOKEN_STATE_TOKEN_TYPE_NORMAL (v @ [c]) s)"
| "token_loop TOKEN_STATE_SINGLE_QUOTE v (c # s) =
     (if c = CHR 0x27 then (TOKEN_TYPE_NORMAL, v @ [c], s)
      else token_loop TOKEN_STATE_SINGLE_QUOTE (v @ [c]) s)"
| "token_loop TOKEN_STATE_DOUBLE_QUOTE v (c # s) =
     (if c = CHR 0x22 then (TOKEN_TYPE_NORMAL, v @ [c], s)
      else token_loop TOKEN_STATE_DOUBLE_QUOTE (v @ [c]) s)"
| "token_loop TOKEN_STATE_TOKEN_TYPE_COMMENT v (c # s) =
     (if c = lf \<or> c = cr then (TOKEN_TYPE_COMMENT, v, s)
      else token_loop TOKEN_STATE_TOKEN_TYPE_COMMENT (v @ [c]) s)"
| "token_loop TOKEN_STATE_TOKEN_TYPE_NORMAL v (c # s) =
     (if normal_end c then (TOKEN_TYPE_NORMAL, v, c # s)
      else token_loop TOKEN_STATE_TOKEN_TYPE_NORMAL (v @ [c]) s)"

definition ParseToken :: "string \<Rightarrow> token_type \<times> string \<times> string" where
  "ParseToken s = token_loop TOKEN_STATE_INITIAL_WHITESPACE [] s"

text \<open>Every token but the last one takes something off the input.\<close>

lemma token_loop_le: "length (snd (snd (token_loop st v s))) \<le> length s"
  by (induction st v s rule: token_loop.induct) (simp_all add: le_SucI)

lemma token_loop_less:
  "fst (token_loop st v s) \<noteq> TOKEN_TYPE_EOF \<Longrightarrow> fst (token_loop st v s) \<noteq> TOKEN_TYPE_ERROR \<Longrightarrow>
     st \<noteq> TOKEN_STATE_TOKEN_TYPE_NORMAL \<Longrightarrow>
     length (snd (snd (token_loop st v s))) < length s"
proof (induction st v s rule: token_loop.induct)
  case (2 v c s)
  then show ?case
    using token_loop_le [of TOKEN_STATE_TOKEN_TYPE_NORMAL "v @ [c]" s]
    by (simp add: less_SucI less_Suc_eq_le split del: if_split split: if_split_asm)
qed (auto simp: less_SucI split: if_splits)

lemma ParseToken_less:
  "ParseToken s = (t, w, r) \<Longrightarrow> t \<noteq> TOKEN_TYPE_EOF \<Longrightarrow> t \<noteq> TOKEN_TYPE_ERROR \<Longrightarrow>
     length r < length s"
  using token_loop_less [of TOKEN_STATE_INITIAL_WHITESPACE "[]" s]
  by (simp add: ParseToken_def)

section \<open>The parser: \<open>Parse\<close>\<close>

record parse_state =
  last_token_type :: token_type
  start_block :: int
  config_stack :: "block list"

datatype parse_outcome = Continue parse_state | Return bool parse_state

text \<open>
  \<open>statements_.back()\<close> of a block, and \<open>config_stack.top()\<close>: on an empty vector or stack
  their behaviour is undefined.
\<close>

definition on_back :: "(statement \<Rightarrow> statement) \<Rightarrow> block \<Rightarrow> block result" where
  "on_back f b = (if b = [] then Inl Undefined_behaviour else Inr (butlast b @ [f (last b)]))"

definition add_token :: "string \<Rightarrow> statement \<Rightarrow> statement" where
  "add_token tok st = Statement (tokens st @ [tok]) (child_block st)"

definition set_child :: "block \<Rightarrow> statement \<Rightarrow> statement" where
  "set_child b st = Statement (tokens st) (Some b)"

definition pop_block :: "block list \<Rightarrow> block list result" where
  "pop_block stk =
     (case stk of
        b # below # rest \<Rightarrow> result_bind (on_back (set_child b) below) (\<lambda>p. Inr (p # rest))
      | _ \<Rightarrow> Inl Undefined_behaviour)"

definition push_token :: "bool \<Rightarrow> string \<Rightarrow> block list \<Rightarrow> block list result" where
  "push_token fresh tok stk =
     (case stk of
        [] \<Rightarrow> Inl Undefined_behaviour
      | b # rest \<Rightarrow>
          result_bind (on_back (add_token tok) (if fresh then b @ [Statement [] None] else b))
            (\<lambda>b'. Inr (b' # rest)))"

definition push_block :: "block list \<Rightarrow> block list result" where
  "push_block stk =
     (case stk of
        [] \<Rightarrow> Inl Undefined_behaviour
      | b # rest \<Rightarrow> result_bind (on_back (set_child []) b) (\<lambda>_. Inr ([] # b # rest)))"

text \<open>
  One pass of the loop of \<open>Parse\<close>, for a token of the given type and text. The number of open
  blocks is an \<open>int\<close>; counting one more than its largest value is undefined.
\<close>

definition parse_step :: "token_type \<Rightarrow> string \<Rightarrow> parse_state \<Rightarrow> parse_outcome result" where
  "parse_step t tok ps =
     (let l = last_token_type ps; stk = config_stack ps; n = start_block ps in
      case t of
        TOKEN_TYPE_ERROR \<Rightarrow> Inr (Return False ps)
      | TOKEN_TYPE_COMMENT \<Rightarrow> Inr (Continue ps)
      | TOKEN_TYPE_START \<Rightarrow> Inr (Return False ps)
      | TOKEN_TYPE_NORMAL \<Rightarrow>
          if l = TOKEN_TYPE_START \<or> l = TOKEN_TYPE_STATEMENT_END \<or> l = TOKEN_TYPE_START_BLOCK
             \<or> l = TOKEN_TYPE_END_BLOCK \<or> l = TOKEN_TYPE_NORMAL
          then result_bind (push_token (l \<noteq> TOKEN_TYPE_NORMAL) tok stk) (\<lambda>stk'.
                 Inr (Continue (ps\<lparr>last_token_type := t, config_stack := stk'\<rparr>)))
          else Inr (Return False ps)
      | TOKEN_TYPE_STATEMENT_END \<Rightarrow>
          if l \<noteq> TOKEN_TYPE_NORMAL then Inr (Return False ps)
          else Inr (Continue (ps\<lparr>last_token_type := t\<rparr>))
      | TOKEN_TYPE_START_BLOCK \<Rightarrow>
          if l \<noteq> TOKEN_TYPE_NORMAL then Inr (Return False ps)
          else if int_max \<le> n then Inl Undefined_behaviour
          else result_bind (push_block stk) (\<lambda>stk'.
                 Inr (Continue (ps\<lparr>last_token_type := t, start_block := n + 1,
                                   config_stack := stk'\<rparr>)))
      | TOKEN_TYPE_END_BLOCK \<Rightarrow>
          if l \<noteq> TOKEN_TYPE_STATEMENT_END \<and> l \<noteq> TOKEN_TYPE_END_BLOCK then Inr (Return False ps)
          else if n - 1 < 0 then Inr (Return False (ps\<lparr>start_block := n - 1\<rparr>))
          else result_bind (pop_block stk) (\<lambda>stk'.
                 Inr (Continue (ps\<lparr>last_token_type := t, start_block := n - 1,
                                   config_stack := stk'\<rparr>)))
      | TOKEN_TYPE_EOF \<Rightarrow>
          if l \<noteq> TOKEN_TYPE_STATEMENT_END \<and> l \<noteq> TOKEN_TYPE_END_BLOCK then Inr (Return False ps)
          else if n \<noteq> 0 then Inr (Return False ps)
          else Inr (Return True ps))"

lemma parse_step_continue:
  "parse_step t tok ps = Inr (Continue ps') \<Longrightarrow> t \<noteq> TOKEN_TYPE_EOF \<and> t \<noteq> TOKEN_TYPE_ERROR"
  by (auto simp: parse_step_def Let_def split: if_splits)

function parse_loop :: "parse_state \<Rightarrow> string \<Rightarrow> (bool \<times> parse_state) result" where
  "parse_loop ps inp =
     (case ParseToken inp of (t, tok, rest) \<Rightarrow>
        (case parse_step t tok ps of
           Inl e \<Rightarrow> Inl e
         | Inr (Continue ps') \<Rightarrow> parse_loop ps' rest
         | Inr (Return b ps') \<Rightarrow> Inr (b, ps')))"
  by pat_completeness auto
termination
  by (relation "measure (\<lambda>(ps, inp). length inp)")
    (auto dest!: parse_step_continue intro: ParseToken_less [OF sym])

declare parse_loop.simps [simp del]

text \<open>What is left of the stack when parsing stops: each open block goes to its statement.\<close>

fun collapse :: "block list \<Rightarrow> block" where
  "collapse [] = []"
| "collapse [b] = b"
| "collapse (b # below # rest) =
     collapse ((if below = [] then below else butlast below @ [set_child b (last below)]) # rest)"

text \<open>\<open>Parse\<close> on a stream, storing into a configuration that may already hold statements.\<close>

definition Parse :: "string \<Rightarrow> block \<Rightarrow> (bool \<times> block) result" where
  "Parse inp config =
     result_bind
       (parse_loop \<lparr>last_token_type = TOKEN_TYPE_START, start_block = 0,
                    config_stack = [config]\<rparr> inp)
       (\<lambda>(ok, ps). Inr (ok, collapse (config_stack ps)))"

text \<open>\<open>Parse\<close> on a file name; the file system gives the contents of the files that open.\<close>

definition Parse_file ::
  "(string \<Rightarrow> string option) \<Rightarrow> string \<Rightarrow> block \<Rightarrow> (bool \<times> block) result" where
  "Parse_file fs file_name config =
     (case fs file_name of
        None \<Rightarrow> Inr (False, config)
      | Some contents \<Rightarrow> Parse contents config)"

section \<open>What the parser prints\<close>

definition TokenTypeAsString :: "token_type \<Rightarrow> string" where
  "TokenTypeAsString type =
     (case type of
        TOKEN_TYPE_START \<Rightarrow> ''TOKEN_TYPE_START''
      | TOKEN_TYPE_NORMAL \<Rightarrow> ''TOKEN_TYPE_NORMAL''
      | TOKEN_TYPE_START_BLOCK \<Rightarrow> ''TOKEN_TYPE_START_BLOCK''
      | TOKEN_TYPE_END_BLOCK \<Rightarrow> ''TOKEN_TYPE_END_BLOCK''
      | TOKEN_TYPE_COMMENT \<Rightarrow> ''TOKEN_TYPE_COMMENT''
      | TOKEN_TYPE_STATEMENT_END \<Rightarrow> ''TOKEN_TYPE_STATEMENT_END''
      | TOKEN_TYPE_EOF \<Rightarrow> ''TOKEN_TYPE_EOF''
      | TOKEN_TYPE_ERROR \<Rightarrow> ''TOKEN_TYPE_ERROR'')"

text \<open>
  The line behind the loop, where every rejection ends: the type of the last token that was
  accepted and of the one that was not. An accepted text prints nothing.
\<close>

definition bad_transition :: "token_type \<Rightarrow> token_type \<Rightarrow> string" where
  "bad_transition l t =
     ''Bad transition from '' @ TokenTypeAsString l @ '' to '' @ TokenTypeAsString t @ [lf]"

function parse_prints :: "parse_state \<Rightarrow> string \<Rightarrow> string result" where
  "parse_prints ps inp =
     (case ParseToken inp of (t, tok, rest) \<Rightarrow>
        (case parse_step t tok ps of
           Inl e \<Rightarrow> Inl e
         | Inr (Continue ps') \<Rightarrow> parse_prints ps' rest
         | Inr (Return b ps') \<Rightarrow>
             Inr (if b then [] else bad_transition (last_token_type ps') t)))"
  by pat_completeness auto
termination
  by (relation "measure (\<lambda>(ps, inp). length inp)")
    (auto dest!: parse_step_continue intro: ParseToken_less [OF sym])

declare parse_prints.simps [simp del]

definition Parse_prints :: "string \<Rightarrow> string result" where
  "Parse_prints inp =
     parse_prints \<lparr>last_token_type = TOKEN_TYPE_START, start_block = 0, config_stack = [[]]\<rparr> inp"

end
