(* ===== verification/Config_Grammar.thy ===== *)
theory Config_Grammar
  imports Config_Parser
begin

text \<open>
  What the configuration parser guarantees: it never reads an empty vector or stack, every
  statement it builds has a token (the router and the server index token 0 without a check),
  an accepted configuration is well formed, and printing and parsing are inverse to each
  other on well-formed configurations.
\<close>

section \<open>Well-formed configurations\<close>

definition plain_token :: "string \<Rightarrow> bool" where
  "plain_token t \<longleftrightarrow>
     t \<noteq> [] \<and> \<not> initial_whitespace (hd t) \<and> \<not> normal_end (hd t)
     \<and> hd t \<noteq> CHR ''#'' \<and> hd t \<noteq> CHR 0x22 \<and> hd t \<noteq> CHR 0x27
     \<and> (\<forall>c \<in> set (tl t). \<not> normal_end c)"

definition quoted_token :: "string \<Rightarrow> bool" where
  "quoted_token t \<longleftrightarrow>
     (\<exists>q \<in> {CHR 0x22, CHR 0x27}. 2 \<le> length t \<and> hd t = q \<and> last t = q
        \<and> q \<notin> set (butlast (tl t)))"

definition good_token :: "string \<Rightarrow> bool" where
  "good_token t \<longleftrightarrow> plain_token t \<or> quoted_token t"

text \<open>Every statement has a token, every token is one the tokenizer can produce.\<close>

fun tokens_ok :: "statement \<Rightarrow> bool" where
  "tokens_ok (Statement ts child) \<longleftrightarrow>
     ts \<noteq> [] \<and> (\<forall>t \<in> set ts. good_token t)
     \<and> (case child of None \<Rightarrow> True | Some b \<Rightarrow> list_all tokens_ok b)"

text \<open>And no nested block is empty.\<close>

fun good_statement :: "statement \<Rightarrow> bool" where
  "good_statement (Statement ts child) \<longleftrightarrow>
     ts \<noteq> [] \<and> (\<forall>t \<in> set ts. good_token t)
     \<and> (case child of None \<Rightarrow> True | Some b \<Rightarrow> b \<noteq> [] \<and> list_all good_statement b)"

definition good_block :: "block \<Rightarrow> bool" where
  "good_block b \<longleftrightarrow> b \<noteq> [] \<and> list_all good_statement b"

text \<open>How many blocks are open at once where the text of a tree is deepest.\<close>

fun statement_nesting :: "statement \<Rightarrow> nat" where
  "statement_nesting (Statement ts child) =
     (case child of None \<Rightarrow> 0 | Some b \<Rightarrow> Suc (foldr max (map statement_nesting b) 0))"

definition nesting :: "block \<Rightarrow> nat" where
  "nesting b = foldr max (map statement_nesting b) 0"

lemma nesting_simps [simp]:
  "nesting [] = 0" "nesting (st # b) = max (statement_nesting st) (nesting b)"
  "statement_nesting (Statement ts None) = 0"
  "statement_nesting (Statement ts (Some b)) = Suc (nesting b)"
  by (simp_all add: nesting_def)

declare statement_nesting.simps [simp del]

lemma good_statement_tokens_ok: "good_statement st \<Longrightarrow> tokens_ok st"
  by (induction st rule: tokens_ok.induct) (auto simp: list_all_iff split: option.splits)

section \<open>The tokenizer on the pieces the printer writes\<close>

lemma ParseToken_punct [tokenizer]:
  "ParseToken (CHR ''{'' # s) = (TOKEN_TYPE_START_BLOCK, ''{'', s)"
  "ParseToken (CHR ''}'' # s) = (TOKEN_TYPE_END_BLOCK, ''}'', s)"
  "ParseToken (CHR '';'' # s) = (TOKEN_TYPE_STATEMENT_END, '';'', s)"
  "ParseToken [] = (TOKEN_TYPE_EOF, [], [])"
  by (simp_all add: ParseToken_def)

lemma ParseToken_space [tokenizer]:
  "ParseToken (CHR '' '' # s) = ParseToken s"
  "ParseToken (lf # s) = ParseToken s"
  by (simp_all add: ParseToken_def initial_whitespace_def)

lemma ParseToken_indent [tokenizer]: "ParseToken (indent d @ s) = ParseToken s"
  by (induction d) (simp_all add: indent_def tokenizer)

lemma token_loop_normal:
  "\<forall>c \<in> set u. \<not> normal_end c \<Longrightarrow> normal_end d \<Longrightarrow>
     token_loop TOKEN_STATE_TOKEN_TYPE_NORMAL v (u @ d # s) = (TOKEN_TYPE_NORMAL, v @ u, d # s)"
  by (induction u arbitrary: v) auto

lemma ParseToken_plain:
  assumes "plain_token t" and "normal_end d"
  shows "ParseToken (t @ d # s) = (TOKEN_TYPE_NORMAL, t, d # s)"
proof -
  obtain c u where t: "t = c # u" using assms(1) by (cases t) (auto simp: plain_token_def)
  have "c \<noteq> CHR ''{''" "c \<noteq> CHR ''}''" "c \<noteq> CHR '';''"
    using assms(1) by (auto simp: t plain_token_def normal_end_def)
  then show ?thesis
    using assms token_loop_normal [of u d "[c]" s]
    by (simp add: ParseToken_def t plain_token_def)
qed

lemma token_loop_quote:
  "CHR 0x22 \<notin> set u \<Longrightarrow>
     token_loop TOKEN_STATE_DOUBLE_QUOTE v (u @ CHR 0x22 # s)
       = (TOKEN_TYPE_NORMAL, v @ u @ [CHR 0x22], s)"
  "CHR 0x27 \<notin> set u \<Longrightarrow>
     token_loop TOKEN_STATE_SINGLE_QUOTE v (u @ CHR 0x27 # s)
       = (TOKEN_TYPE_NORMAL, v @ u @ [CHR 0x27], s)"
  by (induction u arbitrary: v) auto

lemma ParseToken_quoted:
  assumes "quoted_token t"
  shows "ParseToken (t @ s) = (TOKEN_TYPE_NORMAL, t, s)"
proof -
  obtain q where q: "q \<in> {CHR 0x22, CHR 0x27}" "2 \<le> length t" "hd t = q" "last t = q"
    "q \<notin> set (butlast (tl t))"
    using assms by (auto simp: quoted_token_def)
  obtain a t' where t': "t = a # t'" "t' \<noteq> []"
    using q(2) by (cases t; cases "tl t") auto
  then have "t = q # butlast (tl t) @ [q]"
    using q(3,4) by (metis append_butlast_last_id last_ConsR list.sel(1,3))
  then obtain u where u: "t = q # u @ [q]" "q \<notin> set u"
    using q(5) by blast
  then show ?thesis
    using q(1) by (auto simp: ParseToken_def token_loop_quote)
qed

lemma ParseToken_good [tokenizer]:
  "good_token t \<Longrightarrow> normal_end d \<Longrightarrow>
     ParseToken (t @ d # s) = (TOKEN_TYPE_NORMAL, t, d # s)"
  by (auto simp: good_token_def ParseToken_plain ParseToken_quoted)

text \<open>Conversely, every normal token the tokenizer returns is one of the two kinds.\<close>

lemma plain_start:
  assumes "c \<noteq> CHR ''{''" "c \<noteq> CHR ''}''" "c \<noteq> CHR ''#''" "c \<noteq> CHR 0x22" "c \<noteq> CHR 0x27"
    "c \<noteq> CHR '';''" "\<not> initial_whitespace c"
  shows "plain_token [c]"
  using assms by (simp add: plain_token_def normal_end_def initial_whitespace_def)

fun partial_token :: "token_state \<Rightarrow> string \<Rightarrow> bool" where
  "partial_token TOKEN_STATE_INITIAL_WHITESPACE v \<longleftrightarrow> v = []"
| "partial_token TOKEN_STATE_SINGLE_QUOTE v \<longleftrightarrow> (\<exists>u. v = CHR 0x27 # u \<and> CHR 0x27 \<notin> set u)"
| "partial_token TOKEN_STATE_DOUBLE_QUOTE v \<longleftrightarrow> (\<exists>u. v = CHR 0x22 # u \<and> CHR 0x22 \<notin> set u)"
| "partial_token TOKEN_STATE_TOKEN_TYPE_NORMAL v \<longleftrightarrow> plain_token v"
| "partial_token TOKEN_STATE_TOKEN_TYPE_COMMENT v \<longleftrightarrow> True"

lemma plain_snoc: "plain_token v \<Longrightarrow> \<not> normal_end c \<Longrightarrow> plain_token (v @ [c])"
  by (cases v) (auto simp: plain_token_def)

lemma quoted_snoc:
  "partial_token TOKEN_STATE_SINGLE_QUOTE v \<Longrightarrow> good_token (v @ [CHR 0x27])"
  "partial_token TOKEN_STATE_DOUBLE_QUOTE v \<Longrightarrow> good_token (v @ [CHR 0x22])"
  by (auto simp: good_token_def quoted_token_def butlast_append)

lemma token_loop_normal_good:
  "partial_token st v \<Longrightarrow> fst (token_loop st v s) = TOKEN_TYPE_NORMAL \<longrightarrow>
     good_token (fst (snd (token_loop st v s)))"
proof (induction st v s rule: token_loop.induct)
  case (2 v c s)
  then show ?case by (simp add: plain_start)
next
  case (3 v c s)
  then show ?case using quoted_snoc(1) [of v] by auto
next
  case (4 v c s)
  then show ?case using quoted_snoc(2) [of v] by auto
next
  case (6 v c s)
  then show ?case by (simp add: plain_snoc good_token_def)
qed auto

lemma ParseToken_normal_good: "ParseToken s = (TOKEN_TYPE_NORMAL, t, r) \<Longrightarrow> good_token t"
  using token_loop_normal_good [of TOKEN_STATE_INITIAL_WHITESPACE "[]" s]
  by (simp add: ParseToken_def)

section \<open>The parser on what the printer writes\<close>

lemma parse_loop_step:
  assumes "ParseToken inp = (t, tok, rest)" and "parse_step t tok ps = Inr (Continue ps')"
  shows "parse_loop ps inp = parse_loop ps' rest"
  by (subst parse_loop.simps) (simp add: assms)

lemma parse_loop_return:
  assumes "ParseToken inp = (t, tok, rest)" and "parse_step t tok ps = Inr (Return b ps')"
  shows "parse_loop ps inp = Inr (b, ps')"
  by (subst parse_loop.simps) (simp add: assms)

text \<open>Leading blanks do not matter.\<close>

lemma parse_loop_blank:
  "parse_loop ps (indent d @ s) = parse_loop ps s"
  "parse_loop ps (CHR '' '' # s) = parse_loop ps s"
  "parse_loop ps (lf # s) = parse_loop ps s"
  by (subst (1 2) parse_loop.simps, simp add: tokenizer)+

text \<open>The parser at the beginning of a statement, and in the middle of one.\<close>

definition between :: "token_type \<Rightarrow> bool" where
  "between t \<longleftrightarrow> t = TOKEN_TYPE_START \<or> t = TOKEN_TYPE_STATEMENT_END
     \<or> t = TOKEN_TYPE_START_BLOCK \<or> t = TOKEN_TYPE_END_BLOCK"

abbreviation in_statement :: "int \<Rightarrow> block \<Rightarrow> string list \<Rightarrow> block list \<Rightarrow> parse_state" where
  "in_statement n b ts stk \<equiv>
     \<lparr>last_token_type = TOKEN_TYPE_NORMAL, start_block = n,
      config_stack = (b @ [Statement ts None]) # stk\<rparr>"

lemma step_first_token:
  assumes "between l"
  shows "parse_step TOKEN_TYPE_NORMAL t
      \<lparr>last_token_type = l, start_block = n, config_stack = b # stk\<rparr>
     = Inr (Continue (in_statement n b [t] stk))"
  using assms by (auto simp: parse_step_def between_def push_token_def on_back_def add_token_def)

lemma step_next_token:
  "parse_step TOKEN_TYPE_NORMAL t (in_statement n b ts stk)
     = Inr (Continue (in_statement n b (ts @ [t]) stk))"
  by (simp add: parse_step_def push_token_def on_back_def add_token_def)

lemma parse_tokens_rest:
  assumes "\<forall>t \<in> set ts. good_token t" and "normal_end d"
  shows "parse_loop (in_statement n b us stk) (concat (map (\<lambda>t. CHR '' '' # t) ts) @ d # s)
     = parse_loop (in_statement n b (us @ ts) stk) (d # s)"
  using assms
proof (induction ts arbitrary: us)
  case (Cons t ts)
  obtain e r where r: "concat (map (\<lambda>t. CHR '' '' # t) ts) @ d # s = e # r" "normal_end e"
    using Cons.prems(2) by (cases ts) (auto simp: normal_end_def)
  have "parse_loop (in_statement n b us stk)
      (concat (map (\<lambda>t. CHR '' '' # t) (t # ts)) @ d # s)
     = parse_loop (in_statement n b us stk) (t @ e # r)"
    by (simp add: parse_loop_blank r(1) [symmetric])
  also have "\<dots> = parse_loop (in_statement n b (us @ [t]) stk) (e # r)"
    using Cons.prems(1) r(2)
    by (intro parse_loop_step [of _ TOKEN_TYPE_NORMAL t] step_next_token) (simp add: tokenizer)
  finally show ?case using Cons by (simp add: r(1) [symmetric])
qed simp

lemma join_tokens_Cons: "join_tokens (t # ts) = t @ concat (map (\<lambda>t. CHR '' '' # t) ts)"
  by (induction ts arbitrary: t) simp_all

lemma parse_tokens:
  assumes "between l" and "ts \<noteq> []" and "\<forall>t \<in> set ts. good_token t" and "normal_end d"
  shows "parse_loop \<lparr>last_token_type = l, start_block = n, config_stack = b # stk\<rparr>
       (join_tokens ts @ d # s)
     = parse_loop (in_statement n b ts stk) (d # s)"
proof -
  obtain t us where ts: "ts = t # us" using assms(2) by (cases ts) auto
  obtain e r where r: "concat (map (\<lambda>t. CHR '' '' # t) us) @ d # s = e # r" "normal_end e"
    using assms(4) by (cases us) (auto simp: normal_end_def)
  have "parse_loop \<lparr>last_token_type = l, start_block = n, config_stack = b # stk\<rparr> (t @ e # r)
     = parse_loop (in_statement n b [t] stk) (e # r)"
    using assms(1,3) r(2) ts
    by (intro parse_loop_step [of _ TOKEN_TYPE_NORMAL t] step_first_token)
      (simp_all add: tokenizer)
  also have "\<dots> = parse_loop (in_statement n b ([t] @ us) stk) (d # s)"
    using assms(3,4) parse_tokens_rest [of us d n b "[t]" stk s] ts r by simp
  finally show ?thesis by (simp add: ts join_tokens_Cons r(1) [symmetric])
qed

text \<open>After a statement the last token was a semicolon or a closing brace.\<close>

definition after :: "statement \<Rightarrow> token_type" where
  "after st = (if child_block st = None then TOKEN_TYPE_STATEMENT_END else TOKEN_TYPE_END_BLOCK)"

lemma between_after [simp]: "between (after st)"
  by (simp add: between_def after_def)

abbreviation at_block :: "token_type \<Rightarrow> int \<Rightarrow> block \<Rightarrow> block list \<Rightarrow> parse_state" where
  "at_block l n b stk \<equiv> \<lparr>last_token_type = l, start_block = n, config_stack = b # stk\<rparr>"

definition reads_back :: "statement \<Rightarrow> bool" where
  "reads_back st \<longleftrightarrow>
     (\<forall>d l n b stk s. between l \<longrightarrow> 0 \<le> n \<longrightarrow> n \<le> int_max \<longrightarrow>
        parse_loop (at_block l n b stk) (statement_ToString d st @ s)
          = (if n + int (statement_nesting st) \<le> int_max
             then parse_loop (at_block (after st) n (b @ [st]) stk) s
             else Inl Undefined_behaviour))"

lemma parse_block:
  assumes "\<forall>st \<in> set sts. reads_back st" and "sts \<noteq> []" and "between l" and "0 \<le> n" and "n \<le> int_max"
  shows "parse_loop (at_block l n b stk) (config_ToString d sts @ s)
     = (if n + int (nesting sts) \<le> int_max
        then parse_loop (at_block (after (last sts)) n (b @ sts) stk) s
        else Inl Undefined_behaviour)"
  using assms
proof (induction sts arbitrary: l b)
  case (Cons st sts)
  have "parse_loop (at_block l n b stk) (config_ToString d (st # sts) @ s)
     = (if n + int (statement_nesting st) \<le> int_max
        then parse_loop (at_block (after st) n (b @ [st]) stk) (config_ToString d sts @ s)
        else Inl Undefined_behaviour)"
    using Cons.prems by (simp add: config_ToString_def reads_back_def)
  then show ?case
    using Cons by (cases "sts = []") (auto simp: config_ToString_def)
qed simp

lemma step_close:
  "0 \<le> n \<Longrightarrow> parse_step TOKEN_TYPE_END_BLOCK tok
      (at_block (after st) (n + 1) c ((b @ [Statement ts None]) # stk))
    = Inr (Continue (at_block TOKEN_TYPE_END_BLOCK n (b @ [Statement ts (Some c)]) stk))"
  by (simp add: parse_step_def after_def pop_block_def on_back_def set_child_def)

lemma parse_open:
  "parse_loop (in_statement n b ts stk) ('' {'' @ s)
     = (if n < int_max
        then parse_loop (at_block TOKEN_TYPE_START_BLOCK (n + 1) [] ((b @ [Statement ts None]) # stk)) s
        else Inl Undefined_behaviour)"
  by (simp only: append.simps parse_loop_blank, subst parse_loop.simps)
    (simp add: tokenizer parse_step_def push_block_def on_back_def)

lemma good_reads_back: "good_statement st \<Longrightarrow> reads_back st"
proof (induction st)
  case (Statement ts child)
  show ?case unfolding reads_back_def
  proof (intro allI impI)
    fix d l n b stk s
    assume l: "between l" and n: "(0::int) \<le> n" and m: "n \<le> int_max"
    have ts: "ts \<noteq> []" "\<forall>t \<in> set ts. good_token t" using Statement.prems by auto
    show "parse_loop (at_block l n b stk) (statement_ToString d (Statement ts child) @ s)
       = (if n + int (statement_nesting (Statement ts child)) \<le> int_max
          then parse_loop (at_block (after (Statement ts child)) n (b @ [Statement ts child]) stk) s
          else Inl Undefined_behaviour)"
    proof (cases child)
      case None
      have "parse_loop (at_block l n b stk) (statement_ToString d (Statement ts child) @ s)
         = parse_loop (in_statement n b ts stk) (CHR '';'' # lf # s)"
        using parse_tokens [OF l ts, of "CHR '';''" n b stk "lf # s"]
        by (simp add: None parse_loop_blank normal_end_def)
      also have "\<dots> = parse_loop (at_block TOKEN_TYPE_STATEMENT_END n (b @ [Statement ts None]) stk)
          (lf # s)"
        by (rule parse_loop_step [of _ TOKEN_TYPE_STATEMENT_END "'';''"])
          (simp_all add: tokenizer parse_step_def)
      finally show ?thesis using m by (simp add: None parse_loop_blank after_def)
    next
      case (Some c)
      have c: "\<forall>st \<in> set c. reads_back st" "c \<noteq> []"
        using Statement Some by (auto simp: list_all_iff)
      let ?below = "(b @ [Statement ts None]) # stk"
      have "parse_loop (at_block l n b stk) (statement_ToString d (Statement ts child) @ s)
         = parse_loop (in_statement n b ts stk)
             ('' {'' @ lf # config_ToString (Suc d) c @ indent d @ CHR ''}'' # lf # s)"
        using parse_tokens [OF l ts, of "CHR '' ''" n b stk
            "CHR ''{'' # lf # config_ToString (Suc d) c @ indent d @ CHR ''}'' # lf # s"]
        by (simp add: Some parse_loop_blank(1) normal_end_def config_ToString_def)
      also have "\<dots> = (if n < int_max
          then parse_loop (at_block TOKEN_TYPE_START_BLOCK (n + 1) [] ?below)
            (config_ToString (Suc d) c @ indent d @ CHR ''}'' # lf # s)
          else Inl Undefined_behaviour)"
        by (simp only: parse_open parse_loop_blank)
      also have "\<dots> = (if n + 1 + int (nesting c) \<le> int_max
          then parse_loop (at_block (after (last c)) (n + 1) c ?below) (CHR ''}'' # lf # s)
          else Inl Undefined_behaviour)"
      proof (cases "n < int_max")
        case True
        then show ?thesis
          using parse_block [OF c, of TOKEN_TYPE_START_BLOCK "n + 1" "[]" ?below "Suc d"
              "indent d @ CHR ''}'' # lf # s"] n
          by (simp add: between_def parse_loop_blank)
      qed simp
      also have "parse_loop (at_block (after (last c)) (n + 1) c ?below) (CHR ''}'' # lf # s)
        = parse_loop (at_block TOKEN_TYPE_END_BLOCK n (b @ [Statement ts (Some c)]) stk) (lf # s)"
        by (rule parse_loop_step [OF _ step_close [OF n]]) (simp add: tokenizer)
      finally show ?thesis by (simp add: Some parse_loop_blank after_def add.assoc)
    qed
  qed
qed

lemma parse_top_block:
  assumes "good_block b"
  shows "parse_loop (at_block TOKEN_TYPE_START 0 [] []) (config_ToString d b @ s)
     = (if int (nesting b) \<le> int_max then parse_loop (at_block (after (last b)) 0 b []) s
        else Inl Undefined_behaviour)"
  using parse_block [of b TOKEN_TYPE_START 0 "[]" "[]" d s] assms good_reads_back
  by (auto simp: good_block_def list_all_iff between_def int_max_def)

lemma parse_printed:
  assumes "good_block b"
  shows "Parse (config_ToString d b) []
    = (if int (nesting b) \<le> int_max then Inr (True, b) else Inl Undefined_behaviour)"
proof -
  have "parse_loop (at_block (after (last b)) 0 b []) [] = Inr (True, at_block (after (last b)) 0 b [])"
    by (rule parse_loop_return [of _ TOKEN_TYPE_EOF "[]" "[]"])
      (simp_all add: tokenizer parse_step_def after_def)
  then show ?thesis using parse_top_block [OF assms, of d "[]"] by (simp add: Parse_def)
qed

text \<open>
  C8. Parsing what \<open>ToString\<close> wrote gives the configuration back: for every well-formed
  configuration (no empty block, every statement with at least one token, every token one the
  tokenizer can read) the parser accepts the printed text, whatever the indentation it starts
  from, and builds the same tree, unless more than 2147483647 blocks are open at once, when the
  parser's counter overflows.
\<close>

theorem parse_ToString:
  "good_block b \<Longrightarrow> Parse (config_ToString d b) []
     = (if int (nesting b) \<le> 2147483647 then Inr (True, b) else Inl Undefined_behaviour)"
  using parse_printed by (simp add: int_max_def)

text \<open>The hypothesis holds for a nested configuration with a quoted token.\<close>

definition sample_block :: block where
  "sample_block =
     [Statement [''port'', ''8080''] None,
      Statement [''router'']
        (Some [Statement [''handler'', ''echo'']
                 (Some [Statement [''location'', [CHR 0x22, CHR ''/'', CHR 0x22]] None])])]"

lemma sample_block_good: "good_block sample_block"
  by (simp add: good_block_def sample_block_def good_token_def plain_token_def quoted_token_def
      initial_whitespace_def normal_end_def)

lemma parse_ToString_witness: "Parse (config_ToString 0 sample_block) [] = Inr (True, sample_block)"
  using parse_ToString [OF sample_block_good, of 0] by (simp add: sample_block_def)

section \<open>The invariant of the parser\<close>

text \<open>
  Each enclosing block ends in the statement whose nested block is being read; the depth
  counter is the number of enclosing blocks; and what the innermost block looks like depends
  on the last token.
\<close>

definition open_block :: "block \<Rightarrow> bool" where
  "open_block b \<longleftrightarrow> good_block b \<and> child_block (last b) = None"

fun top_ok :: "token_type \<Rightarrow> block \<Rightarrow> block list \<Rightarrow> bool" where
  "top_ok TOKEN_TYPE_START b below \<longleftrightarrow> b = [] \<and> below = []"
| "top_ok TOKEN_TYPE_NORMAL b below \<longleftrightarrow> open_block b"
| "top_ok TOKEN_TYPE_START_BLOCK b below \<longleftrightarrow> b = []"
| "top_ok TOKEN_TYPE_STATEMENT_END b below \<longleftrightarrow> good_block b"
| "top_ok TOKEN_TYPE_END_BLOCK b below \<longleftrightarrow> good_block b"
| "top_ok _ b below \<longleftrightarrow> False"

definition parse_inv :: "parse_state \<Rightarrow> bool" where
  "parse_inv ps \<longleftrightarrow>
     (\<exists>b below. config_stack ps = b # below \<and> int (length below) = start_block ps
        \<and> list_all open_block below \<and> top_ok (last_token_type ps) b below)"

lemma open_block_snoc:
  "open_block (b @ [st]) \<longleftrightarrow> list_all good_statement b \<and> good_statement st \<and> child_block st = None"
  by (auto simp: open_block_def good_block_def)

lemma on_back_add_token:
  assumes "open_block b" and "good_token tok"
  shows "\<exists>b'. on_back (add_token tok) b = Inr b' \<and> open_block b'"
proof -
  obtain c st where b: "b = c @ [st]"
    using assms(1) by (cases b rule: rev_exhaust) (auto simp: open_block_def good_block_def)
  obtain ts where "st = Statement ts None"
    using assms(1) b by (cases st) (auto simp: open_block_snoc)
  then show ?thesis
    using assms by (auto simp: b open_block_snoc on_back_def add_token_def)
qed

lemma on_back_new:
  assumes "list_all good_statement b" and "good_token tok"
  shows "\<exists>b'. on_back (add_token tok) (b @ [Statement [] None]) = Inr b' \<and> open_block b'"
  using assms by (auto simp: open_block_snoc on_back_def add_token_def)

lemma on_back_set_child:
  assumes "open_block b" and "good_block c"
  shows "\<exists>b'. on_back (set_child c) b = Inr b' \<and> good_block b'"
proof -
  obtain d st where b: "b = d @ [st]"
    using assms(1) by (cases b rule: rev_exhaust) (auto simp: open_block_def good_block_def)
  obtain ts where "st = Statement ts None"
    using assms(1) b by (cases st) (auto simp: open_block_snoc)
  then show ?thesis
    using assms by (auto simp: b open_block_snoc on_back_def set_child_def good_block_def)
qed

text \<open>
  Every step keeps the invariant when parsing goes on, and accepts only at the outermost level
  behind a complete statement. Only the counter of open blocks can overflow.
\<close>

definition step_ok :: "parse_outcome \<Rightarrow> bool" where
  "step_ok out =
     (case out of
        Continue ps \<Rightarrow> parse_inv ps
      | Return ok ps \<Rightarrow>
          (\<exists>b below. config_stack ps = b # below \<and> list_all open_block below
             \<and> list_all good_statement b \<and> (ok \<longrightarrow> good_block b \<and> below = [])))"

lemma step_ok_stop:
  "parse_inv ps \<Longrightarrow> config_stack ps' = config_stack ps \<Longrightarrow> step_ok (Return False ps')"
  unfolding step_ok_def parse_inv_def
  by (cases "last_token_type ps") (auto simp: good_block_def open_block_def)

lemma step_ok_normal:
  assumes "parse_inv ps" and "good_token tok"
  shows "\<exists>out. parse_step TOKEN_TYPE_NORMAL tok ps = Inr out \<and> step_ok out"
proof -
  obtain b below where ps: "config_stack ps = b # below" "int (length below) = start_block ps"
    "list_all open_block below" "top_ok (last_token_type ps) b below"
    using assms(1) by (auto simp: parse_inv_def)
  define fresh where "fresh \<longleftrightarrow> last_token_type ps \<noteq> TOKEN_TYPE_NORMAL"
  have "\<exists>b'. on_back (add_token tok) (if fresh then b @ [Statement [] None] else b) = Inr b'
      \<and> open_block b'"
    using ps(4) assms(2) on_back_new [of b tok] on_back_add_token [of b tok]
    by (cases "last_token_type ps") (auto simp: fresh_def good_block_def)
  then obtain b' where "push_token fresh tok (config_stack ps) = Inr (b' # below)" "open_block b'"
    by (auto simp: push_token_def ps(1))
  moreover have "last_token_type ps \<in> {TOKEN_TYPE_START, TOKEN_TYPE_STATEMENT_END,
      TOKEN_TYPE_START_BLOCK, TOKEN_TYPE_END_BLOCK, TOKEN_TYPE_NORMAL}"
    using ps(4) by (cases "last_token_type ps") auto
  ultimately show ?thesis
    using ps by (auto simp: parse_step_def step_ok_def parse_inv_def fresh_def)
qed

lemma step_ok_open:
  assumes "parse_inv ps" and "start_block ps < int_max"
  shows "\<exists>out. parse_step TOKEN_TYPE_START_BLOCK tok ps = Inr out \<and> step_ok out"
proof (cases "last_token_type ps = TOKEN_TYPE_NORMAL")
  case True
  then obtain b below where ps: "config_stack ps = b # below" "int (length below) = start_block ps"
    "list_all open_block below" "open_block b"
    using assms by (auto simp: parse_inv_def)
  have "b \<noteq> []" using ps(4) by (simp add: open_block_def good_block_def)
  then show ?thesis
    using ps True assms(2)
    by (auto simp: parse_step_def push_block_def on_back_def step_ok_def parse_inv_def)
next
  case False
  then show ?thesis using assms(1) step_ok_stop [of ps ps] by (simp add: parse_step_def)
qed

lemma open_overflows:
  "int_max \<le> start_block ps \<Longrightarrow> parse_step TOKEN_TYPE_START_BLOCK tok ps
     = (if last_token_type ps \<noteq> TOKEN_TYPE_NORMAL then Inr (Return False ps)
        else Inl Undefined_behaviour)"
  by (simp add: parse_step_def)

lemma step_ok_close:
  assumes "parse_inv ps"
  shows "\<exists>out. parse_step TOKEN_TYPE_END_BLOCK tok ps = Inr out \<and> step_ok out"
proof (cases "last_token_type ps \<in> {TOKEN_TYPE_STATEMENT_END, TOKEN_TYPE_END_BLOCK}")
  case True
  then obtain b below where ps: "config_stack ps = b # below" "int (length below) = start_block ps"
    "list_all open_block below" "good_block b"
    using assms by (auto simp: parse_inv_def)
  show ?thesis
  proof (cases below)
    case Nil
    then show ?thesis
      using assms ps True step_ok_stop [of ps "ps\<lparr>start_block := start_block ps - 1\<rparr>"]
      by (auto simp: parse_step_def)
  next
    case (Cons c rest)
    then obtain b' where "on_back (set_child b) c = Inr b'" "good_block b'"
      using ps on_back_set_child [of c b] by auto
    then show ?thesis
      using ps True Cons by (auto simp: parse_step_def pop_block_def step_ok_def parse_inv_def)
  qed
next
  case False
  then show ?thesis using assms step_ok_stop [of ps ps] by (simp add: parse_step_def)
qed

lemma parse_step_ok:
  assumes inv: "parse_inv ps" and tok: "ParseToken s = (t, tok, r)"
    and room: "t = TOKEN_TYPE_START_BLOCK \<Longrightarrow> start_block ps < int_max"
  shows "\<exists>out. parse_step t tok ps = Inr out \<and> step_ok out"
proof (cases t)
  case TOKEN_TYPE_NORMAL
  then show ?thesis using step_ok_normal [OF inv] tok ParseToken_normal_good by blast
next
  case TOKEN_TYPE_START_BLOCK
  then show ?thesis using step_ok_open [OF inv] room by blast
next
  case TOKEN_TYPE_END_BLOCK
  then show ?thesis using step_ok_close [OF inv] by blast
next
  case TOKEN_TYPE_STATEMENT_END
  then show ?thesis
    using inv step_ok_stop [OF inv refl]
    by (auto simp: parse_step_def step_ok_def parse_inv_def open_block_def)
next
  case TOKEN_TYPE_COMMENT
  then show ?thesis using inv by (simp add: parse_step_def step_ok_def)
next
  case TOKEN_TYPE_EOF
  then show ?thesis
    using inv step_ok_stop [OF inv refl]
    by (cases "last_token_type ps")
      (auto simp: parse_step_def step_ok_def parse_inv_def good_block_def)
qed (use step_ok_stop [OF inv refl] in \<open>simp_all add: parse_step_def\<close>)

text \<open>Every block that is opened takes a brace off the input, so only a text of many can overflow.\<close>

abbreviation open_braces :: "string \<Rightarrow> int" where
  "open_braces s \<equiv> int (count_list s (CHR ''{''))"

lemma token_loop_braces:
  "count_list (snd (snd (token_loop st v s))) (CHR ''{'')
     + (if fst (token_loop st v s) = TOKEN_TYPE_START_BLOCK then 1 else 0)
   \<le> count_list s (CHR ''{'')"
  by (induction st v s rule: token_loop.induct) (auto split: if_splits)

lemma ParseToken_braces:
  "ParseToken s = (t, w, r) \<Longrightarrow>
     open_braces r + (if t = TOKEN_TYPE_START_BLOCK then 1 else 0) \<le> open_braces s"
  using token_loop_braces [of TOKEN_STATE_INITIAL_WHITESPACE "[]" s]
  by (auto simp: ParseToken_def split: if_splits)

lemma parse_step_counter:
  "parse_step t tok ps = Inr (Continue ps') \<Longrightarrow>
     start_block ps' \<le> start_block ps + (if t = TOKEN_TYPE_START_BLOCK then 1 else 0)"
  by (cases t) (auto simp: parse_step_def Let_def result_bind_eq_Inr split: if_splits)

lemma parse_loop_ok:
  assumes "parse_inv ps"
  shows "(\<exists>ok ps'. parse_loop ps s = Inr (ok, ps') \<and> step_ok (Return ok ps'))
    \<or> parse_loop ps s = Inl Undefined_behaviour \<and> int_max < start_block ps + open_braces s"
  using assms
proof (induction ps s rule: parse_loop.induct)
  case (1 ps s)
  obtain t tok r where tok: "ParseToken s = (t, tok, r)" by (cases "ParseToken s") auto
  note braces = ParseToken_braces [OF tok]
  consider "parse_step t tok ps = Inl Undefined_behaviour" "int_max < start_block ps + open_braces s"
    | out where "parse_step t tok ps = Inr out" "step_ok out"
  proof (cases "t = TOKEN_TYPE_START_BLOCK \<and> int_max \<le> start_block ps")
    case True
    then have "int_max < start_block ps + open_braces s" using braces by simp
    then show ?thesis
      using that True open_overflows [of ps tok] step_ok_stop [OF "1.prems" refl] by (auto split: if_splits)
  next
    case False
    then show ?thesis using that parse_step_ok [OF "1.prems" tok] by force
  qed
  then show ?case
  proof cases
    case 1
    then show ?thesis by (subst (2) parse_loop.simps) (simp add: tok)
  next
    case (2 out)
    show ?thesis
    proof (cases out)
      case (Continue ps')
      then have "start_block ps' + open_braces r \<le> start_block ps + open_braces s"
        using 2(1) parse_step_counter [of t tok ps ps'] braces by simp
      then show ?thesis
        using "1.IH" [OF tok [symmetric]] 2 Continue parse_loop_step [OF tok, of ps ps']
        by (force simp: step_ok_def)
    next
      case (Return ok ps')
      then show ?thesis using 2 parse_loop_return [OF tok] by auto
    qed
  qed
qed

lemma collapse_tokens_ok:
  "list_all tokens_ok b \<Longrightarrow> list_all open_block below \<Longrightarrow> list_all tokens_ok (collapse (b # below))"
proof (induction below arbitrary: b)
  case (Cons c below)
  have c: "c \<noteq> []" "list_all tokens_ok c"
    using Cons.prems(2) good_statement_tokens_ok
    by (auto simp: open_block_def good_block_def list_all_iff)
  obtain d st where d: "c = d @ [st]" using c(1) by (cases c rule: rev_exhaust) auto
  have "tokens_ok (set_child b st)"
    using c(2) Cons.prems(1) by (cases st) (auto simp: d set_child_def)
  then show ?case using Cons c by (auto simp: d)
qed simp

lemma Parse_cases:
  "(\<exists>ok b. Parse s [] = Inr (ok, b) \<and> list_all tokens_ok b \<and> (ok \<longrightarrow> good_block b))
    \<or> Parse s [] = Inl Undefined_behaviour \<and> int_max < open_braces s"
proof -
  let ?ps = "at_block TOKEN_TYPE_START 0 [] []"
  have "parse_inv ?ps" by (simp add: parse_inv_def)
  then consider ok ps where "parse_loop ?ps s = Inr (ok, ps)" "step_ok (Return ok ps)"
    | "parse_loop ?ps s = Inl Undefined_behaviour" "int_max < open_braces s"
    using parse_loop_ok [of ?ps s] by auto
  then show ?thesis
  proof cases
    case (1 ok ps)
    then obtain b below where b: "config_stack ps = b # below" "list_all open_block below"
        "list_all good_statement b" "ok \<longrightarrow> good_block b \<and> below = []"
      unfolding step_ok_def parse_outcome.case by blast
    have "list_all tokens_ok b" using b(3) good_statement_tokens_ok by (auto simp: list_all_iff)
    then show ?thesis
      using 1 b collapse_tokens_ok [of b below] by (auto simp: Parse_def)
  qed (simp add: Parse_def)
qed

lemma Parse_ok: "Parse s [] = Inr (ok, b) \<Longrightarrow> list_all tokens_ok b \<and> (ok \<longrightarrow> good_block b)"
  using Parse_cases [of s] by auto

lemma Parse_small: "open_braces s \<le> int_max \<Longrightarrow> \<exists>ok b. Parse s [] = Inr (ok, b)"
  using Parse_cases [of s] by auto

text \<open>
  C23. The parser is total, and safe but for its counter: on every input it stops, it never takes
  the last element of an empty vector or the top of an empty stack, and every statement of the
  tree it leaves behind, also after an error, has at least one token. The router and the server
  index token 0 of a statement with a nested block without a check, which this justifies. The
  only undefined behaviour is the overflow of the counter of open blocks, which is an \<open>int\<close>; it
  takes a text with more than 2147483647 opening braces.
\<close>

theorem parse_total_safe:
  "(\<exists>ok b. Parse s [] = Inr (ok, b) \<and> list_all tokens_ok b)
    \<or> Parse s [] = Inl Undefined_behaviour \<and> 2147483647 < count_list s (CHR ''{'')"
  using Parse_cases [of s] by (auto simp: int_max_def)

end
