(* ===== verification/Config_Language.thy ===== *)
theory Config_Language
  imports Config_Grammar
begin

text \<open>
  The configuration language as a grammar, and the parser of \<open>src/config_parser.cc\<close> against
  it. The parser is a loop over a state (the last token's type, a depth, a stack of pointers
  into the tree); the grammar is the one the file format has on paper: a statement is words
  and a semicolon, or words and a nonempty block in braces. The two accept the same texts and
  build the same trees. The proof relates the parser's state to the symbols it has consumed.
\<close>

section \<open>What the tokenizer makes of a text\<close>

datatype symbol = Word string | Semicolon | Open_brace | Close_brace

text \<open>
  The symbols of a text up to its end, comments left out; \<open>None\<close> where the tokenizer reports
  an error, which is an open quotation at the end of the text.
\<close>

function symbols :: "string \<Rightarrow> symbol list option" where
  "symbols s =
     (case ParseToken s of (t, w, r) \<Rightarrow>
        (case t of
           TOKEN_TYPE_EOF \<Rightarrow> Some []
         | TOKEN_TYPE_ERROR \<Rightarrow> None
         | TOKEN_TYPE_START \<Rightarrow> None
         | TOKEN_TYPE_COMMENT \<Rightarrow> symbols r
         | TOKEN_TYPE_NORMAL \<Rightarrow> map_option ((#) (Word w)) (symbols r)
         | TOKEN_TYPE_STATEMENT_END \<Rightarrow> map_option ((#) Semicolon) (symbols r)
         | TOKEN_TYPE_START_BLOCK \<Rightarrow> map_option ((#) Open_brace) (symbols r)
         | TOKEN_TYPE_END_BLOCK \<Rightarrow> map_option ((#) Close_brace) (symbols r)))"
  by pat_completeness auto
termination
  by (relation "measure length") (auto intro: ParseToken_less [OF sym])

declare symbols.simps [simp del]

text \<open>The words of a text are tokens the tokenizer can produce.\<close>

lemma symbols_good: "symbols s = Some w \<Longrightarrow> Word t \<in> set w \<Longrightarrow> good_token t"
proof (induction s arbitrary: w rule: measure_induct_rule [of length])
  case (less s)
  obtain y u r where y: "ParseToken s = (y, u, r)" by (metis prod_cases3)
  have IH: "y \<noteq> TOKEN_TYPE_EOF \<Longrightarrow> y \<noteq> TOKEN_TYPE_ERROR \<Longrightarrow> symbols r = Some v \<Longrightarrow>
      Word t \<in> set v \<Longrightarrow> good_token t" for v
    using less.IH ParseToken_less [OF y] by blast
  show ?case
    using less.prems y IH ParseToken_normal_good [of s u r]
    by (cases y) (auto simp: symbols.simps [of s])
qed

section \<open>The grammar\<close>

inductive statement_of :: "symbol list \<Rightarrow> statement \<Rightarrow> bool"
  and block_of :: "symbol list \<Rightarrow> block \<Rightarrow> bool" where
  simple: "ts \<noteq> [] \<Longrightarrow> statement_of (map Word ts @ [Semicolon]) (Statement ts None)"
| nested: "ts \<noteq> [] \<Longrightarrow> block_of w b \<Longrightarrow>
     statement_of (map Word ts @ [Open_brace] @ w @ [Close_brace]) (Statement ts (Some b))"
| single: "statement_of w st \<Longrightarrow> block_of w [st]"
| more: "statement_of v st \<Longrightarrow> block_of w b \<Longrightarrow> block_of (v @ w) (st # b)"

text \<open>A tree has exactly one spelling.\<close>

fun spelling :: "statement \<Rightarrow> symbol list" where
  "spelling (Statement ts child) =
     map Word ts @
     (case child of
        None \<Rightarrow> [Semicolon]
      | Some b \<Rightarrow> [Open_brace] @ concat (map spelling b) @ [Close_brace])"

abbreviation spellings :: "block \<Rightarrow> symbol list" where
  "spellings b \<equiv> concat (map spelling b)"

lemma of_spelling:
  "statement_of w st \<Longrightarrow> w = spelling st \<and>
     ((\<forall>t. Word t \<in> set w \<longrightarrow> good_token t) \<longrightarrow> good_statement st)"
  "block_of w b \<Longrightarrow> w = spellings b \<and>
     ((\<forall>t. Word t \<in> set w \<longrightarrow> good_token t) \<longrightarrow> good_block b)"
  by (induction rule: statement_of_block_of.inducts) (auto simp: good_block_def)

lemma block_of_list:
  "b \<noteq> [] \<Longrightarrow> \<forall>st \<in> set b. statement_of (spelling st) st \<Longrightarrow> block_of (spellings b) b"
proof (induction b)
  case (Cons st b)
  then show ?case
    using single [of "spelling st" st] more [of "spelling st" st "spellings b" b]
    by (cases "b = []") auto
qed simp

lemma good_statement_of: "good_statement st \<Longrightarrow> statement_of (spelling st) st"
proof (induction st)
  case (Statement ts child)
  show ?case
  proof (cases child)
    case None
    then show ?thesis using Statement.prems simple by simp
  next
    case (Some b)
    then have "block_of (spellings b) b"
      using Statement by (intro block_of_list) (auto simp: list_all_iff)
    then show ?thesis using Statement.prems Some nested by simp
  qed
qed

lemma good_block_of: "good_block b \<Longrightarrow> block_of (spellings b) b"
  using good_statement_of block_of_list by (auto simp: good_block_def list_all_iff)

section \<open>The symbols the parser has consumed\<close>

fun token_of :: "symbol \<Rightarrow> token_type \<times> string" where
  "token_of (Word t) = (TOKEN_TYPE_NORMAL, t)"
| "token_of Semicolon = (TOKEN_TYPE_STATEMENT_END, '';'')"
| "token_of Open_brace = (TOKEN_TYPE_START_BLOCK, ''{'')"
| "token_of Close_brace = (TOKEN_TYPE_END_BLOCK, ''}'')"

text \<open>A block whose last statement is still being read, and the parser's state.\<close>

definition unfinished :: "block \<Rightarrow> symbol list" where
  "unfinished b = spellings (butlast b) @ map Word (tokens (last b))"

fun consumed :: "token_type \<Rightarrow> block list \<Rightarrow> symbol list" where
  "consumed l [] = []"
| "consumed l (b # below) =
     concat (map (\<lambda>c. unfinished c @ [Open_brace]) (rev below)) @
     (if l = TOKEN_TYPE_NORMAL then unfinished b else spellings b)"

abbreviation consumed_by :: "parse_state \<Rightarrow> symbol list" where
  "consumed_by ps \<equiv> consumed (last_token_type ps) (config_stack ps)"

lemma unfinished_snoc [simp]: "unfinished (b @ [st]) = spellings b @ map Word (tokens st)"
  by (simp add: unfinished_def)

lemma open_block_last: "open_block b \<Longrightarrow> \<exists>d ts. b = d @ [Statement ts None]"
  by (cases b rule: rev_exhaust; cases "last b") (auto simp: open_block_def good_block_def)

lemma top_ok_normal: "parse_inv ps \<Longrightarrow> last_token_type ps = TOKEN_TYPE_NORMAL \<Longrightarrow>
    \<exists>d ts below. config_stack ps = (d @ [Statement ts None]) # below"
  using open_block_last by (auto simp: parse_inv_def)

lemma consumed_word:
  assumes "parse_inv ps" and "parse_step TOKEN_TYPE_NORMAL t ps = Inr (Continue ps')"
  shows "consumed_by ps' = consumed_by ps @ [Word t]"
proof (cases "last_token_type ps = TOKEN_TYPE_NORMAL")
  case True
  then obtain d ts below where "config_stack ps = (d @ [Statement ts None]) # below"
    using top_ok_normal [OF assms(1)] by blast
  then show ?thesis
    using assms(2) True
    by (auto simp: parse_step_def push_token_def on_back_def add_token_def)
next
  case False
  obtain b below where "config_stack ps = b # below" using assms(1) by (auto simp: parse_inv_def)
  then show ?thesis
    using assms(2) False
    by (auto simp: parse_step_def Let_def push_token_def on_back_def add_token_def split: if_splits)
qed

lemma consumed_semicolon:
  assumes "parse_inv ps" and "parse_step TOKEN_TYPE_STATEMENT_END t ps = Inr (Continue ps')"
  shows "consumed_by ps' = consumed_by ps @ [Semicolon]"
proof -
  have l: "last_token_type ps = TOKEN_TYPE_NORMAL"
    using assms(2) by (auto simp: parse_step_def split: if_splits)
  then obtain d ts below where "config_stack ps = (d @ [Statement ts None]) # below"
    using top_ok_normal [OF assms(1)] by blast
  then show ?thesis using assms(2) l by (auto simp: parse_step_def)
qed

lemma consumed_open:
  assumes "parse_inv ps" and "parse_step TOKEN_TYPE_START_BLOCK t ps = Inr (Continue ps')"
  shows "consumed_by ps' = consumed_by ps @ [Open_brace]"
proof -
  have l: "last_token_type ps = TOKEN_TYPE_NORMAL"
    using assms(2) by (auto simp: parse_step_def Let_def split: if_splits)
  then obtain d ts below where "config_stack ps = (d @ [Statement ts None]) # below"
    using top_ok_normal [OF assms(1)] by blast
  then show ?thesis
    using assms(2) l by (auto simp: parse_step_def Let_def push_block_def on_back_def split: if_splits)
qed

lemma consumed_close:
  assumes "parse_inv ps" and "parse_step TOKEN_TYPE_END_BLOCK t ps = Inr (Continue ps')"
  shows "consumed_by ps' = consumed_by ps @ [Close_brace]"
proof -
  have l: "last_token_type ps = TOKEN_TYPE_STATEMENT_END \<or> last_token_type ps = TOKEN_TYPE_END_BLOCK"
    and n: "\<not> start_block ps - 1 < 0"
    using assms(2) by (auto simp: parse_step_def Let_def split: if_splits)
  then obtain b below where b: "config_stack ps = b # below" "int (length below) = start_block ps"
      "list_all open_block below"
    using assms(1) by (auto simp: parse_inv_def)
  then obtain c rest where c: "below = c # rest" using n by (cases below) auto
  then have ps: "config_stack ps = b # c # rest" "open_block c" using b by auto
  then obtain d ts where "c = d @ [Statement ts None]" using open_block_last by blast
  then show ?thesis
    using assms(2) l n ps
    by (auto simp: parse_step_def pop_block_def on_back_def set_child_def)
qed

lemma consumed_step:
  assumes "parse_inv ps" and "parse_step t u ps = Inr (Continue ps')" and "token_of x = (t, u)"
  shows "consumed_by ps' = consumed_by ps @ [x]"
proof (cases x)
  case (Word v)
  then show ?thesis using assms consumed_word by auto
next
  case Semicolon
  then show ?thesis using assms consumed_semicolon by auto
next
  case Open_brace
  then show ?thesis using assms consumed_open by auto
next
  case Close_brace
  then show ?thesis using assms consumed_close by auto
qed

lemma consumed_inv_step:
  assumes "parse_inv ps" and "parse_step t u ps = Inr (Continue ps')" and "token_of x = (t, u)"
    and "\<forall>v. x = Word v \<longrightarrow> good_token v"
  shows "parse_inv ps'"
proof -
  have "\<exists>out. parse_step t u ps = Inr out \<and> step_ok out"
  proof (cases x)
    case (Word v)
    then show ?thesis using assms(3,4) step_ok_normal [OF assms(1)] by auto
  next
    case Semicolon
    then show ?thesis using assms(3) parse_step_ok [OF assms(1) ParseToken_punct(3)] by auto
  next
    case Open_brace
    then have "parse_step TOKEN_TYPE_START_BLOCK u ps = Inr (Continue ps')"
      using assms(2,3) by auto
    then have "start_block ps < int_max" by (simp add: parse_step_def Let_def split: if_splits)
    then show ?thesis using Open_brace assms(3) step_ok_open [OF assms(1)] by auto
  next
    case Close_brace
    then show ?thesis using assms(3) step_ok_close [OF assms(1)] by auto
  qed
  then show ?thesis using assms(2) by (simp add: step_ok_def)
qed

section \<open>The parser's loop on the symbols alone\<close>

fun run :: "parse_state \<Rightarrow> symbol list \<Rightarrow> (bool \<times> parse_state) result" where
  "run ps [] =
     (case parse_step TOKEN_TYPE_EOF [] ps of
        Inl e \<Rightarrow> Inl e
      | Inr (Continue ps') \<Rightarrow> Inr (False, ps')
      | Inr (Return b ps') \<Rightarrow> Inr (b, ps'))"
| "run ps (x # w) =
     (case parse_step (fst (token_of x)) (snd (token_of x)) ps of
        Inl e \<Rightarrow> Inl e
      | Inr (Continue ps') \<Rightarrow> run ps' w
      | Inr (Return b ps') \<Rightarrow> Inr (b, ps'))"

lemma parse_step_text:
  "t \<noteq> TOKEN_TYPE_NORMAL \<Longrightarrow> parse_step t u ps = parse_step t v ps"
  by (cases t) (simp_all add: parse_step_def)

text \<open>The loop over the text is the loop over its symbols.\<close>

lemma parse_loop_run: "symbols s = Some w \<Longrightarrow> parse_loop ps s = run ps w"
proof (induction s arbitrary: ps w rule: measure_induct_rule [of length])
  case (less s)
  obtain y u r where y: "ParseToken s = (y, u, r)" by (metis prod_cases3)
  have IH: "y \<noteq> TOKEN_TYPE_EOF \<Longrightarrow> y \<noteq> TOKEN_TYPE_ERROR \<Longrightarrow> symbols r = Some v \<Longrightarrow>
      parse_loop ps r = run ps v" for ps v
    using less.IH ParseToken_less [OF y] by blast
  have step: "symbols r = Some v \<Longrightarrow> token_of x = (y, u') \<Longrightarrow> (y = TOKEN_TYPE_NORMAL \<longrightarrow> u' = u) \<Longrightarrow>
      parse_loop ps s = run ps (x # v)" for x u' v
    using IH parse_step_text [of y u ps u'] 
    by (subst parse_loop.simps, cases x)
      (auto simp: y split: sum.splits parse_outcome.splits)
  show ?case
  proof (cases y)
    case TOKEN_TYPE_NORMAL
    then show ?thesis using less.prems y step [of _ "Word u"] by (auto simp: symbols.simps [of s])
  next
    case TOKEN_TYPE_STATEMENT_END
    then show ?thesis using less.prems y step [of _ Semicolon] by (auto simp: symbols.simps [of s])
  next
    case TOKEN_TYPE_START_BLOCK
    then show ?thesis using less.prems y step [of _ Open_brace] by (auto simp: symbols.simps [of s])
  next
    case TOKEN_TYPE_END_BLOCK
    then show ?thesis using less.prems y step [of _ Close_brace] by (auto simp: symbols.simps [of s])
  next
    case TOKEN_TYPE_COMMENT
    then have "symbols r = Some w" using less.prems y by (simp add: symbols.simps [of s])
    moreover have "parse_loop ps s = parse_loop ps r"
      using parse_loop_step [of s y u r ps ps] TOKEN_TYPE_COMMENT y by (simp add: parse_step_def)
    ultimately show ?thesis using IH TOKEN_TYPE_COMMENT by simp
  next
    case TOKEN_TYPE_EOF
    then show ?thesis
      using less.prems y parse_step_text [of TOKEN_TYPE_EOF u ps "[]"]
      by (subst parse_loop.simps)
        (auto simp: symbols.simps [of s] parse_step_continue split: sum.splits parse_outcome.splits
          dest: parse_step_continue)
  qed (use less.prems y in \<open>simp_all add: symbols.simps [of s]\<close>)
qed

text \<open>A text the tokenizer fails on is not accepted.\<close>

lemma parse_loop_symbols: "parse_loop ps s = Inr (True, ps') \<Longrightarrow> \<exists>w. symbols s = Some w"
proof (induction s arbitrary: ps rule: measure_induct_rule [of length])
  case (less s)
  obtain y u r where y: "ParseToken s = (y, u, r)" by (metis prod_cases3)
  show ?case
  proof (cases "y \<in> {TOKEN_TYPE_EOF, TOKEN_TYPE_ERROR, TOKEN_TYPE_START}")
    case True
    then show ?thesis
      using less.prems y parse_loop_return [OF y, of ps False ps]
      by (auto simp: symbols.simps [of s] parse_step_def)
  next
    case False
    obtain ok ps1 where out: "parse_step y u ps = Inr (Continue ps1) \<or>
        parse_step y u ps = Inr (Return ok ps1)"
      using less.prems y
      by (subst (asm) parse_loop.simps) (auto split: sum.splits parse_outcome.splits)
    have "\<not> (\<exists>ps1. parse_step y u ps = Inr (Return True ps1))"
      using False by (cases y) (auto simp: parse_step_def Let_def result_bind_def
        split: if_splits sum.splits)
    then have "parse_step y u ps = Inr (Continue ps1)"
      using out less.prems parse_loop_return [OF y, of ps ok ps1] by auto
    then have "\<exists>w. symbols r = Some w"
      using less.IH [of r ps1] less.prems ParseToken_less [OF y] parse_loop_step [OF y] False
      by auto
    then show ?thesis using y False by (cases y) (auto simp: symbols.simps [of s])
  qed
qed

text \<open>When the loop accepts, what it consumed is the spelling of the tree it has built.\<close>

lemma run_spelling:
  assumes "parse_inv ps" and "run ps w = Inr (True, ps')" and "\<forall>t. Word t \<in> set w \<longrightarrow> good_token t"
  shows "\<exists>b. config_stack ps' = [b] \<and> consumed_by ps @ w = spellings b"
  using assms
proof (induction w arbitrary: ps)
  case Nil
  obtain b below where ps: "config_stack ps = b # below" "int (length below) = start_block ps"
    using Nil.prems(1) by (auto simp: parse_inv_def)
  have "ps' = ps" "start_block ps = 0" "last_token_type ps \<noteq> TOKEN_TYPE_NORMAL"
    using Nil.prems(2) by (auto simp: parse_step_def Let_def split: if_splits)
  then show ?case using ps by simp
next
  case (Cons x w)
  obtain t u where x: "token_of x = (t, u)" by force
  have "\<not> (\<exists>ps1. parse_step t u ps = Inr (Return True ps1))"
    using x by (cases x) (auto simp: parse_step_def Let_def result_bind_def
      split: if_splits sum.splits)
  then obtain ps1 where ps1: "parse_step t u ps = Inr (Continue ps1)" "run ps1 w = Inr (True, ps')"
    using Cons.prems(2) x by (auto split: sum.splits parse_outcome.splits)
  have "parse_inv ps1" using consumed_inv_step [OF Cons.prems(1) ps1(1) x] Cons.prems(3) by auto
  then have "\<exists>b. config_stack ps' = [b] \<and> consumed_by ps1 @ w = spellings b"
    using ps1(2) Cons.prems(3) by (intro Cons.IH) auto
  then show ?case using consumed_step [OF Cons.prems(1) ps1(1) x] by simp
qed

lemma Parse_symbols:
  assumes "Parse s [] = Inr (True, b)"
  shows "symbols s = Some (spellings b)"
proof -
  let ?ps = "at_block TOKEN_TYPE_START 0 [] []"
  obtain ps' where ps': "parse_loop ?ps s = Inr (True, ps')" "b = collapse (config_stack ps')"
    using assms by (auto simp: Parse_def result_bind_def split: sum.splits)
  obtain w where w: "symbols s = Some w" using parse_loop_symbols [OF ps'(1)] by blast
  then have "run ?ps w = Inr (True, ps')" using ps'(1) parse_loop_run by simp
  then have "\<exists>b. config_stack ps' = [b] \<and> consumed_by ?ps @ w = spellings b"
    using symbols_good [OF w] by (intro run_spelling) (auto simp: parse_inv_def)
  then show ?thesis using w ps'(2) by auto
qed

text \<open>The result depends on the symbols only: blanks, line ends and comments do not matter.\<close>

lemma Parse_same_symbols:
  "symbols s = Some w \<Longrightarrow> symbols s' = Some w \<Longrightarrow> Parse s c = Parse s' c"
  by (simp add: Parse_def parse_loop_run)

text \<open>The printed form of a tree is read as the spelling of the tree.\<close>

lemma symbols_word:
  "good_token t \<Longrightarrow> normal_end c \<Longrightarrow> symbols (t @ c # s) = map_option ((#) (Word t)) (symbols (c # s))"
  by (subst symbols.simps) (simp add: tokenizer)

lemma symbols_punct:
  "symbols (CHR '' '' # s) = symbols s" "symbols (lf # s) = symbols s"
  "symbols (indent d @ s) = symbols s" "symbols [] = Some []"
  "symbols (CHR '';'' # s) = map_option ((#) Semicolon) (symbols s)"
  "symbols (CHR ''{'' # s) = map_option ((#) Open_brace) (symbols s)"
  "symbols (CHR ''}'' # s) = map_option ((#) Close_brace) (symbols s)"
  by (subst (1 2) symbols.simps, simp add: tokenizer)+
    (subst symbols.simps, simp add: tokenizer)+

lemma map_option_append [simp]:
  "map_option ((@) []) x = x" "map_option ((@) [y]) x = map_option ((#) y) x"
  by (cases x; simp)+

lemma symbols_words:
  assumes "ts \<noteq> []" and "\<forall>t \<in> set ts. good_token t" and "normal_end c"
  shows "symbols (join_tokens ts @ c # s) = map_option ((@) (map Word ts)) (symbols (c # s))"
  using assms
proof (induction ts rule: induct_list012)
  case (3 t u ts)
  have "symbols (join_tokens (t # u # ts) @ c # s)
      = map_option ((#) (Word t)) (symbols (join_tokens (u # ts) @ c # s))"
    using 3(4) by (simp add: symbols_word symbols_punct normal_end_def)
  then show ?case using 3 by (simp add: option.map_comp comp_def)
qed (simp_all add: symbols_word comp_def)

lemma symbols_statement:
  "good_statement st \<Longrightarrow>
     symbols (statement_ToString d st @ s) = map_option ((@) (spelling st)) (symbols s)"
proof (induction st arbitrary: d s)
  case (Statement ts child)
  have ts: "ts \<noteq> []" "\<forall>t \<in> set ts. good_token t" using Statement.prems by auto
  show ?case
  proof (cases child)
    case None
    then show ?thesis
      using symbols_words [OF ts, of "CHR '';''" "lf # s"]
      by (simp add: symbols_punct normal_end_def option.map_comp comp_def)
  next
    case (Some b)
    have "symbols (config_ToString d' c @ s') = map_option ((@) (spellings c)) (symbols s')"
      if "set c \<subseteq> set b" for d' c s'
      using that
    proof (induction c)
      case (Cons st c)
      then show ?case
        using Statement Some by (auto simp: config_ToString_def list_all_iff option.map_comp comp_def)
    qed (simp add: config_ToString_def)
    then show ?thesis
      using symbols_words [OF ts, of "CHR '' ''"
          "CHR ''{'' # lf # config_ToString (Suc d) b @ indent d @ CHR ''}'' # lf # s"] Some
      by (simp add: symbols_punct normal_end_def option.map_comp comp_def config_ToString_def)
  qed
qed

lemma printed_symbols: "good_block b \<Longrightarrow> symbols (config_ToString d b) = Some (spellings b)"
proof -
  assume "good_block b"
  then have "\<forall>st \<in> set b. good_statement st" by (simp add: good_block_def list_all_iff)
  then have "symbols (config_ToString d b @ []) = map_option ((@) (spellings b)) (symbols [])"
    by (induction b) (simp_all add: config_ToString_def symbols_statement symbols_punct)
  then show ?thesis by (simp add: symbols_punct)
qed

text \<open>So an accepted tree, printed and parsed again, is accepted again, and was not too deep.\<close>

lemma accepted_again:
  assumes "Parse s [] = Inr (True, b)"
  shows "Parse (config_ToString d b) [] = Inr (True, b)" and "int (nesting b) \<le> int_max"
proof -
  have b: "good_block b" using assms Parse_ok by blast
  then have "Parse (config_ToString d b) [] = Parse s []"
    using printed_symbols [of b d] Parse_symbols [OF assms] Parse_same_symbols by metis
  then show "Parse (config_ToString d b) [] = Inr (True, b)" using assms by simp
  then show "int (nesting b) \<le> int_max"
    using parse_printed [OF b, of d] by (simp split: if_splits)
qed

text \<open>
  C6. The parser implements the grammar of the configuration language. A text is accepted
  with the tree b exactly when the tokenizer reads it to the end without an error and its
  symbols, comments and blanks left out, are a spelling of b in the grammar: statements that
  are words and a semicolon, or words and a nonempty block in braces; and no more than
  2147483647 blocks of b are open at once, what the parser's counter can hold. So nothing
  outside the grammar is accepted, everything in it up to this depth is, and the tree is the
  only one with that spelling.
\<close>

theorem parse_iff_grammar:
  "Parse s [] = Inr (True, b)
    \<longleftrightarrow> (\<exists>w. symbols s = Some w \<and> block_of w b) \<and> int (nesting b) \<le> 2147483647"
proof (intro iffI conjI)
  assume a: "Parse s [] = Inr (True, b)"
  then have "good_block b" using Parse_ok by blast
  then show "\<exists>w. symbols s = Some w \<and> block_of w b"
    using Parse_symbols [OF a] good_block_of by blast
  show "int (nesting b) \<le> 2147483647"
    using accepted_again [OF a] by (simp add: int_max_def)
next
  assume b: "(\<exists>w. symbols s = Some w \<and> block_of w b) \<and> int (nesting b) \<le> 2147483647"
  then obtain w where w: "symbols s = Some w" "block_of w b" by blast
  then have "good_block b" "w = spellings b" using of_spelling(2) symbols_good by blast+
  then show "Parse s [] = Inr (True, b)"
    using Parse_same_symbols [OF w(1) _, of "config_ToString 0 b"] printed_symbols [of b] w(1)
      parse_printed [of b 0] b by (simp add: int_max_def)
qed

text \<open>
  An accepted configuration is well formed: if the parser returns true, no block is empty
  and every statement has tokens the tokenizer can produce; and printing it and parsing it
  again gives the same tree, so the printed form is a faithful copy of the configuration.
\<close>

theorem parse_accepts_good:
  assumes "Parse s [] = Inr (True, b)"
  shows "good_block b \<and> Parse (config_ToString d b) [] = Parse s []"
  using assms Parse_ok accepted_again by simp

lemma parse_accepts_good_witness:
  "good_block [Statement [''port'', ''80''] None] \<and>
     Parse (config_ToString 3 [Statement [''port'', ''80''] None]) [] = Parse ''port 80;'' []"
proof (rule parse_accepts_good)
  show "Parse ''port 80;'' [] = Inr (True, [Statement [''port'', ''80''] None])"
    by code_simp
qed

text \<open>
  The grammar does not see one thing: at the end of the text the tokenizer gives up a word it
  has begun, so a statement of which only one unquoted word has been written is dropped and
  the text is accepted without it.
\<close>

lemma token_loop_word_end:
  "\<forall>c \<in> set u. \<not> normal_end c \<Longrightarrow>
     token_loop TOKEN_STATE_TOKEN_TYPE_NORMAL v u = (TOKEN_TYPE_EOF, v @ u, [])"
  by (induction u arbitrary: v) auto

lemma ParseToken_word_end:
  assumes "plain_token t"
  shows "ParseToken t = (TOKEN_TYPE_EOF, t, [])"
proof -
  obtain c u where t: "t = c # u" using assms(1) by (cases t) (auto simp: plain_token_def)
  then show ?thesis
    using assms token_loop_word_end [of u "[c]"]
    by (auto simp: ParseToken_def plain_token_def normal_end_def)
qed

lemma unfinished_word_dropped:
  assumes "good_block b" and "plain_token t" and "int (nesting b) \<le> int_max"
  shows "Parse (config_ToString d b @ t) [] = Inr (True, b)"
proof -
  have "parse_loop (at_block (after (last b)) 0 b []) t = Inr (True, at_block (after (last b)) 0 b [])"
    by (rule parse_loop_return [OF ParseToken_word_end [OF assms(2)]])
      (simp add: parse_step_def after_def)
  then show ?thesis using parse_top_block [OF assms(1), of d t] assms(3) by (simp add: Parse_def)
qed

lemma unfinished_word_dropped_witness:
  "Parse (config_ToString 0 [Statement [''port'', ''80''] None] @ ''threadCount'') []
     = Inr (True, [Statement [''port'', ''80''] None])"
  by (rule unfinished_word_dropped)
    (simp_all add: good_block_def good_token_def plain_token_def normal_end_def
      initial_whitespace_def int_max_def)

section \<open>The report of a rejection\<close>

lemma TokenTypeAsString_inj: "TokenTypeAsString t = TokenTypeAsString u \<longleftrightarrow> t = u"
  by (cases t; cases u) (simp_all add: TokenTypeAsString_def)

lemma TokenTypeAsString_blank: "CHR '' '' \<notin> set (TokenTypeAsString t)"
  by (cases t) (simp_all add: TokenTypeAsString_def)

text \<open>The printed line names its two types unambiguously.\<close>

lemma split_blank:
  "CHR '' '' \<notin> set x \<Longrightarrow> CHR '' '' \<notin> set x' \<Longrightarrow>
     x @ CHR '' '' # y = x' @ CHR '' '' # y' \<Longrightarrow> x = x' \<and> y = y'"
  by (induction x arbitrary: x') (case_tac x'; auto)+

lemma bad_transition_inj:
  assumes "bad_transition l t = bad_transition l' t'"
  shows "l = l' \<and> t = t'"
proof -
  have "TokenTypeAsString l @ CHR '' '' # ''to '' @ TokenTypeAsString t @ [lf]
      = TokenTypeAsString l' @ CHR '' '' # ''to '' @ TokenTypeAsString t' @ [lf]"
    using assms by (simp add: bad_transition_def)
  from split_blank [OF TokenTypeAsString_blank TokenTypeAsString_blank this]
  show ?thesis by (simp add: TokenTypeAsString_inj)
qed

lemma parse_prints_loop:
  assumes "parse_loop ps s = Inr (ok, ps')"
  shows "\<exists>t. parse_prints ps s = Inr (if ok then [] else bad_transition (last_token_type ps') t)"
  using assms
proof (induction ps s rule: parse_loop.induct)
  case (1 ps s)
  obtain t tok r where tok: "ParseToken s = (t, tok, r)" by (metis prod_cases3)
  obtain out where out: "parse_step t tok ps = Inr out"
    using "1.prems" tok by (subst (asm) parse_loop.simps) (auto split: sum.splits)
  show ?case
  proof (cases out)
    case (Continue ps1)
    then have "parse_prints ps s = parse_prints ps1 r"
      using out tok by (subst parse_prints.simps) simp
    then show ?thesis
      using "1.IH" [OF tok [symmetric]] "1.prems" out Continue parse_loop_step [OF tok, of ps ps1]
      by simp
  next
    case (Return ok1 ps1)
    then have "parse_prints ps s = Inr (if ok1 then [] else bad_transition (last_token_type ps1) t)"
      using out tok by (subst parse_prints.simps) simp
    then show ?thesis using out Return "1.prems" parse_loop_return [OF tok, of ps ok1 ps1] by auto
  qed
qed

text \<open>
  Every rejection is reported, and nothing else is: the parser prints nothing exactly when it
  accepts, and otherwise one line that names the types of the last token accepted and of the
  token it stopped at, from which both can be told.
\<close>

theorem rejection_reported:
  assumes "Parse s [] = Inr (ok, b)"
  shows "\<exists>out. Parse_prints s = Inr out \<and> (out = [] \<longleftrightarrow> ok)
    \<and> (\<not> ok \<longleftrightarrow> (\<exists>!p. out = bad_transition (fst p) (snd p)))"
proof -
  obtain ps' where "parse_loop (at_block TOKEN_TYPE_START 0 [] []) s = Inr (ok, ps')"
    using assms by (auto simp: Parse_def result_bind_eq_Inr)
  then obtain t where p: "parse_prints (at_block TOKEN_TYPE_START 0 [] []) s
        = Inr (if ok then [] else bad_transition (last_token_type ps') t)"
    using parse_prints_loop by blast
  let ?out = "if ok then [] else bad_transition (last_token_type ps') t"
  have ne: "bad_transition l u \<noteq> []" for l u by (simp add: bad_transition_def)
  have "\<exists>!p. bad_transition (last_token_type ps') t = bad_transition (fst p) (snd p)"
  proof (rule ex1I [of _ "(last_token_type ps', t)"])
    fix p assume "bad_transition (last_token_type ps') t = bad_transition (fst p) (snd p)"
    from bad_transition_inj [OF this] show "p = (last_token_type ps', t)" by (cases p) simp
  qed simp
  moreover have "\<not> (\<exists>!p. [] = bad_transition (fst p) (snd p))" using ne by metis
  ultimately have "\<not> ok \<longleftrightarrow> (\<exists>!p. ?out = bad_transition (fst p) (snd p))"
    by (cases ok) (simp_all only: if_True if_False simp_thms)
  moreover have "?out = [] \<longleftrightarrow> ok" using ne by (cases ok) simp_all
  moreover have "Parse_prints s = Inr ?out" using p by (simp add: Parse_prints_def)
  ultimately show ?thesis by blast
qed

end
