(* ===== verification/Config_Statements.thy ===== *)
theory Config_Statements
  imports Config_Parser "HOL-Library.Word"
begin

text \<open>
  \<open>NginxConfig::ParseStatements\<close> of \<open>src/config_parser.cc\<close>: the port, the root and the number
  of threads, read from the tokens of the top-level statements. Members the constructor leaves
  uninitialised are \<open>None\<close>; the number of threads is an \<open>unsigned int\<close>, a 32-bit word, into
  which the signed result of \<open>stoi\<close> is converted.
\<close>

section \<open>State\<close>

record nginx_config =
  statements :: block
  cfg_port :: "int option"
  cfg_threadCount :: "32 word option"
  cfg_root :: string

text \<open>What a default-constructed \<open>NginxConfig\<close> holds.\<close>

definition new_config :: "block \<Rightarrow> nginx_config" where
  "new_config b = \<lparr>statements = b, cfg_port = None, cfg_threadCount = None, cfg_root = []\<rparr>"

text \<open>The local variables of the loops, next to the object they write to.\<close>

record scan =
  scan_root :: string
  found_port :: bool
  threads :: "32 word"
  object :: nginx_config

section \<open>Operations\<close>

definition MAX_PORT :: int where "MAX_PORT = 65535"

text \<open>
  The inner loop. A failed conversion and a value that is refused \<open>continue\<close>: they leave
  \<open>prev_token\<close> as it is, so the next token is tried in the same role.
\<close>

fun scan_tokens :: "string \<Rightarrow> string list \<Rightarrow> scan \<Rightarrow> scan" where
  "scan_tokens prev [] sc = sc"
| "scan_tokens prev (tok # ts) sc =
     (if prev = ''port'' \<and> \<not> found_port sc then
        (case stoi tok of
           Inl e \<Rightarrow> scan_tokens prev ts sc
         | Inr p \<Rightarrow>
             if 0 < p \<and> p \<le> MAX_PORT then
               scan_tokens tok ts
                 (sc\<lparr>found_port := True, object := (object sc)\<lparr>cfg_port := Some p\<rparr>\<rparr>)
             else scan_tokens prev ts sc)
      else if prev = ''root'' then
        (let r = (if tok = ''.'' then [] else tok) in
         scan_tokens tok ts (sc\<lparr>scan_root := r, object := (object sc)\<lparr>cfg_root := r\<rparr>\<rparr>))
      else if prev = ''threadCount'' then
        (case stoi tok of
           Inl e \<Rightarrow> scan_tokens prev ts sc
         | Inr n \<Rightarrow>
             let t = word_of_int n :: 32 word in
             if 0 < t then
               scan_tokens tok ts
                 (sc\<lparr>threads := t, object := (object sc)\<lparr>cfg_threadCount := Some t\<rparr>\<rparr>)
             else scan_tokens prev ts (sc\<lparr>threads := 10\<rparr>))
      else scan_tokens tok ts sc)"

fun scan_statements :: "block \<Rightarrow> scan \<Rightarrow> scan" where
  "scan_statements [] sc = sc"
| "scan_statements (st # b) sc = scan_statements b (scan_tokens [] (tokens st) sc)"

definition ParseStatements :: "nginx_config \<Rightarrow> bool \<times> nginx_config" where
  "ParseStatements cfg =
     (let sc = scan_statements (statements cfg)
            \<lparr>scan_root = [], found_port = False, threads = 10, object = cfg\<rparr>
      in (found_port sc,
          (object sc)\<lparr>cfg_threadCount := Some (threads sc), cfg_root := scan_root sc\<rparr>))"

text \<open>The accessors; reading a member that was never written has no defined behaviour.\<close>

definition GetPort :: "nginx_config \<Rightarrow> int result" where
  "GetPort cfg = (case cfg_port cfg of None \<Rightarrow> Inl Undefined_behaviour | Some p \<Rightarrow> Inr p)"

definition GetServerRoot :: "nginx_config \<Rightarrow> string" where
  "GetServerRoot cfg = cfg_root cfg"

definition GetThreadCount :: "nginx_config \<Rightarrow> 32 word result" where
  "GetThreadCount cfg =
     (case cfg_threadCount cfg of None \<Rightarrow> Inl Undefined_behaviour | Some n \<Rightarrow> Inr n)"

section \<open>Invariant of the loops\<close>

definition port_ok :: "int option \<Rightarrow> bool" where
  "port_ok p \<longleftrightarrow> (case p of None \<Rightarrow> False | Some i \<Rightarrow> 1 \<le> i \<and> i \<le> MAX_PORT)"

definition threads_ok :: "32 word option \<Rightarrow> bool" where
  "threads_ok t \<longleftrightarrow> (case t of None \<Rightarrow> False | Some n \<Rightarrow> n \<noteq> 0)"

definition scan_inv :: "scan \<Rightarrow> bool" where
  "scan_inv sc \<longleftrightarrow> threads sc \<noteq> 0 \<and> (found_port sc \<longrightarrow> port_ok (cfg_port (object sc)))"

lemma scan_tokens_inv: "scan_inv sc \<Longrightarrow> scan_inv (scan_tokens prev ts sc)"
proof (induction prev ts sc rule: scan_tokens.induct)
  case (2 prev tok ts sc)
  show ?case
  proof (cases "prev = ''port'' \<and> \<not> found_port sc")
    case True
    then show ?thesis
      using "2.IH"(1-3) [OF True] "2.prems"
      by (auto simp: scan_inv_def port_ok_def split: sum.split)
  next
    case port: False
    show ?thesis
    proof (cases "prev = ''root''")
      case True
      then show ?thesis
        using "2.IH"(4) [OF port True refl] "2.prems" port
        by (auto simp: scan_inv_def Let_def)
    next
      case root: False
      show ?thesis
      proof (cases "prev = ''threadCount''")
        case True
        then show ?thesis
          using "2.IH"(5-7) [OF port root True] "2.prems" port root
          by (auto simp: scan_inv_def Let_def split: sum.split)
      next
        case False
        then show ?thesis using "2.IH"(8) [OF port root False] "2.prems" port root by auto
      qed
    qed
  qed
qed simp

lemma scan_statements_inv: "scan_inv sc \<Longrightarrow> scan_inv (scan_statements b sc)"
  by (induction b arbitrary: sc) (auto intro: scan_tokens_inv)

lemma scan_start_inv:
  "scan_inv \<lparr>scan_root = r, found_port = False, threads = 10, object = cfg\<rparr>"
  by (simp add: scan_inv_def)

text \<open>Once a port has been found no later token changes it.\<close>

lemma scan_tokens_found: "found_port sc \<Longrightarrow> found_port (scan_tokens prev ts sc)"
  by (induction prev ts sc rule: scan_tokens.induct) (simp_all add: Let_def split: sum.split)

lemma scan_tokens_port:
  "found_port sc \<Longrightarrow> cfg_port (object (scan_tokens prev ts sc)) = cfg_port (object sc)"
  by (induction prev ts sc rule: scan_tokens.induct) (simp_all add: Let_def split: sum.split)

lemma scan_statements_port:
  "found_port sc \<Longrightarrow> found_port (scan_statements b sc)
     \<and> cfg_port (object (scan_statements b sc)) = cfg_port (object sc)"
  by (induction b arbitrary: sc) (simp_all add: scan_tokens_port scan_tokens_found)

lemma scan_statements_append:
  "scan_statements (b @ c) sc = scan_statements c (scan_statements b sc)"
  by (induction b arbitrary: sc) auto

text \<open>Statements that do not mention a port do not set one.\<close>

lemma scan_tokens_no_port:
  "\<forall>t \<in> set ts. t \<noteq> ''port'' \<Longrightarrow> prev \<noteq> ''port'' \<Longrightarrow>
     found_port (scan_tokens prev ts sc) = found_port sc"
  by (induction prev ts sc rule: scan_tokens.induct) (simp_all add: Let_def split: sum.split)

lemma scan_statements_no_port:
  "\<forall>st \<in> set b. \<forall>t \<in> set (tokens st). t \<noteq> ''port'' \<Longrightarrow>
     found_port (scan_statements b sc) = found_port sc"
  by (induction b arbitrary: sc) (simp_all add: scan_tokens_no_port)

section \<open>Properties\<close>

text \<open>
  The configured port and thread count are in range: the number of threads the server is
  started with is never 0, and when \<open>ParseStatements\<close> reports success the port is set and is
  between 1 and 65535.
\<close>

theorem config_in_range:
  assumes "ParseStatements cfg = (True, cfg')"
  shows "port_ok (cfg_port cfg') \<and> threads_ok (cfg_threadCount cfg')"
  using assms scan_statements_inv [OF scan_start_inv, of "statements cfg" "[]" cfg]
  by (auto simp: ParseStatements_def Let_def scan_inv_def threads_ok_def)

lemma config_in_range_witness:
  "port_ok (Some 8080) \<and> threads_ok (Some 50)"
proof -
  have "ParseStatements (new_config
      [Statement [''port'', ''8080''] None, Statement [''threadCount'', ''50''] None])
    = (True, \<lparr>statements = [Statement [''port'', ''8080''] None,
                            Statement [''threadCount'', ''50''] None],
              cfg_port = Some 8080, cfg_threadCount = Some 50, cfg_root = []\<rparr>)"
    by code_simp
  then show ?thesis using config_in_range by fastforce
qed

text \<open>
  The first valid port wins: if no statement before it mentions \<open>port\<close>, a statement
  \<open>port <p>\<close> with \<open>p\<close> between 1 and 65535 makes \<open>ParseStatements\<close> succeed with port \<open>p\<close>,
  whatever statements (further ports included) follow.
\<close>

theorem first_port_wins:
  assumes "1 \<le> p" and "p \<le> 65535"
    and "\<forall>st \<in> set before. \<forall>t \<in> set (tokens st). t \<noteq> ''port''"
  shows "map_prod id cfg_port (ParseStatements
            (new_config (before @ Statement [''port'', nat_string p] child # rest)))
         = (True, Some (int p))"
proof -
  define cfg where
    "cfg = new_config (before @ Statement [''port'', nat_string p] child # rest)"
  define sc where "sc = scan_statements before
      \<lparr>scan_root = [], found_port = False, threads = 10, object = cfg\<rparr>"
  have "\<not> found_port sc" using assms(3) scan_statements_no_port by (simp add: sc_def)
  moreover have "stoi (nat_string p) = Inr (int p)"
    using stoi_nat_string [of p "[]"] assms(2) by (simp add: int_max_def)
  ultimately have "found_port (scan_tokens [] [''port'', nat_string p] sc)
      \<and> cfg_port (object (scan_tokens [] [''port'', nat_string p] sc)) = Some (int p)"
    using assms(1,2) by (simp add: MAX_PORT_def)
  then have "found_port (scan_statements (statements cfg)
        \<lparr>scan_root = [], found_port = False, threads = 10, object = cfg\<rparr>)
      \<and> cfg_port (object (scan_statements (statements cfg)
        \<lparr>scan_root = [], found_port = False, threads = 10, object = cfg\<rparr>)) = Some (int p)"
    using scan_statements_port [of "scan_tokens [] [''port'', nat_string p] sc" rest]
    by (simp add: cfg_def new_config_def scan_statements_append sc_def)
  then show ?thesis by (simp add: ParseStatements_def cfg_def [symmetric] Let_def)
qed

lemma first_port_wins_witness:
  "map_prod id cfg_port (ParseStatements
      (new_config ([Statement [''root'', ''.''] None]
         @ Statement [''port'', nat_string 8080] None
         # [Statement [''port'', nat_string 9090] None])))
    = (True, Some (int 8080))"
  by (rule first_port_wins) simp_all

lemma thread_count_stored:
  assumes "stoi tok = Inr v" and "(word_of_int v :: 32 word) \<noteq> 0"
  shows "cfg_threadCount (snd (ParseStatements (new_config [Statement [''threadCount'', tok] None])))
    = Some (word_of_int v)"
  using assms by (simp add: ParseStatements_def new_config_def word_gt_0 Let_def)

lemma unat_negative:
  assumes "1 \<le> k" and "k \<le> 2147483647"
  shows "unat (word_of_int (- int k) :: 32 word) = 4294967296 - k"
proof -
  have "(- int k) mod 4294967296 = 4294967296 - int k"
    using assms by (simp add: zmod_zminus1_eq_if)
  then have "uint (word_of_int (- int k) :: 32 word) = 4294967296 - int k"
    unfolding uint_word_of_int by simp
  then show ?thesis
    using assms unfolding unat_eq_nat_uint by (simp add: nat_diff_distrib)
qed

text \<open>
  A negative thread count is not refused: \<open>stoi\<close> returns a signed value that is stored in
  an \<open>unsigned int\<close> before it is compared with 0, so \<open>threadCount -k\<close> (with \<open>k\<close> from 1 to
  2147483647) is accepted as 4294967296 - k threads.
\<close>

theorem negative_thread_count:
  assumes "1 \<le> k" and "k \<le> 2147483647"
  shows "map_option unat (cfg_threadCount (snd (ParseStatements
           (new_config [Statement [''threadCount'', CHR ''-'' # nat_string k] None]))))
         = Some (4294967296 - k)"
proof -
  have ds: "takeWhile is_digit (nat_string k) = nat_string k"
    by (simp add: takeWhile_eq_all_conv nat_string_digits)
  have st: "stoi (CHR ''-'' # nat_string k) = Inr (- int k)"
    using assms by (simp add: stoi_def is_space_def ds int_min_def int_max_def)
  have nz: "(word_of_int (- int k) :: 32 word) \<noteq> 0"
  proof
    assume "(word_of_int (- int k) :: 32 word) = 0"
    then have "4294967296 - k = 0" using unat_negative [OF assms] by (simp only: unat_0)
    then show False using assms(2) by simp
  qed
  show ?thesis
    by (simp only: thread_count_stored [OF st nz] option.map unat_negative [OF assms])
qed

lemma negative_thread_count_witness:
  "map_option unat (cfg_threadCount (snd (ParseStatements
           (new_config [Statement [''threadCount'', CHR ''-'' # nat_string 1] None]))))
         = Some (4294967296 - 1)"
  by (rule negative_thread_count) simp_all

end
