(* ===== verification/Config_Values.thy ===== *)
theory Config_Values
  imports Config_Statements
begin

text \<open>
  What \<open>NginxConfig::ParseStatements\<close> reads out of a configuration, stated without its loops and
  local variables: the port is the first valid value of a \<open>port\<close> statement, the root the last
  one, and the number of threads the outcome of the \<open>threadCount\<close> statements in their order.
\<close>

section \<open>Reference definitions\<close>

text \<open>The values of the statements \<open>key value\<close> at the top level.\<close>

definition settings :: "string \<Rightarrow> block \<Rightarrow> string list" where
  "settings key b =
     map (\<lambda>st. tokens st ! 1) (filter (\<lambda>st. length (tokens st) = 2 \<and> tokens st ! 0 = key) b)"

definition valid_port :: "string \<Rightarrow> int option" where
  "valid_port tok =
     (case stoi tok of
        Inl e \<Rightarrow> None
      | Inr p \<Rightarrow> if 1 \<le> p \<and> p \<le> MAX_PORT then Some p else None)"

definition the_port :: "block \<Rightarrow> int option" where
  "the_port b = (case List.map_filter valid_port (settings ''port'' b) of [] \<Rightarrow> None | p # ps \<Rightarrow> Some p)"

definition the_root :: "block \<Rightarrow> string" where
  "the_root b =
     (let vs = settings ''root'' b in if vs = [] \<or> last vs = ''.'' then [] else last vs)"

text \<open>A value that is no number leaves the count, one that converts to 0 resets it to 10.\<close>

definition thread_setting :: "string \<Rightarrow> 32 word \<Rightarrow> 32 word" where
  "thread_setting tok t =
     (case stoi tok of
        Inl e \<Rightarrow> t
      | Inr n \<Rightarrow> if (word_of_int n :: 32 word) = 0 then 10 else word_of_int n)"

definition the_threads :: "block \<Rightarrow> 32 word" where
  "the_threads b = fold thread_setting (settings ''threadCount'' b) 10"

text \<open>
  Statements in the documented form: a key and a value, or no key that is followed by a token.
\<close>

definition keys :: "string set" where
  "keys = {''port'', ''root'', ''threadCount''}"

definition documented :: "statement \<Rightarrow> bool" where
  "documented st \<longleftrightarrow> length (tokens st) = 2 \<or> (\<forall>t \<in> set (butlast (tokens st)). t \<notin> keys)"

section \<open>The loops compute them\<close>

lemma scan_no_key:
  "prev \<notin> keys \<Longrightarrow> \<forall>t \<in> set (butlast ts). t \<notin> keys \<Longrightarrow> scan_tokens prev ts sc = sc"
proof (induction ts arbitrary: prev)
  case (Cons t ts)
  then show ?case by (cases ts) (auto simp: keys_def)
qed simp

definition scanned :: "block \<Rightarrow> block \<Rightarrow> scan \<Rightarrow> bool" where
  "scanned all b sc \<longleftrightarrow>
     scan_root sc = the_root b \<and> (found_port sc \<longleftrightarrow> the_port b \<noteq> None)
     \<and> threads sc = the_threads b \<and> statements (object sc) = all
     \<and> cfg_port (object sc) = the_port b"

lemma settings_snoc:
  "settings key (b @ [st]) =
     settings key b @ (if length (tokens st) = 2 \<and> tokens st ! 0 = key then [tokens st ! 1] else [])"
  by (simp add: settings_def)

lemma the_port_snoc:
  "the_port (b @ [st]) =
     (case the_port b of
        Some p \<Rightarrow> Some p
      | None \<Rightarrow> if length (tokens st) = 2 \<and> tokens st ! 0 = ''port'' then valid_port (tokens st ! 1)
                else None)"
proof -
  have "List.map_filter f (xs @ ys) = List.map_filter f xs @ List.map_filter f ys"
    for f :: "string \<Rightarrow> int option" and xs ys
    by (simp add: List.map_filter_def)
  then show ?thesis
    by (simp add: the_port_def settings_snoc List.map_filter_def split: list.split option.split)
qed

lemma scanned_unchanged:
  assumes "scanned all b sc" and "length (tokens st) = 2 \<Longrightarrow> tokens st ! 0 \<notin> keys"
  shows "scanned all (b @ [st]) sc"
proof -
  have "settings key (b @ [st]) = settings key b" if "key \<in> keys" for key
    using assms(2) that by (auto simp: settings_snoc)
  then have "the_port (b @ [st]) = the_port b" "the_root (b @ [st]) = the_root b"
      "the_threads (b @ [st]) = the_threads b"
    by (simp_all add: the_port_def the_root_def the_threads_def keys_def)
  then show ?thesis using assms(1) by (simp add: scanned_def)
qed

lemma scanned_key_value:
  assumes "scanned all b sc" and "tokens st = [k, v]"
  shows "scanned all (b @ [st]) (scan_tokens [] [k, v] sc)"
proof -
  have p: "1 \<le> i \<longleftrightarrow> 0 < i" for i :: int by auto
  have w: "0 < t \<longleftrightarrow> t \<noteq> 0" for t :: "32 word" by (simp add: word_gt_0)
  consider "k = ''port''" | "k = ''root''" | "k = ''threadCount''" | "k \<notin> keys"
    by (auto simp: keys_def)
  then show ?thesis
  proof cases
    case 1
    then show ?thesis
      using assms
      by (cases "found_port sc"; cases "stoi v")
        (auto simp: scanned_def the_port_snoc the_root_def the_threads_def settings_snoc
          valid_port_def p split: option.splits)
  next
    case 2
    then show ?thesis
      using assms by (auto simp: scanned_def the_port_snoc the_root_def the_threads_def settings_snoc
          Let_def split: option.splits)
  next
    case 3
    then show ?thesis
      using assms by (cases "stoi v")
        (auto simp: scanned_def the_port_snoc the_root_def the_threads_def settings_snoc
          thread_setting_def Let_def w split: option.splits)
  next
    case 4
    then have "scan_tokens [] [k, v] sc = sc" by (intro scan_no_key) (auto simp: keys_def)
    moreover have "scanned all (b @ [st]) sc" using 4 assms by (intro scanned_unchanged) simp_all
    ultimately show ?thesis by (simp only:)
  qed
qed

lemma scanned_statement:
  assumes "scanned all b sc" and "documented st"
  shows "scanned all (b @ [st]) (scan_tokens [] (tokens st) sc)"
proof (cases "length (tokens st) = 2")
  case True
  then obtain k v where "tokens st = [k, v]"
    by (auto simp: numeral_2_eq_2 length_Suc_conv)
  then show ?thesis using scanned_key_value [OF assms(1)] by simp
next
  case False
  then have "scan_tokens [] (tokens st) sc = sc"
    using assms(2) by (intro scan_no_key) (auto simp: keys_def documented_def)
  then show ?thesis using scanned_unchanged [OF assms(1)] False by simp
qed

lemma scanned_all:
  assumes "\<forall>st \<in> set b. documented st"
  shows "scanned all b (scan_statements b
    \<lparr>scan_root = [], found_port = False, threads = 10, object = new_config all\<rparr>)"
  using assms
proof (induction b rule: rev_induct)
  case Nil
  then show ?case
    by (simp add: scanned_def the_root_def the_port_def the_threads_def settings_def new_config_def
        List.map_filter_def)
next
  case (snoc st b)
  then show ?case by (simp add: scan_statements_append scanned_statement)
qed

section \<open>Property\<close>

text \<open>
  C18. The settings of a configuration: when each top-level statement is a key and a value, or has
  no key before another token, \<open>ParseStatements\<close> succeeds exactly when some \<open>port\<close> statement has
  a number from 1 to 65535, and stores the first such number, the last \<open>root\<close> (the empty string
  for a dot or for none), and the number of threads: 10, changed by the \<open>threadCount\<close>
  statements one after the other, each to its number modulo 2 to the 32, or back to 10 where
  that is 0.
\<close>

theorem ParseStatements_reference:
  assumes "\<forall>st \<in> set b. documented st"
  shows "ParseStatements (new_config b) =
    (the_port b \<noteq> None,
     \<lparr>statements = b, cfg_port = the_port b, cfg_threadCount = Some (the_threads b),
      cfg_root = the_root b\<rparr>)"
proof -
  let ?sc = "scan_statements b
    \<lparr>scan_root = [], found_port = False, threads = 10, object = new_config b\<rparr>"
  have s: "scanned b b ?sc" by (rule scanned_all [OF assms])
  then have "(object ?sc)\<lparr>cfg_threadCount := Some (threads ?sc), cfg_root := scan_root ?sc\<rparr>
      = \<lparr>statements = b, cfg_port = the_port b, cfg_threadCount = Some (the_threads b),
         cfg_root = the_root b\<rparr>"
    by (intro nginx_config.equality) (simp_all add: scanned_def)
  then show ?thesis
    using s by (simp add: ParseStatements_def Let_def new_config_def scanned_def)
qed

lemma ParseStatements_reference_witness:
  "ParseStatements (new_config
      [Statement [''port'', ''0''] None, Statement [''port'', ''8080''] None,
       Statement [''threadCount'', ''-1''] None, Statement [''port'', ''80''] None,
       Statement [''router''] (Some [])])
   = (True, \<lparr>statements = [Statement [''port'', ''0''] None, Statement [''port'', ''8080''] None,
       Statement [''threadCount'', ''-1''] None, Statement [''port'', ''80''] None,
       Statement [''router''] (Some [])],
       cfg_port = Some 8080, cfg_threadCount = Some 4294967295, cfg_root = []\<rparr>)"
proof -
  let ?b = "[Statement [''port'', ''0''] None, Statement [''port'', ''8080''] None,
       Statement [''threadCount'', ''-1''] None, Statement [''port'', ''80''] None,
       Statement [''router''] (Some [])]"
  have "\<forall>st \<in> set ?b. documented st" by (simp add: documented_def)
  moreover have "the_port ?b = Some 8080" "the_threads ?b = 4294967295" "the_root ?b = []"
    by code_simp+
  ultimately show ?thesis using ParseStatements_reference [of ?b] by simp
qed

end
