(* ===== verification/Uri_Lib.thy ===== *)
theory Uri_Lib
  imports Cpp_Text
begin

text \<open>
  \<open>src/uri_lib.cc\<close>: percent-encoding and decoding. The decoder can throw, because it reads
  the two characters after a percent sign from a stream as a hexadecimal \<open>short\<close>.
\<close>

section \<open>Operations\<close>

definition CharToHex :: "char \<Rightarrow> string" where
  "CharToHex c = CHR ''%'' # [hex_char (of_char c div 16), hex_char (of_char c mod 16)]"

text \<open>The empty string gives 0; the \<open>short\<close> is cast to \<open>unsigned char\<close>.\<close>

definition HexToChar :: "string \<Rightarrow> char result" where
  "HexToChar str =
     (if str = [] then Inr (char_of (0::nat))
      else case read_hex_short str of
             None \<Rightarrow> Inl (Throw (Runtime_error ''stream decode failure''))
           | Some c \<Rightarrow> Inr (char_of (nat (c mod 256))))"

definition uri_unreserved :: "char \<Rightarrow> bool" where
  "uri_unreserved c \<longleftrightarrow>
     (let t = (if of_char c < (128::int) then of_char c else of_char c - (256::int))
      in t = 45 \<or> (48 \<le> t \<and> t \<le> 57) \<or> (65 \<le> t \<and> t \<le> 90)
         \<or> t = 95 \<or> (97 \<le> t \<and> t \<le> 122) \<or> t = 126)"

fun UriEncode :: "string \<Rightarrow> string" where
  "UriEncode [] = []"
| "UriEncode (c # s) = (if uri_unreserved c then [c] else CharToHex c) @ UriEncode s"

fun UriDecode :: "string \<Rightarrow> string result" where
  "UriDecode [] = Inr []"
| "UriDecode (c # s) =
     (if c = CHR ''%'' then
        result_bind (HexToChar (take 2 s)) (\<lambda>d.
        result_bind (UriDecode (drop 2 s)) (\<lambda>t. Inr (d # t)))
      else if c = CHR ''+'' then result_bind (UriDecode s) (\<lambda>t. Inr (CHR '' '' # t))
      else result_bind (UriDecode s) (\<lambda>t. Inr (c # t)))"

section \<open>Round trip\<close>

lemma HexToChar_CharToHex:
  "HexToChar [hex_char (of_char c div 16), hex_char (of_char c mod 16)] = Inr c"
proof -
  have "read_hex_short [hex_char (of_char c div 16), hex_char (of_char c mod 16)]
      = Some (int (of_char c))"
    by (subst read_hex_short_pair) (auto simp: less_mult_imp_div_less)
  then show ?thesis by (simp add: HexToChar_def nat_mod_distrib)
qed

lemma uri_unreserved_plain: "uri_unreserved c \<Longrightarrow> c \<noteq> CHR ''%'' \<and> c \<noteq> CHR ''+''"
  by (auto simp: uri_unreserved_def Let_def)

text \<open>
  Percent-decoding undoes percent-encoding: for every string of bytes (all 256 byte
  values, the empty string included) \<open>UriDecode\<close> of \<open>UriEncode s\<close> does not throw and is \<open>s\<close>.
\<close>

theorem uri_decode_encode: "UriDecode (UriEncode s) = Inr s"
proof (induction s)
  case (Cons c s)
  then show ?case
    using HexToChar_CharToHex [of c] uri_unreserved_plain [of c]
    by (auto simp: CharToHex_def numeral_2_eq_2)
qed simp

text \<open>The decoder never lengthens its input, and an error is always the stream's exception.\<close>

lemma UriDecode_length: "UriDecode s = Inr t \<Longrightarrow> length t \<le> length s"
  by (induction s arbitrary: t rule: UriDecode.induct)
    (fastforce simp: result_bind_eq_Inr split: if_splits)+

lemma UriDecode_fault:
  "UriDecode s = Inl e \<Longrightarrow> e = Throw (Runtime_error ''stream decode failure'')"
  by (induction s rule: UriDecode.induct)
    (auto simp: result_bind_eq_Inl HexToChar_def split: if_splits option.splits)

lemma UriDecode_plain:
  "\<forall>c \<in> set s. c \<noteq> CHR ''%'' \<and> c \<noteq> CHR ''+'' \<Longrightarrow> UriDecode s = Inr s"
  by (induction s) auto

section \<open>The standard's decoder\<close>

text \<open>
  Percent-decoding as the standard for URIs has it, with the plus sign of forms: a percent sign
  must be followed by two hexadecimal digits.
\<close>

fun reference_decode :: "string \<Rightarrow> string option" where
  "reference_decode [] = Some []"
| "reference_decode (c # s) =
     (if c = CHR ''%'' then
        (case s of
           a # b # r \<Rightarrow>
             if is_hex a \<and> is_hex b
             then map_option ((#) (char_of (16 * hex_val a + hex_val b))) (reference_decode r)
             else None
         | _ \<Rightarrow> None)
      else map_option ((#) (if c = CHR ''+'' then CHR '' '' else c)) (reference_decode s))"

lemma is_hex_values:
  assumes "is_hex c"
  shows "hex_val c < 16" "\<not> is_space c" "c \<noteq> CHR ''-''" "c \<noteq> CHR ''+''" "c \<noteq> CHR ''x''"
    "c \<noteq> CHR ''X''"
  using assms
  by (auto simp: is_hex_def is_digit_def hex_val_def less_eq_char_def is_space_def)

lemma HexToChar_digits:
  assumes "is_hex a" and "is_hex b"
  shows "HexToChar [a, b] = Inr (char_of (16 * hex_val a + hex_val b))"
proof -
  have v: "hex_val a < 16" "hex_val b < 16" using is_hex_values assms by auto
  have "read_hex_short [a, b] = Some (int (16 * hex_val a + hex_val b))"
    using is_hex_values [OF assms(1)] is_hex_values [OF assms(2)] assms
    by (simp add: read_hex_short_def hex_value_def)
  then show ?thesis using v by (simp add: HexToChar_def nat_mod_distrib)
qed

text \<open>
  C40. The decoder agrees with the standard's on every well-formed text. It is more lenient: an
  escape that is cut off or malformed is decoded too, to a byte the text does not hold.
\<close>

theorem decode_reference:
  assumes "reference_decode s = Some t"
  shows "UriDecode s = Inr t"
  using assms
proof (induction s arbitrary: t rule: reference_decode.induct)
  case (2 c s)
  show ?case
  proof (cases "c = CHR ''%''")
    case True
    then obtain a b r u where s: "s = a # b # r" "is_hex a" "is_hex b" "reference_decode r = Some u"
        "t = char_of (16 * hex_val a + hex_val b) # u"
      using "2.prems" by (auto split: list.splits if_splits)
    then have "UriDecode r = Inr u" using "2.IH"(1) True by blast
    then show ?thesis using True s HexToChar_digits by (simp add: numeral_2_eq_2)
  next
    case False
    then obtain u where u: "reference_decode s = Some u"
        "t = (if c = CHR ''+'' then CHR '' '' else c) # u"
      using "2.prems" by auto
    then have "UriDecode s = Inr u" using "2.IH"(2) False by blast
    then show ?thesis using False u by simp
  qed
qed simp

lemma decode_reference_witness: "UriDecode ''a%2Fb+c%21'' = Inr ''a/b c!''"
  by (rule decode_reference) code_simp

lemma decode_lenient:
  "reference_decode ''100%'' = None" "UriDecode ''100%'' = Inr (''100'' @ [nul])"
  "reference_decode ''%4g'' = None" "UriDecode ''%4g'' = Inr [CHR 0x04]"
  "reference_decode ''%-1'' = None" "UriDecode ''%-1'' = Inr [CHR 0xFF]"
  by code_simp+

end
