(* ===== verification/Regex.thy ===== *)
theory Regex
  imports Web_Prelude
begin

text \<open>
  \<open>std::regex\<close> with its default ECMAScript grammar, as far as the sources use it: a pattern is
  a list of instructions, which is what the library compiles it to. The matcher is the
  library's backtracking one: the leftmost start position wins, a greedy repetition tries one
  more character first and a lazy one tries to go on first. \<open>^\<close> and \<open>$\<close> match at the two ends
  of the input only (libstdc++, which the repository's Dockerfiles build with, has no multiline
  mode by default), and \<open>.\<close> matches any character but line feed and carriage return.

  \<open>rx_path\<close> is the declarative reading of a pattern, with no order of trial; the matcher finds
  a match exactly when there is one (\<open>rx_run_iff_path\<close>) and what it finds is one
  (\<open>rx_run_path\<close>). The equations \<open>rx_path_simps\<close> turn a concrete pattern into the statement
  that the text decomposes in the obvious way, so that each component's lemmas about its own
  patterns are a few steps over them.
\<close>

section \<open>Patterns\<close>

datatype rx_class =
    Lit char
  | Any
  | Word
  | Digit
  | Range char char
  | Bracket "rx_class list"

fun class_has :: "rx_class \<Rightarrow> char \<Rightarrow> bool" where
  "class_has (Lit a) c \<longleftrightarrow> c = a"
| "class_has Any c \<longleftrightarrow> c \<noteq> lf \<and> c \<noteq> cr"
| "class_has Word c \<longleftrightarrow> is_word c"
| "class_has Digit c \<longleftrightarrow> is_digit c"
| "class_has (Range a b) c \<longleftrightarrow> a \<le> c \<and> c \<le> b"
| "class_has (Bracket ks) c \<longleftrightarrow> (\<exists>k \<in> set ks. class_has k c)"

text \<open>One instruction; \<open>Open\<close> and \<open>Close\<close> delimit the text of a capture group.\<close>

datatype rx_op =
    Chr rx_class
  | Star rx_class
  | LazyStar rx_class
  | Open nat
  | Close nat
  | Bol
  | Eol

type_synonym pattern = "rx_op list"
type_synonym groups = "(nat \<times> string) list"

definition lits :: "string \<Rightarrow> pattern" where
  "lits s = map (\<lambda>c. Chr (Lit c)) s"

definition plus :: "rx_class \<Rightarrow> pattern" where
  "plus k = [Chr k, Star k]"

definition lazy_plus :: "rx_class \<Rightarrow> pattern" where
  "lazy_plus k = [Chr k, LazyStar k]"

definition times :: "nat \<Rightarrow> rx_class \<Rightarrow> pattern" where
  "times n k = replicate n (Chr k)"

definition group :: "nat \<Rightarrow> pattern \<Rightarrow> pattern" where
  "group g p = Open g # p @ [Close g]"

section \<open>The backtracking matcher\<close>

text \<open>
  \<open>rx_run p i s os cs\<close> matches \<open>p\<close> at position \<open>i\<close> of the input, with \<open>s\<close> what is left of
  it; \<open>os\<close> remembers what was left when a group was opened and \<open>cs\<close> the text of the groups
  closed so far. The result is what is left behind the match and the groups.
\<close>

definition group_text :: "(nat \<times> string) list \<Rightarrow> nat \<Rightarrow> string \<Rightarrow> string" where
  "group_text os g s =
     (case map_of os g of None \<Rightarrow> [] | Some t \<Rightarrow> take (length t - length s) t)"

fun rx_run :: "pattern \<Rightarrow> nat \<Rightarrow> string \<Rightarrow> (nat \<times> string) list \<Rightarrow> groups \<Rightarrow> (string \<times> groups) option"
  where
  "rx_run [] i s os cs = Some (s, cs)"
| "rx_run (Chr k # p) i [] os cs = None"
| "rx_run (Chr k # p) i (c # s) os cs =
     (if class_has k c then rx_run p (Suc i) s os cs else None)"
| "rx_run (Star k # p) i [] os cs = rx_run p i [] os cs"
| "rx_run (Star k # p) i (c # s) os cs =
     (if class_has k c then
        (case rx_run (Star k # p) (Suc i) s os cs of
           Some r \<Rightarrow> Some r
         | None \<Rightarrow> rx_run p i (c # s) os cs)
      else rx_run p i (c # s) os cs)"
| "rx_run (LazyStar k # p) i [] os cs = rx_run p i [] os cs"
| "rx_run (LazyStar k # p) i (c # s) os cs =
     (case rx_run p i (c # s) os cs of
        Some r \<Rightarrow> Some r
      | None \<Rightarrow>
          if class_has k c then rx_run (LazyStar k # p) (Suc i) s os cs else None)"
| "rx_run (Open g # p) i s os cs = rx_run p i s ((g, s) # os) cs"
| "rx_run (Close g # p) i s os cs = rx_run p i s os ((g, group_text os g s) # cs)"
| "rx_run (Bol # p) i s os cs = (if i = 0 then rx_run p i s os cs else None)"
| "rx_run (Eol # p) i s os cs = (if s = [] then rx_run p i s os cs else None)"

text \<open>
  \<open>std::regex_search\<close>: the first start position at which the pattern matches. The result is
  the groups and what is left behind the match; \<open>m.str(g)\<close> is \<open>str_of\<close>, empty for a group
  that took no part.
\<close>

fun rx_search_from :: "pattern \<Rightarrow> nat \<Rightarrow> string \<Rightarrow> (string \<times> groups) option" where
  "rx_search_from p i [] = rx_run p i [] [] []"
| "rx_search_from p i (c # s) =
     (case rx_run p i (c # s) [] [] of
        Some r \<Rightarrow> Some r
      | None \<Rightarrow> rx_search_from p (Suc i) s)"

definition regex_search :: "pattern \<Rightarrow> string \<Rightarrow> groups option" where
  "regex_search p s = map_option snd (rx_search_from p 0 s)"

definition str_of :: "groups \<Rightarrow> nat \<Rightarrow> string" where
  "str_of cs g = (case map_of cs g of None \<Rightarrow> [] | Some t \<Rightarrow> t)"

text \<open>
  \<open>std::sregex_iterator\<close>: all matches from left to right, each search starting behind the
  previous match. The sources only iterate over patterns that match at least one character;
  for such a pattern the remainder shrinks (\<open>rx_search_from_shrinks\<close>), and \<open>fuel\<close> of the
  length of the text is enough.
\<close>

fun rx_iter :: "nat \<Rightarrow> pattern \<Rightarrow> nat \<Rightarrow> string \<Rightarrow> groups list" where
  "rx_iter 0 p i s = []"
| "rx_iter (Suc fuel) p i s =
     (case rx_search_from p i s of
        None \<Rightarrow> []
      | Some (t, cs) \<Rightarrow> cs # rx_iter fuel p (i + (length s - length t)) t)"

definition regex_matches :: "pattern \<Rightarrow> string \<Rightarrow> groups list" where
  "regex_matches p s = rx_iter (Suc (length s)) p 0 s"

section \<open>The declarative reading\<close>

inductive rx_path ::
  "pattern \<Rightarrow> nat \<Rightarrow> string \<Rightarrow> (nat \<times> string) list \<Rightarrow> groups \<Rightarrow> string \<Rightarrow> groups \<Rightarrow> bool"
  where
  path_done: "rx_path [] i s os cs s cs"
| path_chr: "class_has k c \<Longrightarrow> rx_path p (Suc i) s os cs t ds \<Longrightarrow>
     rx_path (Chr k # p) i (c # s) os cs t ds"
| path_star: "\<forall>c \<in> set u. class_has k c \<Longrightarrow> rx_path p (i + length u) s os cs t ds \<Longrightarrow>
     rx_path (Star k # p) i (u @ s) os cs t ds"
| path_lazy: "\<forall>c \<in> set u. class_has k c \<Longrightarrow> rx_path p (i + length u) s os cs t ds \<Longrightarrow>
     rx_path (LazyStar k # p) i (u @ s) os cs t ds"
| path_open: "rx_path p i s ((g, s) # os) cs t ds \<Longrightarrow> rx_path (Open g # p) i s os cs t ds"
| path_close: "rx_path p i s os ((g, group_text os g s) # cs) t ds \<Longrightarrow>
     rx_path (Close g # p) i s os cs t ds"
| path_bol: "rx_path p 0 s os cs t ds \<Longrightarrow> rx_path (Bol # p) 0 s os cs t ds"
| path_eol: "rx_path p i [] os cs t ds \<Longrightarrow> rx_path (Eol # p) i [] os cs t ds"

inductive_simps path_Nil_iff: "rx_path [] i s os cs t ds"
inductive_simps path_Chr_iff: "rx_path (Chr k # p) i s os cs t ds"
inductive_simps path_Star_iff: "rx_path (Star k # p) i s os cs t ds"
inductive_simps path_LazyStar_iff: "rx_path (LazyStar k # p) i s os cs t ds"
inductive_simps path_Open_iff: "rx_path (Open g # p) i s os cs t ds"
inductive_simps path_Close_iff: "rx_path (Close g # p) i s os cs t ds"
inductive_simps path_Bol_iff: "rx_path (Bol # p) i s os cs t ds"
inductive_simps path_Eol_iff: "rx_path (Eol # p) i s os cs t ds"

lemmas rx_path_simps =
  path_Nil_iff path_Chr_iff path_Star_iff path_LazyStar_iff
  path_Open_iff path_Close_iff path_Bol_iff path_Eol_iff

text \<open>A repetition either stops or takes one more character.\<close>

lemma path_Star_step:
  "rx_path (Star k # p) i s os cs t ds \<longleftrightarrow>
     rx_path p i s os cs t ds \<or>
     (\<exists>c s'. s = c # s' \<and> class_has k c \<and> rx_path (Star k # p) (Suc i) s' os cs t ds)"
proof
  assume "rx_path (Star k # p) i s os cs t ds"
  then obtain u s' where s: "s = u @ s'" and u: "\<forall>c \<in> set u. class_has k c"
    and p: "rx_path p (i + length u) s' os cs t ds"
    by (auto simp: path_Star_iff)
  show "rx_path p i s os cs t ds \<or>
     (\<exists>c s'. s = c # s' \<and> class_has k c \<and> rx_path (Star k # p) (Suc i) s' os cs t ds)"
  proof (cases u)
    case Nil
    then show ?thesis using s p by simp
  next
    case (Cons c u')
    then have "rx_path (Star k # p) (Suc i) (u' @ s') os cs t ds"
      using u p by (intro path_star) auto
    then show ?thesis using Cons s u by auto
  qed
next
  assume "rx_path p i s os cs t ds \<or>
     (\<exists>c s'. s = c # s' \<and> class_has k c \<and> rx_path (Star k # p) (Suc i) s' os cs t ds)"
  then show "rx_path (Star k # p) i s os cs t ds"
  proof
    assume "rx_path p i s os cs t ds"
    then show ?thesis using path_star [of "[]" k p i s os cs t ds] by simp
  next
    assume "\<exists>c s'. s = c # s' \<and> class_has k c \<and> rx_path (Star k # p) (Suc i) s' os cs t ds"
    then obtain c u s' where "s = (c # u) @ s'" "\<forall>c \<in> set (c # u). class_has k c"
      "rx_path p (i + length (c # u)) s' os cs t ds"
      by (auto simp: path_Star_iff)
    then show ?thesis by (metis path_star)
  qed
qed

lemma path_LazyStar_Star:
  "rx_path (LazyStar k # p) i s os cs t ds \<longleftrightarrow> rx_path (Star k # p) i s os cs t ds"
  by (simp add: path_LazyStar_iff path_Star_iff)

section \<open>The matcher implements the declarative reading\<close>

lemma rx_run_path: "rx_run p i s os cs = Some (t, ds) \<Longrightarrow> rx_path p i s os cs t ds"
proof (induction p i s os cs rule: rx_run.induct)
  case (5 k p i c s os cs)
  then show ?case
    by (subst path_Star_step) (auto split: if_splits option.splits)
next
  case (7 k p i c s os cs)
  then show ?case
    by (subst path_LazyStar_Star, subst path_Star_step)
      (auto simp: path_LazyStar_Star split: if_splits option.splits)
qed (auto intro: rx_path.intros path_star [of "[]", simplified] path_lazy [of "[]", simplified]
    split: if_splits)

lemma rx_run_complete: "rx_path p i s os cs t ds \<Longrightarrow> rx_run p i s os cs \<noteq> None"
proof (induction p i s os cs arbitrary: t ds rule: rx_run.induct)
  case (4 k p i os cs)
  then show ?case by (subst (asm) path_Star_step) auto
next
  case (5 k p i c s os cs)
  from "5.prems" have "rx_path p i (c # s) os cs t ds \<or>
      class_has k c \<and> rx_path (Star k # p) (Suc i) s os cs t ds"
    by (subst (asm) path_Star_step) simp
  then show ?case using "5.IH" by (fastforce split: option.splits)
next
  case (6 k p i os cs)
  then show ?case by (subst (asm) path_LazyStar_Star, subst (asm) path_Star_step) auto
next
  case (7 k p i c s os cs)
  from "7.prems" have "rx_path (Star k # p) i (c # s) os cs t ds"
    by (simp add: path_LazyStar_Star)
  then have "rx_path p i (c # s) os cs t ds \<or>
      class_has k c \<and> rx_path (LazyStar k # p) (Suc i) s os cs t ds"
    by (subst (asm) path_Star_step) (simp add: path_LazyStar_Star)
  then show ?case using "7.IH" by (fastforce split: option.splits)
qed (auto simp: rx_path_simps)

lemma rx_run_iff_path: "rx_run p i s os cs \<noteq> None \<longleftrightarrow> (\<exists>t ds. rx_path p i s os cs t ds)"
  by (metis not_None_eq rx_run_complete rx_run_path surj_pair)

section \<open>Which match is found\<close>

text \<open>A greedy repetition stops at the last place from which the rest of the pattern matches.\<close>

lemma rx_run_Star_greedy:
  assumes "\<forall>c \<in> set u. class_has k c"
    and "rx_run p (i + length u) s os cs = Some r"
    and "\<And>v s'. v \<noteq> [] \<Longrightarrow> s = v @ s' \<Longrightarrow> \<forall>c \<in> set v. class_has k c \<Longrightarrow>
           rx_run p (i + length u + length v) s' os cs = None"
  shows "rx_run (Star k # p) i (u @ s) os cs = Some r"
  using assms
proof (induction u arbitrary: i)
  case Nil
  have "rx_run (Star k # p) (Suc i) s' os cs = None" if "s = c # s'" "class_has k c" for c s'
  proof (rule ccontr)
    assume "\<not> ?thesis"
    then obtain t ds where "rx_path (Star k # p) (Suc i) s' os cs t ds"
      by (metis not_None_eq surj_pair rx_run_path)
    then obtain v s'' where v: "s' = v @ s''" "\<forall>c \<in> set v. class_has k c"
      and "rx_path p (Suc i + length v) s'' os cs t ds"
      by (auto simp: path_Star_iff)
    then have "rx_run p (i + length (c # v)) s'' os cs \<noteq> None"
      by (auto dest: rx_run_complete)
    then show False using Nil.prems(3) [of "c # v" s''] that v by simp
  qed
  then show ?case using Nil.prems(2) by (cases s) auto
next
  case (Cons c u)
  then show ?case by (simp add: add.assoc)
qed

corollary rx_run_Star_max:
  assumes "\<forall>c \<in> set u. class_has k c"
    and "s = [] \<or> \<not> class_has k (hd s)"
    and "rx_run p (i + length u) s os cs = Some r"
  shows "rx_run (Star k # p) i (u @ s) os cs = Some r"
  using assms by (intro rx_run_Star_greedy) (auto simp: neq_Nil_conv)

text \<open>A lazy repetition stops at the first place from which the rest of the pattern matches.\<close>

lemma rx_run_LazyStar_first:
  assumes "\<forall>c \<in> set u. class_has k c"
    and "rx_run p (i + length u) s os cs = Some r"
    and "\<And>v w. u = v @ w \<Longrightarrow> w \<noteq> [] \<Longrightarrow> rx_run p (i + length v) (w @ s) os cs = None"
  shows "rx_run (LazyStar k # p) i (u @ s) os cs = Some r"
  using assms
proof (induction u arbitrary: i)
  case Nil
  then show ?case by (cases s) auto
next
  case (Cons c u)
  have "rx_run p i (c # u @ s) os cs = None"
    using Cons.prems(3) [of "[]" "c # u"] by simp
  moreover have "rx_run (LazyStar k # p) (Suc i) (u @ s) os cs = Some r"
  proof (rule Cons.IH)
    fix v w assume "u = v @ w" "w \<noteq> []"
    then show "rx_run p (Suc i + length v) (w @ s) os cs = None"
      using Cons.prems(3) [of "c # v" w] by simp
  qed (use Cons.prems in auto)
  ultimately show ?case using Cons.prems(1) by simp
qed

text \<open>Literals are matched one by one.\<close>

lemma lits_Nil [simp]: "lits [] @ p = p"
  by (simp add: lits_def)

lemma rx_run_lits:
  "rx_run (lits u @ p) i (u @ s) os cs = rx_run p (i + length u) s os cs"
  by (induction u arbitrary: i) (simp_all add: lits_def)

lemma path_lits:
  "rx_path (lits u @ p) i s os cs t ds \<longleftrightarrow>
     (\<exists>s'. s = u @ s' \<and> rx_path p (i + length u) s' os cs t ds)"
  by (induction u arbitrary: i s) (auto simp: lits_def path_Chr_iff)

lemma path_lits_end:
  "rx_path (lits u) i s os cs t ds \<longleftrightarrow> s = u @ t \<and> cs = ds"
  using path_lits [of u "[]"] by (auto simp: path_Nil_iff)

lemma path_times:
  "rx_path (times n k @ p) i s os cs t ds \<longleftrightarrow>
     (\<exists>u s'. s = u @ s' \<and> length u = n \<and> (\<forall>c \<in> set u. class_has k c)
        \<and> rx_path p (i + n) s' os cs t ds)"
proof (induction n arbitrary: i s)
  case (Suc n)
  show ?case
  proof
    assume "rx_path (times (Suc n) k @ p) i s os cs t ds"
    then obtain c s1 where s: "s = c # s1" "class_has k c"
      and "rx_path (times n k @ p) (Suc i) s1 os cs t ds"
      by (auto simp: times_def path_Chr_iff)
    then obtain u s' where "s1 = u @ s'" "length u = n" "\<forall>c \<in> set u. class_has k c"
      "rx_path p (Suc i + n) s' os cs t ds"
      using Suc.IH by auto
    then show "\<exists>u s'. s = u @ s' \<and> length u = Suc n \<and> (\<forall>c \<in> set u. class_has k c)
        \<and> rx_path p (i + Suc n) s' os cs t ds"
      using s by (intro exI [of _ "c # u"] exI [of _ s']) simp
  next
    assume "\<exists>u s'. s = u @ s' \<and> length u = Suc n \<and> (\<forall>c \<in> set u. class_has k c)
        \<and> rx_path p (i + Suc n) s' os cs t ds"
    then obtain c u s' where "s = c # u @ s'" "length u = n" "class_has k c"
      "\<forall>c \<in> set u. class_has k c" "rx_path p (Suc i + n) s' os cs t ds"
      by (auto simp: length_Suc_conv)
    moreover from this have "rx_path (times n k @ p) (Suc i) (u @ s') os cs t ds"
      using Suc.IH by blast
    ultimately show "rx_path (times (Suc n) k @ p) i s os cs t ds"
      by (simp add: times_def path_chr)
  qed
qed (auto simp: times_def)

lemma path_plus:
  "rx_path (Chr k # Star k # p) i s os cs t ds \<longleftrightarrow>
     (\<exists>u s'. s = u @ s' \<and> u \<noteq> [] \<and> (\<forall>c \<in> set u. class_has k c)
        \<and> rx_path p (i + length u) s' os cs t ds)"
proof
  assume "rx_path (Chr k # Star k # p) i s os cs t ds"
  then obtain c u s' where "s = c # u @ s'" "class_has k c" "\<forall>c \<in> set u. class_has k c"
    "rx_path p (i + length (c # u)) s' os cs t ds"
    by (auto simp: path_Chr_iff path_Star_iff)
  then show "\<exists>u s'. s = u @ s' \<and> u \<noteq> [] \<and> (\<forall>c \<in> set u. class_has k c)
        \<and> rx_path p (i + length u) s' os cs t ds"
    by (intro exI [of _ "c # u"] exI [of _ s']) simp
next
  assume "\<exists>u s'. s = u @ s' \<and> u \<noteq> [] \<and> (\<forall>c \<in> set u. class_has k c)
        \<and> rx_path p (i + length u) s' os cs t ds"
  then obtain c u s' where "s = c # u @ s'" "class_has k c" "\<forall>c \<in> set u. class_has k c"
    "rx_path p (Suc i + length u) s' os cs t ds"
    by (auto simp: neq_Nil_conv)
  then show "rx_path (Chr k # Star k # p) i s os cs t ds"
    by (auto intro!: path_chr path_star)
qed

lemma group_text_hit [simp]: "group_text ((g, u @ s) # os) g s = u"
  by (simp add: group_text_def)

text \<open>
  How a pattern of groups, repetitions and literals is taken apart: a group around a
  repetition records the repeated text.
\<close>

lemma path_group_plus:
  "rx_path (group g (plus k) @ p) i s os cs t ds \<longleftrightarrow>
     (\<exists>u s'. s = u @ s' \<and> u \<noteq> [] \<and> (\<forall>c \<in> set u. class_has k c)
        \<and> rx_path p (i + length u) s' ((g, s) # os) ((g, u) # cs) t ds)"
  by (simp add: group_def plus_def path_Open_iff path_plus path_Close_iff cong: conj_cong)

lemma path_group_star:
  "rx_path (group g [Star k] @ p) i s os cs t ds \<longleftrightarrow>
     (\<exists>u s'. s = u @ s' \<and> (\<forall>c \<in> set u. class_has k c)
        \<and> rx_path p (i + length u) s' ((g, s) # os) ((g, u) # cs) t ds)"
  by (simp add: group_def path_Open_iff path_Star_iff path_Close_iff cong: conj_cong)

lemma path_group_lits_plus:
  "rx_path (group g (lits w @ plus k) @ p) i s os cs t ds \<longleftrightarrow>
     (\<exists>u s'. s = w @ u @ s' \<and> u \<noteq> [] \<and> (\<forall>c \<in> set u. class_has k c)
        \<and> rx_path p (i + length w + length u) s' ((g, s) # os) ((g, w @ u) # cs) t ds)"
proof -
  have hit: "group_text ((g, w @ u @ s') # os) g s' = w @ u" for u s'
    by (simp add: group_text_def)
  show ?thesis
    by (simp add: group_def plus_def path_Open_iff path_lits path_plus path_Close_iff)
      (auto simp: hit; fastforce simp: hit)
qed

lemmas rx_parts =
  path_Nil_iff path_Bol_iff path_Eol_iff path_group_plus path_group_star path_lits path_lits_end

lemma str_of_simps [simp]:
  "str_of ((g, t) # cs) g = t"
  "g \<noteq> h \<Longrightarrow> str_of ((g, t) # cs) h = str_of cs h"
  by (simp_all add: str_of_def)

section \<open>Searching\<close>

lemma rx_search_from_path:
  "rx_search_from p i s = Some (t, cs) \<Longrightarrow>
     \<exists>u v. s = u @ v \<and> rx_path p (i + length u) v [] [] t cs"
proof (induction p i s rule: rx_search_from.induct)
  case (2 p i c s)
  show ?case
  proof (cases "rx_run p i (c # s) [] []")
    case None
    then obtain u v where "s = u @ v" "rx_path p (Suc i + length u) v [] [] t cs"
      using 2 by auto
    then show ?thesis by (intro exI [of _ "c # u"] exI [of _ v]) simp
  next
    case (Some r)
    then have "rx_path p (i + length []) (c # s) [] [] t cs"
      using "2.prems" by (auto dest: rx_run_path)
    then show ?thesis by blast
  qed
qed (auto dest: rx_run_path)

text \<open>The leftmost start position wins.\<close>

lemma rx_search_from_leftmost:
  assumes "rx_run p (i + length u) v [] [] = Some r"
    and "\<And>w x. u = w @ x \<Longrightarrow> x \<noteq> [] \<Longrightarrow> rx_run p (i + length w) (x @ v) [] [] = None"
  shows "rx_search_from p i (u @ v) = Some r"
  using assms
proof (induction u arbitrary: i)
  case Nil
  then show ?case by (cases v) auto
next
  case (Cons c u)
  have "rx_run p i (c # u @ v) [] [] = None"
    using Cons.prems(2) [of "[]" "c # u"] by simp
  moreover have "rx_search_from p (Suc i) (u @ v) = Some r"
  proof (rule Cons.IH)
    fix w x assume "u = w @ x" "x \<noteq> []"
    then show "rx_run p (Suc i + length w) (x @ v) [] [] = None"
      using Cons.prems(2) [of "c # w" x] by simp
  qed (use Cons.prems in auto)
  ultimately show ?case by simp
qed

lemma rx_search_from_None:
  "rx_search_from p i s = None \<longleftrightarrow>
     (\<forall>u v. s = u @ v \<longrightarrow> rx_run p (i + length u) v [] [] = None)"
proof (induction p i s rule: rx_search_from.induct)
  case (2 p i c s)
  have "(\<forall>u v. c # s = u @ v \<longrightarrow> rx_run p (i + length u) v [] [] = None) \<longleftrightarrow>
     rx_run p i (c # s) [] [] = None \<and>
     (\<forall>u v. s = u @ v \<longrightarrow> rx_run p (Suc i + length u) v [] [] = None)"
    (is "?l \<longleftrightarrow> ?r")
  proof
    assume ?l
    then have "rx_run p i (c # s) [] [] = None"
      by (metis add.right_neutral append_Nil list.size(3))
    moreover from \<open>?l\<close> have "rx_run p (i + length (c # u)) v [] [] = None" if "s = u @ v" for u v
      using that by (metis append_Cons)
    ultimately show ?r by simp
  qed (auto simp: Cons_eq_append_conv)
  then show ?case using 2 by (simp split: option.split)
qed simp

lemma regex_search_iff:
  "regex_search p s \<noteq> None \<longleftrightarrow> (\<exists>u v t cs. s = u @ v \<and> rx_path p (length u) v [] [] t cs)"
proof -
  have "regex_search p s \<noteq> None \<longleftrightarrow> (\<exists>u v. s = u @ v \<and> rx_run p (length u) v [] [] \<noteq> None)"
    using rx_search_from_None [of p 0 s] by (auto simp: regex_search_def)
  then show ?thesis unfolding rx_run_iff_path by blast
qed

text \<open>When every match of the pattern has the same groups, they are what a search returns.\<close>

lemma regex_search_only:
  assumes "\<exists>u v t cs. s = u @ v \<and> rx_path p (length u) v [] [] t cs"
    and "\<And>u v t cs. s = u @ v \<Longrightarrow> rx_path p (length u) v [] [] t cs \<Longrightarrow> cs = ds"
  shows "regex_search p s = Some ds"
proof -
  have "regex_search p s \<noteq> None" unfolding regex_search_iff by (rule assms(1))
  then obtain t cs where found: "rx_search_from p 0 s = Some (t, cs)"
    by (auto simp: regex_search_def)
  then have "cs = ds"
    using rx_search_from_path [OF found] assms(2) by auto
  then show ?thesis using found by (simp add: regex_search_def)
qed

text \<open>A pattern that starts with \<open>^\<close> can only match at the start of the input.\<close>

lemma rx_run_Bol_later [simp]: "rx_run (Bol # p) (Suc i) s os cs = None"
  by simp

lemma rx_search_from_Bol_later: "rx_search_from (Bol # p) (Suc i) s = None"
  by (induction s arbitrary: i) auto

lemma regex_search_Bol:
  "regex_search (Bol # p) s = map_option snd (rx_run p 0 s [] [])"
  by (cases s) (simp_all add: regex_search_def rx_search_from_Bol_later split: option.split)

section \<open>Iterating over all matches\<close>

text \<open>A match of a pattern with at least one single-character instruction is not empty.\<close>

lemma path_length: "rx_path p i s os cs t ds \<Longrightarrow> length t \<le> length s"
  by (induction rule: rx_path.induct) auto

lemma path_suffix: "rx_path p i s os cs t ds \<Longrightarrow> \<exists>w. s = w @ t"
  by (induction rule: rx_path.induct) (auto intro: exI [of _ "_ # _"] exI [of _ "_ @ _"])

lemma path_consumes:
  "rx_path p i s os cs t ds \<Longrightarrow> Chr k \<in> set p \<Longrightarrow> length t < length s"
  by (induction rule: rx_path.induct) (auto dest: path_length)

lemma rx_search_from_shrinks:
  assumes "rx_search_from p i s = Some (t, cs)" and "Chr k \<in> set p"
  shows "length t < length s"
  using rx_search_from_path [OF assms(1)] path_consumes [OF _ assms(2)] by fastforce

lemma rx_run_shift: "Bol \<notin> set p \<Longrightarrow> rx_run p i s os cs = rx_run p j s os cs"
proof (induction p i s os cs arbitrary: j rule: rx_run.induct)
  case (3 k p i c s os cs)
  show ?case using "3.IH" [of "Suc j"] "3.prems" by simp
next
  case (4 k p i os cs)
  show ?case using "4.IH" [of j] "4.prems" by simp
next
  case (5 k p i c s os cs)
  show ?case
  proof (cases "class_has k c")
    case True
    have "rx_run (Star k # p) (Suc i) s os cs = rx_run (Star k # p) (Suc j) s os cs"
      by (rule "5.IH"(1) [OF True "5.prems"])
    moreover have "rx_run (Star k # p) (Suc i) s os cs = None \<Longrightarrow>
        rx_run p i (c # s) os cs = rx_run p j (c # s) os cs"
      by (rule "5.IH"(2) [OF True]) (use "5.prems" in simp_all)
    ultimately show ?thesis using True by (simp split: option.split)
  next
    case False
    show ?thesis using False "5.IH"(3) [OF False, of j] "5.prems" by simp
  qed
next
  case (6 k p i os cs)
  show ?case using "6.IH" [of j] "6.prems" by simp
next
  case (7 k p i c s os cs)
  have "rx_run p i (c # s) os cs = rx_run p j (c # s) os cs"
    by (rule "7.IH"(1)) (use "7.prems" in simp)
  moreover have "rx_run p i (c # s) os cs = None \<Longrightarrow> class_has k c \<Longrightarrow>
      rx_run (LazyStar k # p) (Suc i) s os cs = rx_run (LazyStar k # p) (Suc j) s os cs"
    by (rule "7.IH"(2) [OF _ _ "7.prems"])
  ultimately show ?case by (simp split: option.split)
next
  case (8 g p i s os cs)
  show ?case using "8.IH" [of j] "8.prems" by simp
next
  case (9 g p i s os cs)
  show ?case using "9.IH" [of j] "9.prems" by simp
next
  case (11 p i s os cs)
  show ?case using "11.IH" [of j] "11.prems" by simp
qed simp_all

lemma rx_search_from_shift:
  "Bol \<notin> set p \<Longrightarrow> rx_search_from p i s = rx_search_from p j s"
proof (induction s arbitrary: i j)
  case Nil
  then show ?case using rx_run_shift by simp
next
  case (Cons c s)
  then show ?case
    using rx_run_shift [of p i "c # s" "[]" "[]" j] Cons.IH [of "Suc i" "Suc j"]
    by (simp split: option.split)
qed

text \<open>
  The patterns the sources iterate over: they consume and do not mention the start of the
  input.
\<close>

locale iterated_pattern =
  fixes p :: pattern
  assumes consuming: "\<exists>k. Chr k \<in> set p"
    and unanchored: "Bol \<notin> set p"
begin

lemma search_shrinks: "rx_search_from p i s = Some (t, cs) \<Longrightarrow> length t < length s"
  using consuming rx_search_from_shrinks by blast

lemma iter_fuel:
  "length s < n \<Longrightarrow> length s < m \<Longrightarrow> rx_iter n p i s = rx_iter m p j s"
proof (induction n arbitrary: m i j s)
  case (Suc n)
  then obtain m' where m: "m = Suc m'" by (cases m) auto
  have "rx_search_from p i s = rx_search_from p j s"
    using rx_search_from_shift unanchored by blast
  moreover have "rx_iter n p a t = rx_iter m' p b t"
    if "rx_search_from p j s = Some (t, cs)" for t cs a b
    using Suc.prems m search_shrinks [OF that] by (intro Suc.IH) auto
  ultimately show ?case by (auto simp: m split: option.split)
qed simp

text \<open>The fuel is enough: the matches are the first one, then those of what it leaves.\<close>

lemma matches_step:
  "regex_matches p s =
     (case rx_search_from p 0 s of
        None \<Rightarrow> []
      | Some (t, cs) \<Rightarrow> cs # regex_matches p t)"
proof (cases "rx_search_from p 0 s")
  case (Some r)
  then obtain t cs where r: "rx_search_from p 0 s = Some (t, cs)" by (cases r) auto
  have "rx_iter (length s) p (length s - length t) t = rx_iter (Suc (length t)) p 0 t"
    using search_shrinks [OF r] by (intro iter_fuel) auto
  then show ?thesis by (simp add: regex_matches_def r)
qed (simp add: regex_matches_def)

lemma search_run:
  assumes "rx_search_from p i s = Some (t, cs)"
  shows "\<exists>u v. s = u @ v \<and> rx_run p 0 v [] [] = Some (t, cs)"
  using assms
proof (induction s arbitrary: i)
  case Nil
  then show ?case using rx_run_shift [OF unanchored, of i "[]" "[]" "[]" 0] by simp
next
  case (Cons c s)
  show ?case
  proof (cases "rx_run p i (c # s) [] []")
    case None
    then show ?thesis using Cons by (metis append_Cons option.simps(4) rx_search_from.simps(2))
  next
    case (Some r)
    then have "rx_run p 0 (c # s) [] [] = Some (t, cs)"
      using Cons.prems rx_run_shift [OF unanchored, of i "c # s" "[]" "[]" 0] by simp
    then show ?thesis by (metis append_Nil)
  qed
qed

text \<open>A property of every single match is a property of every match of the iteration.\<close>

lemma matches_run:
  assumes "cs \<in> set (regex_matches p s)"
  shows "\<exists>u v t. s = u @ v \<and> rx_run p 0 v [] [] = Some (t, cs)"
  using assms
proof (induction s rule: length_induct)
  case (1 s)
  show ?case
  proof (cases "rx_search_from p 0 s")
    case (Some r)
    then obtain t ds where r: "rx_search_from p 0 s = Some (t, ds)" by (cases r) auto
    then obtain u v where uv: "s = u @ v" "rx_run p 0 v [] [] = Some (t, ds)"
      by (blast dest: search_run)
    then obtain w where w: "v = w @ t" by (auto dest: rx_run_path path_suffix)
    consider "cs = ds" | "cs \<in> set (regex_matches p t)"
      using "1.prems" r by (subst (asm) matches_step) auto
    then show ?thesis
    proof cases
      case 1
      then show ?thesis using uv by blast
    next
      case 2
      then show ?thesis using "1.IH" search_shrinks [OF r] uv(1) w by (metis append.assoc)
    qed
  qed (use "1.prems" in \<open>simp add: matches_step\<close>)
qed

lemma matches_path:
  "cs \<in> set (regex_matches p s) \<Longrightarrow> \<exists>u v t. s = u @ v \<and> rx_path p 0 v [] [] t cs"
  by (drule matches_run, elim exE conjE, drule rx_run_path) (intro exI conjI)

text \<open>The first match and what it leaves, when the leftmost match is known.\<close>

lemma matches_leftmost:
  assumes "rx_run p 0 v [] [] = Some (t, cs)"
    and "\<And>w x. u = w @ x \<Longrightarrow> x \<noteq> [] \<Longrightarrow> rx_run p 0 (x @ v) [] [] = None"
  shows "regex_matches p (u @ v) = cs # regex_matches p t"
proof -
  have "rx_search_from p 0 (u @ v) = Some (t, cs)"
  proof (rule rx_search_from_leftmost)
    show "rx_run p (0 + length u) v [] [] = Some (t, cs)"
      using assms(1) rx_run_shift [OF unanchored, of "0 + length u" v "[]" "[]" 0] by simp
    show "rx_run p (0 + length w) (x @ v) [] [] = None" if "u = w @ x" "x \<noteq> []" for w x
      using assms(2) [OF that] rx_run_shift [OF unanchored, of "0 + length w" "x @ v" "[]" "[]" 0]
      by simp
  qed
  then show ?thesis by (subst matches_step) simp
qed

lemma matches_none:
  assumes "\<And>u v. s = u @ v \<Longrightarrow> rx_run p 0 v [] [] = None"
  shows "regex_matches p s = []"
proof -
  have "rx_search_from p 0 s = None"
    unfolding rx_search_from_None
  proof (intro allI impI)
    fix u v assume "s = u @ v"
    then show "rx_run p (0 + length u) v [] [] = None"
      using assms rx_run_shift [OF unanchored, of "0 + length u" v "[]" "[]" 0] by simp
  qed
  then show ?thesis by (subst matches_step) simp
qed

end

text \<open>Part of a pattern: what comes behind a prefix of the pattern is run from some point.\<close>

lemma rx_run_Star_tail:
  "rx_run (Star k # p) i s os cs = Some res \<Longrightarrow> \<exists>i' s'. rx_run p i' s' os cs = Some res"
proof (induction s arbitrary: i)
  case (Cons c s)
  then show ?case by (cases "rx_run (Star k # p) (Suc i) s os cs") (auto split: if_splits)
qed auto

lemma rx_run_LazyStar_tail:
  "rx_run (LazyStar k # p) i s os cs = Some res \<Longrightarrow> \<exists>i' s'. rx_run p i' s' os cs = Some res"
proof (induction s arbitrary: i)
  case (Cons c s)
  then show ?case by (cases "rx_run p i (c # s) os cs") (auto split: if_splits)
qed auto

lemma rx_run_tail:
  "rx_run (p @ q) i s os cs = Some res \<Longrightarrow> \<exists>i' s' os' cs'. rx_run q i' s' os' cs' = Some res"
proof (induction p arbitrary: i s os cs)
  case Nil
  then show ?case by auto
next
  case (Cons a p)
  then have run: "rx_run (a # (p @ q)) i s os cs = Some res" by simp
  have "\<exists>i' s' os' cs'. rx_run (p @ q) i' s' os' cs' = Some res"
  proof (cases a)
    case (Chr k)
    then show ?thesis using run by (cases s) (auto split: if_splits)
  next
    case (Star k)
    then show ?thesis using rx_run_Star_tail [OF run [unfolded Star]] by (elim exE) (intro exI)
  next
    case (LazyStar k)
    then show ?thesis using rx_run_LazyStar_tail [OF run [unfolded LazyStar]] by (elim exE) (intro exI)
  next
    case (Open g)
    then show ?thesis using run by (simp only: rx_run.simps) (intro exI)
  next
    case (Close g)
    then show ?thesis using run by (simp only: rx_run.simps) (intro exI)
  next
    case Bol
    then have "rx_run (p @ q) i s os cs = Some res"
      using run by (cases "i = 0") simp_all
    then show ?thesis by (intro exI)
  next
    case Eol
    then have "rx_run (p @ q) i s os cs = Some res"
      using run by (cases "s = []") simp_all
    then show ?thesis by (intro exI)
  qed
  then show ?case using Cons.IH by blast
qed

end
