(* ===== verification/Request.thy ===== *)
theory Request
  imports Regex "HOL-Library.Sublist"
begin

text \<open>
  \<open>src/request.cc\<close>: an HTTP request is the raw bytes and what the constructor extracts from
  them with regular expressions: method, URI, query string, headers and body. The patterns
  are the source's, written as instruction lists of theory Regex. \<open>m.size() == n + 1\<close> holds
  of a search with an n-group pattern exactly when it found a match.

  The lemmas describe each extraction on the texts HTTP allows; the properties say when a
  request is valid, what is read back from a well-formed one, and where the patterns lose
  data (values of query parameters, bodies with a line feed).
\<close>

section \<open>State\<close>

record request =
  raw_request :: string
  request_size :: nat
  req_method :: string
  req_uri :: string
  request_headers :: "(string, string) umap"
  request_body :: string
  query_string :: "(string, string) umap"
  req_valid :: bool

section \<open>The patterns\<close>

definition status_line_rx :: pattern where
  "status_line_rx =
     Bol # group 1 (plus Word) @ lits '' '' @ group 2 (plus Any) @ lits '' HTTP/''
       @ group 3 [Chr Digit, Chr (Lit (CHR ''.'')), Chr Digit] @ lits crlf"

definition header_rx :: pattern where
  "header_rx = lits [lf] @ group 1 (plus Any) @ lits '': '' @ group 2 (plus Any) @ lits [cr]"

definition body_rx :: pattern where
  "body_rx = lits (crlf @ crlf) @ group 1 (plus Any) @ [Eol]"

definition query_split_rx :: pattern where
  "query_split_rx = Bol # group 1 (plus Any) @ lits ''?'' @ group 2 [Star Any] @ [Eol]"

definition query_param_rx :: pattern where
  "query_param_rx =
     group 1 (lazy_plus Any) @ lits ''='' @ group 2 (lazy_plus Any)
       @ group 3 [Star (Lit (CHR ''&''))]"

section \<open>Operations\<close>

definition pair_of :: "groups \<Rightarrow> string \<times> string" where
  "pair_of m = (str_of m 1, str_of m 2)"

definition parse_query_string :: "request \<Rightarrow> bool \<times> request" where
  "parse_query_string r =
     (case regex_search query_split_rx (req_uri r) of
        None \<Rightarrow> (True, r)
      | Some m \<Rightarrow>
          (True, r\<lparr>req_uri := str_of m 1,
                   query_string :=
                     fold umap_insert (map pair_of (regex_matches query_param_rx (str_of m 2)))
                       (query_string r)\<rparr>))"

definition parse_status_line :: "string \<Rightarrow> request \<Rightarrow> bool \<times> request" where
  "parse_status_line req r =
     (case regex_search status_line_rx req of
        None \<Rightarrow> (False, r)
      | Some m \<Rightarrow> parse_query_string (r\<lparr>req_method := str_of m 1, req_uri := str_of m 2\<rparr>))"

definition parse_headers :: "string \<Rightarrow> request \<Rightarrow> bool \<times> request" where
  "parse_headers req r =
     (True, r\<lparr>request_headers :=
                fold umap_insert (map pair_of (regex_matches header_rx req)) (request_headers r)\<rparr>)"

definition parse_body :: "string \<Rightarrow> request \<Rightarrow> bool \<times> request" where
  "parse_body req r =
     (case regex_search body_rx req of
        None \<Rightarrow> (True, r)
      | Some m \<Rightarrow> (True, r\<lparr>request_body := str_of m 1\<rparr>))"

definition parse_request :: "request \<Rightarrow> request" where
  "parse_request r0 =
     (let req = raw_request r0;
          r = r0\<lparr>req_valid := False\<rparr>;
          (out1, r1) = parse_status_line req r
      in if out1 then
           (let (out2, r2) = parse_headers req r1
            in if out2 then
                 (let (out3, r3) = parse_body req r2
                  in if out3 then r3\<lparr>req_valid := True\<rparr> else r3)
               else r2)
         else r1)"

text \<open>The constructor: the bytes are copied, then parsed.\<close>

definition new_request :: "string \<Rightarrow> request" where
  "new_request bytes =
     parse_request
       \<lparr>raw_request = bytes, request_size = length bytes, req_method = [], req_uri = [],
        request_headers = [], request_body = [], query_string = [], req_valid = False\<rparr>"

definition get_header :: "request \<Rightarrow> string \<Rightarrow> string" where
  "get_header r name =
     (case umap_find (request_headers r) name of Some v \<Rightarrow> v | None \<Rightarrow> [])"

definition get_query_string_param :: "request \<Rightarrow> string \<Rightarrow> string" where
  "get_query_string_param r name =
     (case umap_find (query_string r) name of Some v \<Rightarrow> v | None \<Rightarrow> [])"

text \<open>
  \<open>std::string(req->get_raw_request())\<close>, which the echo handler, the proxy handler and the
  session use: the buffer is copied without a terminator, so the read goes on into the memory
  behind it until a zero byte. \<open>behind\<close> is what the heap holds there.
\<close>

definition raw_c_string :: "request \<Rightarrow> string \<Rightarrow> string result" where
  "raw_c_string r behind =
     (if nul \<in> set (raw_request r @ behind)
      then Inr (takeWhile (\<lambda>c. c \<noteq> nul) (raw_request r @ behind))
      else Inl Undefined_behaviour)"

section \<open>The request line\<close>

abbreviation line_char :: "char \<Rightarrow> bool" where
  "line_char \<equiv> class_has Any"

definition line_text :: "string \<Rightarrow> bool" where
  "line_text s \<longleftrightarrow> s \<noteq> [] \<and> (\<forall>c \<in> set s. c \<noteq> lf \<and> c \<noteq> cr)"

lemma line_text_iff: "line_text s \<longleftrightarrow> s \<noteq> [] \<and> (\<forall>c \<in> set s. line_char c)"
  by (auto simp: line_text_def)

definition word_text :: "string \<Rightarrow> bool" where
  "word_text s \<longleftrightarrow> s \<noteq> [] \<and> (\<forall>c \<in> set s. is_word c)"

definition request_line :: "string \<Rightarrow> string \<Rightarrow> char \<Rightarrow> char \<Rightarrow> string" where
  "request_line m u a b = m @ '' '' @ u @ '' HTTP/'' @ [a, CHR ''.'', b] @ crlf"

definition request_line_rest :: "char \<Rightarrow> char \<Rightarrow> string" where
  "request_line_rest a b = '' HTTP/'' @ [a, CHR ''.'', b] @ crlf"

lemma path_version:
  "rx_path (group g [Chr Digit, Chr (Lit (CHR ''.'')), Chr Digit] @ lits w) i s os cs t ds \<longleftrightarrow>
     (\<exists>a b. s = [a, CHR ''.'', b] @ w @ t \<and> is_digit a \<and> is_digit b
        \<and> ds = (g, [a, CHR ''.'', b]) # cs)"
  by (auto simp: group_def path_Open_iff path_Chr_iff path_Close_iff path_lits_end group_text_def)

lemma status_line_path:
  "rx_path status_line_rx 0 s [] [] t cs \<longleftrightarrow>
     (\<exists>m u a b. s = request_line m u a b @ t \<and> word_text m \<and> line_text u
        \<and> is_digit a \<and> is_digit b \<and> cs = [(3, [a, CHR ''.'', b]), (2, u), (1, m)])"
  unfolding status_line_rx_def
  by (simp only: rx_parts path_version)
    (auto simp: request_line_def word_text_def line_text_def)

text \<open>A text is a request line in at most one way.\<close>

lemma request_line_unique:
  assumes eq: "request_line m u a b @ t = request_line m' u' a' b' @ t'"
    and "word_text m" "word_text m'" "line_text u" "line_text u'"
    and "is_digit a" "is_digit b" "is_digit a'" "is_digit b'"
  shows "m = m' \<and> u = u' \<and> a = a' \<and> b = b' \<and> t = t'"
proof -
  have sp: "takeWhile is_word (w @ CHR '' '' # x) = w" if "word_text w" for w x
    using that by (simp add: word_text_def takeWhile_append2 is_word_not)
  have m: "m = m'"
    using arg_cong [OF eq, of "takeWhile is_word"] assms(2,3) sp
    by (simp add: request_line_def)
  have dig: "d \<noteq> cr" if "is_digit d" for d
    using that is_digit_word is_word_not(3) by blast
  have ln: "takeWhile (\<lambda>c. c \<noteq> cr) (w @ '' HTTP/'' @ [x, CHR ''.'', y] @ crlf @ z)
      = w @ '' HTTP/'' @ [x, CHR ''.'', y]"
    if "line_text w" "is_digit x" "is_digit y" for w x y z
    using that dig by (subst takeWhile_append2) (auto simp: line_text_def)
  have rest: "u @ '' HTTP/'' @ [a, CHR ''.'', b] @ crlf @ t
      = u' @ '' HTTP/'' @ [a', CHR ''.'', b'] @ crlf @ t'"
    using eq m by (simp add: request_line_def)
  then have "u @ '' HTTP/'' @ [a, CHR ''.'', b] = u' @ '' HTTP/'' @ [a', CHR ''.'', b']"
    using ln [OF assms(4,6,7), of t] ln [OF assms(5,8,9), of t'] by (simp only: rest)
  then have "u = u' \<and> a = a' \<and> b = b'" by simp
  then show ?thesis using m rest by simp
qed

lemma status_line_search:
  assumes "word_text m" "line_text u" "is_digit a" "is_digit b"
  shows "regex_search status_line_rx (request_line m u a b @ t)
    = Some [(3, [a, CHR ''.'', b]), (2, u), (1, m)]"
proof -
  have "rx_path status_line_rx 0 (request_line m u a b @ t) [] [] t
      [(3, [a, CHR ''.'', b]), (2, u), (1, m)]"
    using assms status_line_path by blast
  then obtain t' cs where run:
      "rx_run status_line_rx 0 (request_line m u a b @ t) [] [] = Some (t', cs)"
    using rx_run_complete by (metis not_None_eq surj_pair)
  then obtain m' u' a' b' where
      "request_line m u a b @ t = request_line m' u' a' b' @ t'" "word_text m'" "line_text u'"
      "is_digit a'" "is_digit b'" "cs = [(3, [a', CHR ''.'', b']), (2, u'), (1, m')]"
    using rx_run_path [OF run] status_line_path by metis
  then have "cs = [(3, [a, CHR ''.'', b]), (2, u), (1, m)]"
    using assms request_line_unique by metis
  then show ?thesis
    using run unfolding status_line_rx_def regex_search_Bol by simp
qed

lemma status_line_search_iff:
  "regex_search status_line_rx s \<noteq> None \<longleftrightarrow>
     (\<exists>m u a b t. s = request_line m u a b @ t \<and> word_text m \<and> line_text u
        \<and> is_digit a \<and> is_digit b)"
proof
  assume "regex_search status_line_rx s \<noteq> None"
  then have "rx_run status_line_rx 0 s [] [] \<noteq> None"
    unfolding status_line_rx_def regex_search_Bol by simp
  then show "\<exists>m u a b t. s = request_line m u a b @ t \<and> word_text m \<and> line_text u
        \<and> is_digit a \<and> is_digit b"
    unfolding rx_run_iff_path status_line_path by blast
next
  assume "\<exists>m u a b t. s = request_line m u a b @ t \<and> word_text m \<and> line_text u
        \<and> is_digit a \<and> is_digit b"
  then show "regex_search status_line_rx s \<noteq> None"
    using status_line_search by (elim exE conjE) simp
qed

section \<open>The query string\<close>

lemma query_split_path:
  "rx_path query_split_rx 0 s [] [] t cs \<longleftrightarrow>
     (\<exists>p q. s = p @ CHR ''?'' # q \<and> line_text p \<and> (\<forall>c \<in> set q. line_char c)
        \<and> t = [] \<and> cs = [(2, q), (1, p)])"
  unfolding query_split_rx_def
  by (simp only: rx_parts) (auto simp: line_text_def)

text \<open>No question mark behind the first character: the URI stays as it is.\<close>

lemma query_split_none:
  assumes "CHR ''?'' \<notin> set (tl u)"
  shows "regex_search query_split_rx u = None"
proof (rule ccontr)
  assume "regex_search query_split_rx u \<noteq> None"
  then have "rx_run query_split_rx 0 u [] [] \<noteq> None"
    unfolding query_split_rx_def regex_search_Bol by simp
  then obtain p q where "u = p @ CHR ''?'' # q" "line_text p"
    unfolding rx_run_iff_path query_split_path by blast
  then show False using assms by (cases p) (auto simp: line_text_def)
qed

text \<open>Otherwise the greedy group takes all up to the last question mark.\<close>

lemma query_split_last:
  assumes p: "line_text p" and q: "\<forall>c \<in> set q. line_char c" "CHR ''?'' \<notin> set q"
  shows "regex_search query_split_rx (p @ CHR ''?'' # q) = Some [(2, q), (1, p)]"
proof -
  obtain c p' where c: "p = c # p'" using p by (cases p) (auto simp: line_text_def)
  let ?s = "p @ CHR ''?'' # q" and ?os = "[(1, p @ CHR ''?'' # q)]"
  let ?rest = "Close 1 # lits ''?'' @ group 2 [Star Any] @ [Eol]"
  have tail: "rx_run (Star Any # [Close 2, Eol]) i q ((2, q) # ?os) [(1, p)]
      = Some ([], [(2, q), (1, p)])" for i
    using rx_run_Star_max [OF q(1), of "[]" "[Close 2, Eol]"] by (simp add: group_text_def)
  have rest: "rx_run ?rest i (CHR ''?'' # q) ?os [] = Some ([], [(2, q), (1, p)])" for i
    using tail by (simp add: lits_def group_def group_text_def)
  have no: "rx_run ?rest i s' ?os [] = None" if "CHR ''?'' \<notin> set s'" for i s'
    using that by (cases s') (auto simp: lits_def)
  have "rx_run (Star Any # ?rest) 1 (p' @ CHR ''?'' # q) ?os [] = Some ([], [(2, q), (1, p)])"
  proof (rule rx_run_Star_greedy)
    fix v s' assume "v \<noteq> []" "CHR ''?'' # q = v @ s'"
    then have "CHR ''?'' \<notin> set s'" using q(2) by (cases v) auto
    then show "rx_run ?rest (1 + length p' + length v) s' ?os [] = None" by (rule no)
  qed (use p c rest in \<open>auto simp: line_text_def\<close>)
  then show ?thesis
    using p c unfolding query_split_rx_def regex_search_Bol
    by (simp add: group_def plus_def line_text_def)
qed

text \<open>
  The value of a query parameter: the lazy group is followed by a group that may be empty, so
  it stops at its first character.
\<close>

lemma rx_run_final_star:
  "\<exists>t w. rx_run [Star k, Close g] i s os cs = Some (t, (g, w) # cs)"
proof (induction s arbitrary: i)
  case (Cons c s)
  obtain t w where "rx_run [Star k, Close g] (Suc i) s os cs = Some (t, (g, w) # cs)"
    using Cons.IH [of "Suc i"] by blast
  then show ?case by (cases "class_has k c") simp_all
qed simp

lemma query_param_one_char:
  assumes "rx_run query_param_rx i s [] [] = Some (t, cs)"
  shows "length (str_of cs 2) = 1"
proof -
  let ?q = "group 2 (lazy_plus Any) @ group 3 [Star (Lit (CHR ''&''))]"
  have "rx_run ((group 1 (lazy_plus Any) @ lits ''='') @ ?q) i s [] [] = Some (t, cs)"
    using assms by (simp add: query_param_rx_def)
  then obtain i' s' os' cs' where run: "rx_run ?q i' s' os' cs' = Some (t, cs)"
    by (blast dest: rx_run_tail)
  then obtain c r where s': "s' = c # r"
    by (cases s') (auto simp: group_def lazy_plus_def)
  have "\<exists>t w. rx_run [Close 2, Open 3, Star (Lit (CHR ''&'')), Close 3] (Suc i') r
      ((2, c # r) # os') cs' = Some (t, (3, w) # (2, [c]) # cs')"
    using rx_run_final_star by (simp add: group_text_def)
  then have "\<exists>w. cs = (3, w) # (2, [c]) # cs'"
    using run by (cases r) (auto simp: s' group_def lazy_plus_def split: if_splits)
  then show ?thesis by auto
qed

interpretation query_param: iterated_pattern query_param_rx
  by unfold_locales (auto simp: query_param_rx_def group_def lazy_plus_def lits_def)

lemma umap_insert_values: "set (umap_insert h m) \<subseteq> insert h (set m)"
  by (auto simp: umap_insert_def split: option.splits)

lemma umap_fold_values: "set (fold umap_insert ps m) \<subseteq> set ps \<union> set m"
proof (induction ps arbitrary: m)
  case (Cons p ps)
  then show ?case using Cons.IH [of "umap_insert p m"] umap_insert_values [of p m] by auto
qed simp

lemma parse_query_string_values:
  assumes "\<forall>(k, v) \<in> set (query_string r). length v = 1"
  shows "\<forall>(k, v) \<in> set (query_string (snd (parse_query_string r))). length v = 1"
proof (cases "regex_search query_split_rx (req_uri r)")
  case (Some m)
  have "length (str_of cs 2) = 1" if "cs \<in> set (regex_matches query_param_rx w)" for cs w
    using query_param.matches_run [OF that] query_param_one_char by blast
  then show ?thesis
    using Some assms umap_fold_values
      [of "map pair_of (regex_matches query_param_rx (str_of m 2))" "query_string r"]
    by (fastforce simp: parse_query_string_def pair_of_def)
qed (use assms in \<open>simp add: parse_query_string_def\<close>)

section \<open>The headers\<close>

definition header_line :: "string \<times> string \<Rightarrow> string" where
  "header_line h = fst h @ '': '' @ snd h @ crlf"

text \<open>No colon followed by a blank: the pattern's separator.\<close>

definition no_separator :: "string \<Rightarrow> bool" where
  "no_separator s \<longleftrightarrow> \<not> sublist '': '' s"

definition header_ok :: "string \<times> string \<Rightarrow> bool" where
  "header_ok h \<longleftrightarrow> line_text (fst h) \<and> line_text (snd h) \<and> no_separator (snd h)"

lemma no_separator_suffix: "no_separator (x @ y) \<Longrightarrow> no_separator y"
  unfolding no_separator_def sublist_def by (metis append.assoc)

lemma no_separator_blank: "no_separator (CHR '' '' # v) \<longleftrightarrow> no_separator v"
  by (simp add: no_separator_def sublist_Cons_right)

lemma split_before:
  assumes "a @ d # z = w @ s" and "d \<notin> set w"
  obtains x where "a = w @ x" "s = x @ d # z"
  using assms by (fastforce simp: append_eq_append_conv2 Cons_eq_append_conv append_eq_Cons_conv)

text \<open>What the pattern needs behind the name: the separator, a value and a carriage return.\<close>

abbreviation header_rest :: pattern where
  "header_rest \<equiv> Close 1 # lits '': '' @ group 2 (plus Any) @ lits [cr]"

lemma header_rest_value:
  assumes "line_text v"
  shows "rx_run header_rest i ('': '' @ v @ cr # s) ((1, n @ '': '' @ v @ cr # s) # os) cs
    = Some (s, (2, v) # (1, n) # cs)"
proof -
  obtain c v' where v: "v = c # v'" using assms by (cases v) (auto simp: line_text_def)
  have "rx_run (Star Any # Close 2 # lits [cr]) j (v' @ cr # s) ((2, v @ cr # s) # os') ds
      = Some (s, (2, v) # ds)" for j os' ds
    using assms
    by (intro rx_run_Star_max) (auto simp: line_text_def v lits_def group_text_def)
  then show ?thesis
    using assms by (simp add: group_def plus_def lits_def v line_text_def)
qed

lemma header_rest_none:
  assumes "no_separator s" and "\<forall>c \<in> set s. line_char c"
  shows "rx_run header_rest i (s @ cr # lf # t) os cs = None"
proof (rule ccontr)
  assume "\<not> ?thesis"
  then obtain r ds where "rx_path (lits '': '' @ group 2 (plus Any) @ lits [cr]) i
      (s @ cr # lf # t) os ((1, group_text os 1 (s @ cr # lf # t)) # cs) r ds"
    unfolding rx_run_iff_path path_Close_iff by blast
  then obtain x y where eq: "s @ cr # lf # t = '': '' @ x @ cr # y" "line_text x"
    by (simp only: rx_parts) (auto simp: line_text_def)
  have "takeWhile (\<lambda>c. c \<noteq> cr) (s @ cr # lf # t) = s"
    using assms(2) by (subst takeWhile_append2) auto
  moreover have "takeWhile (\<lambda>c. c \<noteq> cr) ('': '' @ x @ cr # y) = '': '' @ x"
    using eq(2) by (auto simp: line_text_def takeWhile_append2)
  ultimately have "s = '': '' @ x" using eq(1) by simp
  then show False using assms(1) by (auto simp: no_separator_def)
qed

lemma header_run:
  assumes "header_ok (n, v)"
  shows "rx_run header_rx i (lf # header_line (n, v) @ t) [] []
    = Some (lf # t, [(2, v), (1, n)])"
proof -
  obtain c n' where n: "n = c # n'" using assms by (cases n) (auto simp: header_ok_def line_text_def)
  have "rx_run (Star Any # header_rest) j (n' @ '': '' @ v @ cr # lf # t)
      [(1, n @ '': '' @ v @ cr # lf # t)] [] = Some (lf # t, [(2, v), (1, n)])" for j
  proof (rule rx_run_Star_greedy)
    show "\<forall>c \<in> set n'. line_char c" using assms n by (auto simp: header_ok_def line_text_def)
    show "rx_run header_rest (j + length n') ('': '' @ v @ cr # lf # t)
        [(1, n @ '': '' @ v @ cr # lf # t)] [] = Some (lf # t, [(2, v), (1, n)])"
      using assms header_rest_value by (simp add: header_ok_def)
  next
    fix w s'
    assume w: "w \<noteq> []" "'': '' @ v @ cr # lf # t = w @ s'" "\<forall>c \<in> set w. line_char c"
    then have "cr \<notin> set w" by auto
    then obtain x where x: "'': '' @ v = w @ x" "s' = x @ cr # lf # t"
      using w(2) split_before [of "'': '' @ v" cr "lf # t" w s'] by auto
    obtain w' where w': "w = CHR '':'' # w'" "'' '' @ v = w' @ x"
      using w(1) x(1) by (cases w) auto
    have v: "no_separator ('' '' @ v)" "\<forall>c \<in> set ('' '' @ v). line_char c"
      using assms by (auto simp: header_ok_def line_text_def no_separator_blank)
    then have "no_separator x" "\<forall>c \<in> set x. line_char c"
      unfolding w'(2) by (auto intro: no_separator_suffix)
    then show "rx_run header_rest (j + length n' + length w) s'
        [(1, n @ '': '' @ v @ cr # lf # t)] [] = None"
      unfolding x(2) by (rule header_rest_none)
  qed
  then show ?thesis
    using assms
    by (simp add: header_rx_def lits_def group_def plus_def header_line_def n header_ok_def
        line_text_def)
qed

interpretation header: iterated_pattern header_rx
  by unfold_locales (auto simp: header_rx_def group_def plus_def lits_def)

lemma header_path_cr: "rx_path header_rx i s [] [] t cs \<Longrightarrow> cr \<in> set s"
  unfolding header_rx_def by (simp only: rx_parts) (elim exE conjE, simp)

lemma header_run_no_cr: "cr \<notin> set s \<Longrightarrow> rx_run header_rx i s [] [] = None"
  by (metis rx_run_iff_path header_path_cr)

lemma header_run_not_lf: "s \<noteq> [] \<Longrightarrow> hd s \<noteq> lf \<Longrightarrow> rx_run header_rx i s [] [] = None"
  by (cases s) (simp_all add: header_rx_def lits_def)

lemma header_run_blank_line: "rx_run header_rx i (lf # cr # s) [] [] = None"
  by (simp add: header_rx_def lits_def group_def plus_def)

text \<open>Behind the last header line there is no match.\<close>

lemma header_matches_end:
  assumes pre: "lf \<notin> set pre" and body: "cr \<notin> set body"
  shows "regex_matches header_rx (pre @ lf # cr # lf # body) = []"
proof (rule header.matches_none)
  fix u v assume uv: "pre @ lf # cr # lf # body = u @ v"
  have v: "v = drop (length u) (pre @ lf # cr # lf # body)" by (simp add: uv)
  show "rx_run header_rx 0 v [] [] = None"
  proof (cases "length u < length pre")
    case True
    then have "v = drop (length u) pre @ lf # cr # lf # body" "drop (length u) pre \<noteq> []"
      using v by simp_all
    moreover have "hd (drop (length u) pre) \<noteq> lf"
      using True pre by (metis hd_drop_conv_nth nth_mem)
    ultimately show ?thesis by (intro header_run_not_lf) simp_all
  next
    case False
    then have d: "v = drop (length u - length pre) (lf # cr # lf # body)" using v by simp
    consider "length u - length pre = 0" | "length u - length pre = 1"
      | k where "length u - length pre = Suc (Suc k)"
      by (metis One_nat_def not0_implies_Suc)
    then show ?thesis
    proof cases
      case 1
      then show ?thesis using d by (simp only: drop_0 header_run_blank_line)
    next
      case 2
      then show ?thesis using d by (intro header_run_not_lf) simp_all
    next
      case (3 k)
      then have "v = drop k (lf # body)" using d by simp
      then have "cr \<notin> set v" using body by (auto dest: in_set_dropD)
      then show ?thesis by (rule header_run_no_cr)
    qed
  qed
qed

text \<open>The matches are the header lines, in order; the blank line and the body give none.\<close>

lemma header_matches:
  assumes "lf \<notin> set pre" and "\<forall>h \<in> set hs. header_ok h" and "cr \<notin> set body"
  shows "map pair_of (regex_matches header_rx
      (pre @ lf # concat (map header_line hs) @ crlf @ body)) = hs"
  using assms(1,2)
proof (induction hs arbitrary: pre)
  case Nil
  then show ?case using header_matches_end [of pre body] assms(3) by simp
next
  case (Cons h hs)
  let ?rest = "concat (map header_line hs) @ crlf @ body"
  obtain n v where h: "h = (n, v)" by fastforce
  have "regex_matches header_rx (pre @ lf # header_line (n, v) @ ?rest)
    = [(2, v), (1, n)] # regex_matches header_rx (lf # ?rest)"
  proof (rule header.matches_leftmost)
    show "rx_run header_rx 0 (lf # header_line (n, v) @ ?rest) [] []
        = Some (lf # ?rest, [(2, v), (1, n)])"
      using Cons.prems h by (intro header_run) simp
    fix w x assume "pre = w @ x" "x \<noteq> []"
    then show "rx_run header_rx 0 (x @ lf # header_line (n, v) @ ?rest) [] [] = None"
      using Cons.prems(1) by (intro header_run_not_lf) (cases x; auto)+
  qed
  then show ?case using Cons.IH [of "[]"] Cons.prems by (simp add: h pair_of_def)
qed

section \<open>The body\<close>

lemma body_path:
  "rx_path body_rx i s [] [] t cs \<longleftrightarrow>
     (\<exists>w. s = crlf @ crlf @ w \<and> line_text w \<and> t = [] \<and> cs = [(1, w)])"
  unfolding body_rx_def by (simp only: rx_parts) (auto simp: line_text_def)

lemma body_pathE:
  assumes "rx_path body_rx i s [] [] t cs"
  obtains w where "s = crlf @ crlf @ w" "line_text w" "cs = [(1, w)]"
  using assms unfolding body_path by (elim exE conjE) (rule that)

lemma blank_line_unique:
  assumes "x @ crlf @ crlf @ w = y @ crlf @ crlf @ v" and "cr \<notin> set w" and "cr \<notin> set v"
  shows "w = v"
proof -
  have last: "takeWhile (\<lambda>c. c \<noteq> cr) (rev (z @ crlf @ crlf @ u)) = rev u @ [lf]"
    if "cr \<notin> set u" for z u
  proof -
    have "takeWhile (\<lambda>c. c \<noteq> cr) (rev u @ lf # cr # lf # cr # rev z)
        = rev u @ takeWhile (\<lambda>c. c \<noteq> cr) (lf # cr # lf # cr # rev z)"
      using that by (intro takeWhile_append2) auto
    then show ?thesis by simp
  qed
  have "rev w @ [lf] = rev v @ [lf]"
    using last [OF assms(2), of x] last [OF assms(3), of y] by (simp only: assms(1))
  then show ?thesis by simp
qed

lemma body_search:
  assumes "line_text w"
  shows "regex_search body_rx (x @ crlf @ crlf @ w) = Some [(1, w)]"
proof -
  have "rx_path body_rx (length x) (crlf @ crlf @ w) [] [] [] [(1, w)]"
    unfolding body_path using assms by (intro exI conjI) (rule refl | assumption)+
  then have "regex_search body_rx (x @ crlf @ crlf @ w) \<noteq> None"
    unfolding regex_search_iff by (intro exI conjI) (rule refl | assumption)+
  then obtain t cs where r: "rx_search_from body_rx 0 (x @ crlf @ crlf @ w) = Some (t, cs)"
    by (auto simp: regex_search_def)
  obtain y z where z: "x @ crlf @ crlf @ w = y @ z"
    and p: "rx_path body_rx (0 + length y) z [] [] t cs"
    using rx_search_from_path [OF r] by (elim exE conjE) (rule that)
  from p obtain v where v: "z = crlf @ crlf @ v" "line_text v" "cs = [(1, v)]"
    by (rule body_pathE)
  have "cr \<notin> set w" "cr \<notin> set v" using assms v(2) by (auto simp: line_text_def)
  then have "w = v" using z unfolding v(1) by (rule blank_line_unique [rotated])
  then show ?thesis using r v(3) by (simp add: regex_search_def)
qed

text \<open>A body with a line feed (and an empty one) is not found.\<close>

lemma body_search_none:
  assumes "cr \<notin> set w" and "\<not> line_text w"
  shows "regex_search body_rx (x @ crlf @ crlf @ w) = None"
proof (rule ccontr)
  assume "regex_search body_rx (x @ crlf @ crlf @ w) \<noteq> None"
  then obtain y z t cs where z: "x @ crlf @ crlf @ w = y @ z"
    and p: "rx_path body_rx (length y) z [] [] t cs"
    unfolding regex_search_iff by (elim exE conjE) (rule that)
  from p obtain v where v: "z = crlf @ crlf @ v" "line_text v" "cs = [(1, v)]"
    by (rule body_pathE)
  have "cr \<notin> set v" using v(2) by (auto simp: line_text_def)
  with z have "w = v" unfolding v(1) by (rule blank_line_unique [OF _ assms(1)])
  then show False using assms(2) v(2) by simp
qed

section \<open>The constructor\<close>

lemma parse_query_string_True [simp]: "fst (parse_query_string r) = True"
  by (simp add: parse_query_string_def split: option.split)

lemma parse_query_string_keeps [simp]:
  "raw_request (snd (parse_query_string r)) = raw_request r"
  "request_headers (snd (parse_query_string r)) = request_headers r"
  "request_body (snd (parse_query_string r)) = request_body r"
  "req_method (snd (parse_query_string r)) = req_method r"
  by (simp_all add: parse_query_string_def split: option.split)

definition blank_request :: "string \<Rightarrow> request" where
  "blank_request bytes =
     \<lparr>raw_request = bytes, request_size = length bytes, req_method = [], req_uri = [],
      request_headers = [], request_body = [], query_string = [], req_valid = False\<rparr>"

text \<open>The constructor in one equation: parse failure leaves everything empty.\<close>

definition found_headers :: "string \<Rightarrow> (string, string) umap" where
  "found_headers bytes = fold umap_insert (map pair_of (regex_matches header_rx bytes)) []"

definition found_body :: "string \<Rightarrow> string" where
  "found_body bytes = (case regex_search body_rx bytes of None \<Rightarrow> [] | Some m \<Rightarrow> str_of m 1)"

lemma new_request_eq:
  "new_request bytes =
     (case regex_search status_line_rx bytes of
        None \<Rightarrow> blank_request bytes
      | Some m \<Rightarrow>
          (snd (parse_query_string
             ((blank_request bytes)\<lparr>req_method := str_of m 1, req_uri := str_of m 2\<rparr>)))
            \<lparr>request_headers := found_headers bytes, request_body := found_body bytes,
             req_valid := True\<rparr>)"
proof (cases "regex_search status_line_rx bytes")
  case (Some m)
  let ?r = "parse_query_string ((blank_request bytes)\<lparr>req_method := str_of m 1, req_uri := str_of m 2\<rparr>)"
  have "parse_status_line bytes (blank_request bytes) = (True, snd ?r)"
    using Some by (simp add: parse_status_line_def prod_eq_iff)
  moreover have "parse_body bytes r = (True, r\<lparr>request_body := found_body bytes\<rparr>)"
    if "request_body r = []" for r
    using that by (simp add: parse_body_def found_body_def split: option.split)
  moreover have "raw_request (blank_request bytes) = bytes"
      "(blank_request bytes)\<lparr>req_valid := False\<rparr> = blank_request bytes"
      "request_headers (blank_request bytes) = []" "request_body (blank_request bytes) = []"
    by (simp_all add: blank_request_def)
  ultimately show ?thesis
    using Some unfolding new_request_def blank_request_def [symmetric]
    by (simp add: parse_request_def parse_headers_def found_headers_def)
next
  case None
  then show ?thesis
    by (simp add: new_request_def parse_request_def parse_status_line_def blank_request_def)
qed

lemma new_request_raw [simp]: "raw_request (new_request bytes) = bytes"
  by (simp add: new_request_eq blank_request_def split: option.split)

lemma new_request_line:
  assumes "word_text m" "line_text u" "is_digit a" "is_digit b"
  shows "new_request (request_line m u a b @ t) =
    (snd (parse_query_string
       ((blank_request (request_line m u a b @ t))\<lparr>req_method := m, req_uri := u\<rparr>)))
      \<lparr>request_headers := found_headers (request_line m u a b @ t),
       request_body := found_body (request_line m u a b @ t), req_valid := True\<rparr>"
  using status_line_search [OF assms, of t] by (simp add: new_request_eq)

lemma new_request_uri:
  assumes "word_text m" "line_text u" "is_digit a" "is_digit b" "CHR ''?'' \<notin> set (tl u)"
  shows "req_uri (new_request (request_line m u a b @ t)) = u"
  using query_split_none [OF assms(5)] new_request_line [OF assms(1-4), of t]
  by (simp add: parse_query_string_def)

text \<open>A request as a client writes it.\<close>

definition request_text ::
  "string \<Rightarrow> string \<Rightarrow> char \<Rightarrow> char \<Rightarrow> (string \<times> string) list \<Rightarrow> string \<Rightarrow> string" where
  "request_text m u a b hs body =
     request_line m u a b @ concat (map header_line hs) @ crlf @ body"

lemma new_request_text:
  assumes "word_text m" "line_text u" "is_digit a" "is_digit b"
  shows "new_request (request_text m u a b hs body) =
    (snd (parse_query_string
       ((blank_request (request_text m u a b hs body))\<lparr>req_method := m, req_uri := u\<rparr>)))
      \<lparr>request_headers := found_headers (request_text m u a b hs body),
       request_body := found_body (request_text m u a b hs body), req_valid := True\<rparr>"
  unfolding request_text_def by (rule new_request_line [OF assms])

lemma found_headers_text:
  assumes "word_text m" "line_text u" "is_digit a" "is_digit b"
    and "\<forall>h \<in> set hs. header_ok h" and "cr \<notin> set body"
  shows "umap_find (found_headers (request_text m u a b hs body)) = map_of hs"
proof -
  let ?pre = "m @ '' '' @ u @ '' HTTP/'' @ [a, CHR ''.'', b, cr]"
  have "lf \<notin> set m" using assms(1) is_word_not(2) unfolding word_text_def by metis
  moreover have "lf \<notin> set u" using assms(2) unfolding line_text_def by metis
  moreover have "lf \<noteq> a" "lf \<noteq> b" using assms(3,4) is_digit_word is_word_not(2) by metis+
  ultimately have "lf \<notin> set ?pre" by simp
  then have "map pair_of (regex_matches header_rx (request_text m u a b hs body)) = hs"
    using header_matches [of ?pre hs body] assms(5,6)
    by (simp add: request_text_def request_line_def)
  then show ?thesis
    using umap.find_fold_ins [of "[]" hs] by (simp add: found_headers_def)
qed

lemma request_text_crlf:
  "\<exists>x. request_text m u a b hs body = x @ crlf @ crlf @ body"
proof (cases hs rule: rev_exhaust)
  case Nil
  then show ?thesis
    by (intro exI [of _ "m @ '' '' @ u @ '' HTTP/'' @ [a, CHR ''.'', b]"])
      (simp add: request_text_def request_line_def)
next
  case (snoc hs' h)
  then show ?thesis
    by (intro exI [of _ "request_line m u a b @ concat (map header_line hs')
          @ fst h @ '': '' @ snd h"])
      (simp add: request_text_def header_line_def)
qed

lemma found_body_tail:
  assumes "cr \<notin> set body"
  shows "found_body (x @ crlf @ crlf @ body) = (if lf \<in> set body then [] else body)"
proof (cases "line_text body")
  case True
  then show ?thesis using body_search [OF True, of x] by (auto simp: found_body_def line_text_def)
next
  case False
  then have "body = [] \<or> lf \<in> set body" using assms by (auto simp: line_text_def)
  then show ?thesis using body_search_none [OF assms False, of x] by (auto simp: found_body_def)
qed

lemma found_body_text:
  assumes "cr \<notin> set body"
  shows "found_body (request_text m u a b hs body) = (if lf \<in> set body then [] else body)"
proof -
  obtain x where "request_text m u a b hs body = x @ crlf @ crlf @ body"
    using request_text_crlf by blast
  then show ?thesis using found_body_tail [OF assms, of x] by simp
qed

section \<open>Properties\<close>

text \<open>
  C22. Validity: a request is valid exactly when its bytes begin with a request line, that is,
  a word, a blank, a non-empty text without line feed or carriage return, the text
  \<open> HTTP/d.d\<close> with two digits, and CR LF. Nothing in the headers or the body makes a request
  invalid.
\<close>

theorem request_valid_iff:
  "req_valid (new_request bytes) \<longleftrightarrow>
     (\<exists>m u a b t. bytes = request_line m u a b @ t \<and> word_text m \<and> line_text u
        \<and> is_digit a \<and> is_digit b)"
  unfolding status_line_search_iff [symmetric]
  by (simp add: new_request_eq blank_request_def split: option.split)

text \<open>
  C16. Reading back a well-formed request: for a method (a word), a URI without question mark
  and without line breaks, header lines whose names and values have no line breaks and whose
  values have no colon followed by a blank, and a body without line breaks, the constructor
  finds exactly the method, the URI and the body, and a lookup of a header returns the value
  of the first line with that name, or the empty string.
\<close>

theorem request_reads_back:
  assumes "word_text m" and "line_text u" and "CHR ''?'' \<notin> set u"
    and "is_digit a" and "is_digit b"
    and "\<forall>h \<in> set hs. header_ok h" and "lf \<notin> set body \<and> cr \<notin> set body"
  shows "req_valid (new_request (request_text m u a b hs body))
    \<and> req_method (new_request (request_text m u a b hs body)) = m
    \<and> req_uri (new_request (request_text m u a b hs body)) = u
    \<and> request_body (new_request (request_text m u a b hs body)) = body
    \<and> get_header (new_request (request_text m u a b hs body)) n
        = (case map_of hs n of Some v \<Rightarrow> v | None \<Rightarrow> [])"
proof -
  have "CHR ''?'' \<notin> set (tl u)" using assms(3) by (cases u) auto
  then have "req_uri (new_request (request_text m u a b hs body)) = u"
    unfolding request_text_def by (rule new_request_uri [OF assms(1,2,4,5)])
  moreover have "found_body (request_text m u a b hs body) = body"
    using found_body_text assms(7) by simp
  ultimately show ?thesis
    using new_request_text [OF assms(1,2,4,5), of hs body]
      found_headers_text [OF assms(1,2,4,5,6), of body] assms(7)
    by (simp add: get_header_def)
qed

lemma request_reads_back_witness:
  "req_valid (new_request (request_text ''POST'' ''/memes'' (CHR ''1'') (CHR ''1'')
        [(''Host'', ''a.b''), (''Accept'', ''*/*''), (''Host'', ''c'')] ''x=1''))
    \<and> req_method (new_request (request_text ''POST'' ''/memes'' (CHR ''1'') (CHR ''1'')
        [(''Host'', ''a.b''), (''Accept'', ''*/*''), (''Host'', ''c'')] ''x=1'')) = ''POST''
    \<and> req_uri (new_request (request_text ''POST'' ''/memes'' (CHR ''1'') (CHR ''1'')
        [(''Host'', ''a.b''), (''Accept'', ''*/*''), (''Host'', ''c'')] ''x=1'')) = ''/memes''
    \<and> request_body (new_request (request_text ''POST'' ''/memes'' (CHR ''1'') (CHR ''1'')
        [(''Host'', ''a.b''), (''Accept'', ''*/*''), (''Host'', ''c'')] ''x=1'')) = ''x=1''
    \<and> get_header (new_request (request_text ''POST'' ''/memes'' (CHR ''1'') (CHR ''1'')
        [(''Host'', ''a.b''), (''Accept'', ''*/*''), (''Host'', ''c'')] ''x=1'')) ''Host''
        = (case map_of [(''Host'', ''a.b''), (''Accept'', ''*/*''), (''Host'', ''c'')] ''Host'' of
             Some v \<Rightarrow> v | None \<Rightarrow> [])"
  by (rule request_reads_back)
    (simp_all add: word_text_def line_text_def header_ok_def no_separator_def sublist_Cons_right
      is_word_def is_digit_def is_upper_def is_lower_def less_eq_char_def)

text \<open>
  A body that spans lines is lost: if the body contains a line feed (and no carriage
  return), the request is still valid but its body is read as the empty string, because the
  pattern for the body wants one line up to the end of the input.
\<close>

theorem multiline_body_lost:
  assumes "word_text m" and "line_text u" and "is_digit a" and "is_digit b"
    and "lf \<in> set body" and "cr \<notin> set body"
  shows "req_valid (new_request (request_text m u a b hs body))
    \<and> request_body (new_request (request_text m u a b hs body)) = []"
  using new_request_text [OF assms(1-4), of hs body]
    found_body_text [OF assms(6), of m u a b hs] assms(5)
  by simp

lemma multiline_body_lost_witness:
  "req_valid (new_request (request_text ''POST'' ''/memes'' (CHR ''1'') (CHR ''1'') []
        (''a=1'' @ [lf] @ ''b=2'')))
    \<and> request_body (new_request (request_text ''POST'' ''/memes'' (CHR ''1'') (CHR ''1'') []
        (''a=1'' @ [lf] @ ''b=2''))) = []"
  by (rule multiline_body_lost)
    (simp_all add: word_text_def line_text_def
      is_word_def is_digit_def is_upper_def is_lower_def less_eq_char_def)

text \<open>
  The URI a handler sees has no query string: in a valid request whose URI is \<open>p?q\<close>, with
  \<open>q\<close> free of further question marks, the recorded URI is \<open>p\<close>.
\<close>

theorem query_string_cut_off:
  assumes "word_text m" and "line_text p" and "line_text (p @ CHR ''?'' # q)"
    and "CHR ''?'' \<notin> set q" and "is_digit a" and "is_digit b"
  shows "req_uri (new_request (request_line m (p @ CHR ''?'' # q) a b @ t)) = p"
proof -
  have "\<forall>c \<in> set q. line_char c" using assms(3) by (auto simp: line_text_def)
  then show ?thesis
    using query_split_last [OF assms(2) _ assms(4)]
      new_request_line [OF assms(1,3,5,6), of t]
    by (simp add: parse_query_string_def)
qed

lemma query_string_cut_off_witness:
  "req_uri (new_request (request_line ''GET'' (''/view'' @ CHR ''?'' # ''id=7'')
      (CHR ''1'') (CHR ''1'') @ crlf)) = ''/view''"
  by (rule query_string_cut_off)
    (simp_all add: word_text_def line_text_def
      is_word_def is_digit_def is_upper_def is_lower_def less_eq_char_def)

text \<open>
  Query parameters keep one character of their value: whatever the request is, every
  value in its query string map has length 1, because the pattern's lazy group for the value
  is followed by a group that may be empty. A lookup therefore returns at most one character.
\<close>

theorem query_values_one_char: "length (get_query_string_param (new_request bytes) name) \<le> 1"
proof -
  have "\<forall>(k, v) \<in> set (query_string (new_request bytes)). length v = 1"
  proof (cases "regex_search status_line_rx bytes")
    case (Some m)
    then show ?thesis
      using parse_query_string_values
        [of "(blank_request bytes)\<lparr>req_method := str_of m 1, req_uri := str_of m 2\<rparr>"]
      by (simp add: new_request_eq blank_request_def)
  qed (simp add: new_request_eq blank_request_def)
  then show ?thesis
    by (fastforce simp: get_query_string_param_def umap_find_def split: option.split
        dest: map_of_SomeD)
qed

end
