(* ===== verification/Response.thy ===== *)
theory Response
  imports Request Cpp_Text
begin

text \<open>
  \<open>src/response.cc\<close> and \<open>include/response_codes.h\<close>: status code, header map and body of a
  response, and its serialisation. The header map is a hash map whose enumeration order is
  not specified: serialisation takes the order \<open>ord\<close>. The status code is an unsigned integer
  on which the sources do no arithmetic.
\<close>

section \<open>State\<close>

record response =
  status_code :: nat
  response_headers :: "(string, string) umap"
  response_body :: string
  response_text :: string

type_synonym header_order = "(string \<times> string) list \<Rightarrow> (string \<times> string) list"

definition new_response :: "nat \<Rightarrow> string \<Rightarrow> response" where
  "new_response sc body =
     \<lparr>status_code = sc, response_headers = [], response_body = body, response_text = []\<rparr>"

section \<open>Operations\<close>

definition response_codes :: "(nat, string) umap" where
  "response_codes =
     [(200, ''OK''), (201, ''Created''), (303, ''See Other''), (400, ''Bad Request''),
      (404, ''Not Found''), (405, ''Method Not Allowed''), (500, ''Internal Server Error'')]"

definition get_status_word :: "nat \<Rightarrow> string" where
  "get_status_word status =
     (case umap_find response_codes status of Some w \<Rightarrow> w | None \<Rightarrow> [])"

definition resp_get_header :: "string \<Rightarrow> response \<Rightarrow> string" where
  "resp_get_header name r =
     (case umap_find (response_headers r) name of Some v \<Rightarrow> v | None \<Rightarrow> [])"

definition set_header :: "string \<Rightarrow> string \<Rightarrow> response \<Rightarrow> response" where
  "set_header h_name h_value r =
     (case umap_find (response_headers r) h_name of
        Some _ \<Rightarrow>
          r\<lparr>response_headers := umap_replace h_name h_value (response_headers r)\<rparr>
      | None \<Rightarrow> r\<lparr>response_headers := umap_insert (h_name, h_value) (response_headers r)\<rparr>)"

definition set_status_code :: "nat \<Rightarrow> response \<Rightarrow> response" where
  "set_status_code sc r = r\<lparr>status_code := sc\<rparr>"

definition set_body :: "string \<Rightarrow> response \<Rightarrow> response" where
  "set_body body r = r\<lparr>response_body := body\<rparr>"

definition generate_status_line :: "response \<Rightarrow> string" where
  "generate_status_line r =
     ''HTTP/1.1 '' @ nat_string (status_code r) @ '' '' @ get_status_word (status_code r) @ crlf"

definition generate_header_lines :: "header_order \<Rightarrow> response \<Rightarrow> string" where
  "generate_header_lines ord r =
     concat (map (\<lambda>h. fst h @ '': '' @ snd h @ crlf) (ord (response_headers r))) @ crlf"

definition generate_response :: "header_order \<Rightarrow> response \<Rightarrow> string \<times> response" where
  "generate_response ord r =
     (let output = generate_status_line r @ generate_header_lines ord r @ response_body r
      in (output, r\<lparr>response_text := output\<rparr>))"

section \<open>The header map\<close>

lemma set_header_assign:
  "set_header n v r = r\<lparr>response_headers := umap_assign (n, v) (response_headers r)\<rparr>"
  by (simp add: set_header_def umap_assign_def split: option.split)

lemma set_header_keeps [simp]:
  "status_code (set_header n v r) = status_code r"
  "response_body (set_header n v r) = response_body r"
  by (simp_all add: set_header_assign)

lemma set_header_wf [simp]:
  "umap_wf (response_headers r) \<Longrightarrow> umap_wf (response_headers (set_header n v r))"
  by (simp add: set_header_assign umap.wf_asg)

lemma set_header_find:
  "umap_wf (response_headers r) \<Longrightarrow>
     umap_find (response_headers (set_header n v r)) = (umap_find (response_headers r))(n \<mapsto> v)"
  by (simp add: set_header_assign umap.find_asg)

lemma new_response_simps [simp]:
  "status_code (new_response sc b) = sc"
  "response_body (new_response sc b) = b"
  "response_headers (new_response sc b) = []"
  by (simp_all add: new_response_def)

lemma set_body_simps [simp]:
  "status_code (set_body b r) = status_code r"
  "response_body (set_body b r) = b"
  "response_headers (set_body b r) = response_headers r"
  by (simp_all add: set_body_def)

text \<open>Setting a list of headers one by one, as the router does with its defaults.\<close>

lemma fold_set_header:
  "fold (\<lambda>h. set_header (fst h) (snd h)) hs r
     = r\<lparr>response_headers := fold umap_assign hs (response_headers r)\<rparr>"
  by (induction hs arbitrary: r) (simp_all add: set_header_assign)

section \<open>Serialisation\<close>

lemma response_codes_simps:
  "status \<in> {200, 201, 303, 400, 404, 405, 500} \<longleftrightarrow> umap_find response_codes status \<noteq> None"
  by (auto simp: response_codes_def umap_find_def)

lemma get_status_word_line: "lf \<notin> set (get_status_word sc)"
  by (simp add: get_status_word_def umap_find_def response_codes_def)

lemma nat_string_no_lf: "lf \<notin> set (nat_string n)"
proof
  assume "lf \<in> set (nat_string n)"
  then have "is_digit lf" by (rule nat_string_digits)
  then show False using is_digit_word is_word_not(2) by metis
qed

text \<open>A serialised response: everything before the first line feed, then the header lines.\<close>

lemma generate_response_shape:
  "fst (generate_response ord r) =
     (''HTTP/1.1 '' @ nat_string (status_code r) @ '' '' @ get_status_word (status_code r) @ [cr])
       @ lf # concat (map header_line (ord (response_headers r))) @ crlf @ response_body r"
proof -
  have "header_line = (\<lambda>h. fst h @ '': '' @ snd h @ crlf)"
    by (rule ext) (simp add: header_line_def)
  then show ?thesis
    by (simp add: generate_response_def generate_status_line_def generate_header_lines_def Let_def)
qed

lemma header_lines_blank_line:
  "\<exists>x. w @ crlf @ concat (map header_line hs) @ crlf @ b = x @ crlf @ crlf @ b"
proof (cases hs rule: rev_exhaust)
  case Nil
  show ?thesis by (rule exI [of _ w]) (simp only: Nil list.map concat.simps append_Nil)
next
  case (snoc hs' h)
  let ?x = "w @ crlf @ concat (map header_line hs') @ fst h @ '': '' @ snd h"
  show ?thesis
    by (rule exI [of _ ?x]) (simp only: snoc header_line_def map_append concat_append append.assoc
        list.map concat.simps append_Nil append_Nil2)
qed

lemma generate_response_crlf:
  "\<exists>x. fst (generate_response ord r) = x @ crlf @ crlf @ response_body r"
  using header_lines_blank_line
    [of "''HTTP/1.1 '' @ nat_string (status_code r) @ '' '' @ get_status_word (status_code r)"
      "ord (response_headers r)" "response_body r"]
  by (simp only: generate_response_shape append.simps append.assoc)

section \<open>Properties\<close>

text \<open>
  C17. A response can be read back: for every enumeration order of the header map, if names and
  values are free of line breaks and values of a colon followed by a blank, and the body is a
  text without line breaks, then reading the header lines and the body of the serialised
  response with the patterns the server reads requests with gives the header map and the body
  of the response.
\<close>

theorem response_reads_back:
  assumes "enumerates ord" and "umap_wf (response_headers r)"
    and "\<forall>h \<in> set (response_headers r). header_ok h"
    and "lf \<notin> set (response_body r) \<and> cr \<notin> set (response_body r)"
  shows "umap_find (found_headers (fst (generate_response ord r))) = umap_find (response_headers r)
    \<and> found_body (fst (generate_response ord r)) = response_body r"
proof
  let ?pre = "''HTTP/1.1 '' @ nat_string (status_code r) @ '' ''
      @ get_status_word (status_code r) @ [cr]"
  have "lf \<notin> set ?pre" using nat_string_no_lf get_status_word_line by simp
  moreover have "\<forall>h \<in> set (ord (response_headers r)). header_ok h"
    using assms(3) enumerates_set [OF assms(1)] by simp
  ultimately have "map pair_of (regex_matches header_rx (fst (generate_response ord r)))
      = ord (response_headers r)"
    unfolding generate_response_shape using assms(4) header_matches by blast
  then show "umap_find (found_headers (fst (generate_response ord r)))
      = umap_find (response_headers r)"
    using enumerates_map_of [OF assms(1,2)] umap.find_fold_ins [of "[] :: (string, string) umap"]
    by (simp add: found_headers_def umap_find_map_of)
next
  obtain x where x: "fst (generate_response ord r) = x @ crlf @ crlf @ response_body r"
    using generate_response_crlf by blast
  show "found_body (fst (generate_response ord r)) = response_body r"
    unfolding x using assms(4) found_body_tail by auto
qed

lemma response_reads_back_witness:
  "umap_find (found_headers (fst (generate_response rev
        (set_header ''Content-Type'' ''text/plain'' (set_header ''X'' ''1'' (new_response 404 ''gone''))))))
      = umap_find (response_headers
        (set_header ''Content-Type'' ''text/plain'' (set_header ''X'' ''1'' (new_response 404 ''gone''))))
    \<and> found_body (fst (generate_response rev
        (set_header ''Content-Type'' ''text/plain'' (set_header ''X'' ''1'' (new_response 404 ''gone'')))))
      = response_body
        (set_header ''Content-Type'' ''text/plain'' (set_header ''X'' ''1'' (new_response 404 ''gone'')))"
  by (rule response_reads_back)
    (simp_all add: enumerates_rev set_header_def umap_insert_def umap_find_def header_ok_def
      line_text_def no_separator_def sublist_Cons_right new_response_def umap_wf_def)

end
