(* ===== verification/Route_Handler.thy ===== *)
theory Route_Handler
  imports Response Config_Parser
begin

text \<open>
  \<open>include/route_handler.h\<close>: what every handler is given (its block of the configuration, which
  is a null pointer when the router finds none, and the server root) and what it promises.

  The locale \<open>route_handler\<close> is the interface the router and the session rely on: a handler
  maps a request and the state it may change to a response or a fault, and a response it
  returns has a status the server has a reason phrase for and a header map in which every name
  occurs once. Each handler's theory interprets it; the dispatching theory interprets it for
  the handler the router selects.
\<close>

section \<open>Data\<close>

text \<open>\<open>std::shared_ptr<NginxConfig> config_\<close> and \<open>root_path_\<close>.\<close>

record route_handler_base =
  config_ptr :: "block option"
  root_path :: string

text \<open>Looping over \<open>config_->statements_\<close> dereferences the pointer.\<close>

definition config_statements :: "block option \<Rightarrow> block result" where
  "config_statements config =
     (case config of None \<Rightarrow> Inl Undefined_behaviour | Some b \<Rightarrow> Inr b)"

text \<open>Most responses are built from a status, a body and their content type.\<close>

definition typed_response :: "nat \<Rightarrow> string \<Rightarrow> string \<Rightarrow> response" where
  "typed_response sc body mime = set_header ''Content-Type'' mime (new_response sc body)"

lemma typed_response_simps [simp]:
  "status_code (typed_response sc b mime) = sc"
  "response_body (typed_response sc b mime) = b"
  "umap_wf (response_headers (typed_response sc b mime))"
  "resp_get_header ''Content-Type'' (typed_response sc b mime) = mime"
  by (simp_all add: typed_response_def resp_get_header_def set_header_find)

text \<open>A property of the response a handler returns, when it returns one.\<close>

definition returns :: "(response \<Rightarrow> bool) \<Rightarrow> response result \<Rightarrow> bool" where
  "returns P r \<longleftrightarrow> (case r of Inl e \<Rightarrow> True | Inr resp \<Rightarrow> P resp)"

lemma returns_simps [simp]:
  "returns P (Inl e)"
  "returns P (Inr r) = P r"
  by (simp_all add: returns_def)

lemma returnsI: "(\<And>resp. r = Inr resp \<Longrightarrow> P resp) \<Longrightarrow> returns P r"
  by (cases r) simp_all

lemma returns_bind: "(\<And>x. m = Inr x \<Longrightarrow> returns P (f x)) \<Longrightarrow> returns P (result_bind m f)"
  by (cases m) simp_all

definition served_ok :: "response \<Rightarrow> bool" where
  "served_ok resp \<longleftrightarrow>
     umap_find response_codes (status_code resp) \<noteq> None \<and> umap_wf (response_headers resp)"

lemma known_status [simp]:
  "umap_find response_codes 200 \<noteq> None" "umap_find response_codes 201 \<noteq> None"
  "umap_find response_codes 303 \<noteq> None" "umap_find response_codes 400 \<noteq> None"
  "umap_find response_codes 404 \<noteq> None" "umap_find response_codes 405 \<noteq> None"
  "umap_find response_codes 500 \<noteq> None"
  by (simp_all add: response_codes_def umap_find_def)

lemma typed_response_served [simp]:
  "served_ok (typed_response sc b mime) \<longleftrightarrow> umap_find response_codes sc \<noteq> None"
  by (simp add: served_ok_def)

lemma set_header_served [simp]: "served_ok r \<Longrightarrow> served_ok (set_header n v r)"
  by (simp add: served_ok_def)

lemma set_body_served [simp]: "served_ok r \<Longrightarrow> served_ok (set_body b r)"
  by (simp add: served_ok_def)

lemma new_response_served [simp]:
  "served_ok (new_response sc b) \<longleftrightarrow> umap_find response_codes sc \<noteq> None"
  by (simp add: served_ok_def)

section \<open>The interface\<close>

locale route_handler =
  fixes handle_request :: "request \<Rightarrow> 's \<Rightarrow> response result \<times> 's"
  assumes served: "returns served_ok (fst (handle_request req s))"
begin

lemma status_known:
  assumes "handle_request req s = (Inr resp, s')"
  shows "umap_find response_codes (status_code resp) \<noteq> None"
  using served [of req s] assms by (simp add: served_ok_def)

lemma headers_wf:
  assumes "handle_request req s = (Inr resp, s')"
  shows "umap_wf (response_headers resp)"
  using served [of req s] assms by (simp add: served_ok_def)

text \<open>The status line of a handler's response always has a reason phrase.\<close>

lemma reason_phrase:
  assumes "handle_request req s = (Inr resp, s')"
  shows "get_status_word (status_code resp) \<noteq> []"
proof -
  have "umap_find response_codes sc = Some w \<Longrightarrow> w \<noteq> []" for sc w
    by (auto simp: response_codes_def umap_find_def split: if_splits)
  then show ?thesis
    using status_known [OF assms] by (auto simp: get_status_word_def split: option.split)
qed

text \<open>Headers the router adds leave the promises intact.\<close>

lemma served_with_headers:
  assumes "handle_request req s = (Inr resp, s')"
  shows "served_ok (fold (\<lambda>h. set_header (fst h) (snd h)) hs resp)"
proof -
  have "served_ok resp" using served [of req s] assms by simp
  then show ?thesis by (induction hs arbitrary: resp) simp_all
qed

end

end
