(* ===== verification/Static_File_Handler.thy ===== *)
theory Static_File_Handler
  imports Route_Handler
begin

text \<open>
  \<open>src/static_file_handler.cc\<close> and \<open>include/mime_types.h\<close>. The file system is a parameter: the
  contents of each path that opens for reading (a path that opens and cannot be read, such as
  a directory, has the empty contents the stream then holds). The handler's \<open>catch (int)\<close>
  branch is unreachable, since nothing in the block throws an \<open>int\<close>.
\<close>

section \<open>State\<close>

record static_file_handler = route_handler_base +
  sf_path :: string

type_synonym file_system = "string \<Rightarrow> string option"

section \<open>Operations\<close>

definition mime_types :: "(string, string) umap" where
  "mime_types =
     [(''.txt'', ''text/plain''), (''.html'', ''text/html''), (''.htm'', ''text/html''),
      (''.jpg'', ''image/jpeg''), (''.jpeg'', ''image/jpeg''), (''.zip'', ''application/zip''),
      (''.json'', ''application/json''), (''.xml'', ''application/xml''), (''.css'', ''text/css''),
      (''.js'', ''application/javascript''), (''.ico'', ''image/x-icon'')]"

definition get_mime_type :: "string \<Rightarrow> string" where
  "get_mime_type extension =
     (case umap_find mime_types extension of
        Some m \<Rightarrow> m
      | None \<Rightarrow> ''application/octet-stream'')"

text \<open>The last \<open>root\<close> statement with exactly two tokens.\<close>

fun root_statement :: "string \<Rightarrow> block \<Rightarrow> string" where
  "root_statement output [] = output"
| "root_statement output (st # b) =
     (if length (tokens st) = 2 \<and> tokens st ! 0 = ''root''
      then root_statement (tokens st ! 1) b else root_statement output b)"

definition get_static_file_path :: "block option \<Rightarrow> string result" where
  "get_static_file_path config =
     result_bind (config_statements config) (\<lambda>b. Inr (root_statement [] b))"

definition create_static_handler :: "block option \<Rightarrow> string \<Rightarrow> static_file_handler result" where
  "create_static_handler config root =
     result_bind (get_static_file_path config) (\<lambda>p.
       Inr \<lparr>config_ptr = config, root_path = root, sf_path = root @ p\<rparr>)"

definition file_info_rx :: pattern where
  "file_info_rx =
     lits ''/'' @ group 1 (plus Word) @ group 2 (lits ''.'' @ plus Word) @ [Eol]"

definition parse_file_info :: "string \<Rightarrow> string list" where
  "parse_file_info uri =
     (case regex_search file_info_rx uri of
        None \<Rightarrow> []
      | Some m \<Rightarrow> [str_of m 1, str_of m 2])"

definition file_not_found :: response where
  "file_not_found =
     typed_response 404 (''The requested file could not be found!'' @ [lf]) ''text/plain''"

definition serve_file :: "file_system \<Rightarrow> static_file_handler \<Rightarrow> request \<Rightarrow> response" where
  "serve_file fs h req =
     (let file_info = parse_file_info (req_uri req) in
      if length file_info < 2 then file_not_found
      else case fs (sf_path h @ ''/'' @ file_info ! 0 @ file_info ! 1) of
             None \<Rightarrow> file_not_found
           | Some f \<Rightarrow> typed_response 200 f (get_mime_type (file_info ! 1)))"

definition static_invalid_method :: "request \<Rightarrow> response" where
  "static_invalid_method req =
     typed_response 405 ''This route only supports the HTTP GET method!'' ''text/plain''"

definition static_handle_request ::
  "file_system \<Rightarrow> static_file_handler \<Rightarrow> request \<Rightarrow> response" where
  "static_handle_request fs h req =
     (if req_method req = ''GET'' then serve_file fs h req else static_invalid_method req)"

interpretation static_handler: route_handler "\<lambda>req s. (Inr (static_handle_request fs h req), s)"
  by unfold_locales
    (simp add: static_handle_request_def serve_file_def static_invalid_method_def
      file_not_found_def Let_def split: option.split)

section \<open>Which file a URI names\<close>

text \<open>The URI ends in a slash, a name, a dot and an extension.\<close>

definition names_file :: "string \<Rightarrow> string \<Rightarrow> string \<Rightarrow> bool" where
  "names_file uri name ext \<longleftrightarrow>
     (\<exists>p. uri = p @ ''/'' @ name @ ''.'' @ ext) \<and> word_text name \<and> word_text ext"

lemma file_info_path:
  "rx_path file_info_rx i s [] [] t cs \<longleftrightarrow>
     (\<exists>n e. s = ''/'' @ n @ ''.'' @ e \<and> word_text n \<and> word_text e \<and> t = []
        \<and> cs = [(2, ''.'' @ e), (1, n)])"
  unfolding file_info_rx_def
  by (simp only: rx_parts path_group_lits_plus) (auto simp: word_text_def)

lemma trailing_word:
  assumes "word_text e" and "\<not> is_word c"
  shows "takeWhile is_word (rev e @ c # x) = rev e"
  using assms by (subst takeWhile_append2) (auto simp: word_text_def)

lemma names_file_unique:
  assumes eq: "p @ ''/'' @ n @ ''.'' @ e = p' @ ''/'' @ n' @ ''.'' @ e'"
    and w: "word_text n" "word_text e" "word_text n'" "word_text e'"
  shows "n = n' \<and> e = e'"
proof -
  have r: "rev e @ CHR ''.'' # rev n @ CHR ''/'' # rev p
      = rev e' @ CHR ''.'' # rev n' @ CHR ''/'' # rev p'"
    using arg_cong [OF eq, of rev] by simp
  have e: "rev e = rev e'"
    using arg_cong [OF r, of "takeWhile is_word"] w
    by (simp add: trailing_word is_word_not)
  then have "rev n = rev n'"
    using arg_cong [OF r, of "\<lambda>s. takeWhile is_word (tl (drop (length (rev e)) s))"] w
    by (simp add: trailing_word is_word_not)
  then show ?thesis using e by simp
qed

lemma parse_file_info_hit:
  assumes "names_file uri n e"
  shows "parse_file_info uri = [n, ''.'' @ e]"
proof -
  obtain p where uri: "uri = p @ ''/'' @ n @ ''.'' @ e" and w: "word_text n" "word_text e"
    using assms by (auto simp: names_file_def)
  have "regex_search file_info_rx uri = Some [(2, ''.'' @ e), (1, n)]"
  proof (rule regex_search_only)
    show "\<exists>u v t cs. uri = u @ v \<and> rx_path file_info_rx (length u) v [] [] t cs"
      unfolding file_info_path using uri w by blast
  next
    fix u v t cs assume "uri = u @ v" "rx_path file_info_rx (length u) v [] [] t cs"
    then show "cs = [(2, ''.'' @ e), (1, n)]"
      unfolding file_info_path using uri w names_file_unique by blast
  qed
  then show ?thesis by (simp add: parse_file_info_def)
qed

lemma parse_file_info_miss:
  assumes "\<nexists>n e. names_file uri n e"
  shows "parse_file_info uri = []"
proof -
  have "regex_search file_info_rx uri = None"
  proof (rule ccontr)
    assume "regex_search file_info_rx uri \<noteq> None"
    then show False
      unfolding regex_search_iff file_info_path using assms names_file_def by blast
  qed
  then show ?thesis by (simp add: parse_file_info_def)
qed

section \<open>Properties\<close>

text \<open>
  C10. No path traversal: a request is answered with status 200 and some contents exactly when
  its method is GET, its URI ends in a slash, a name, a dot and an extension, both of word
  characters only, and the file of that name and extension directly in the configured
  directory has these contents. What stands before the last slash plays no part.
\<close>

theorem static_served_iff:
  "status_code (static_handle_request fs h req) = 200
     \<and> response_body (static_handle_request fs h req) = contents
   \<longleftrightarrow> req_method req = ''GET''
     \<and> (\<exists>name ext. names_file (req_uri req) name ext
          \<and> fs (sf_path h @ ''/'' @ name @ ''.'' @ ext) = Some contents)"
proof (cases "\<exists>n e. names_file (req_uri req) n e")
  case True
  then obtain n e where ne: "names_file (req_uri req) n e" by blast
  have "n' = n \<and> e' = e" if "names_file (req_uri req) n' e'" for n' e'
    using parse_file_info_hit [OF ne] parse_file_info_hit [OF that] by simp
  then have "(\<exists>name ext. names_file (req_uri req) name ext
        \<and> fs (sf_path h @ ''/'' @ name @ ''.'' @ ext) = Some contents)
      \<longleftrightarrow> fs (sf_path h @ ''/'' @ n @ ''.'' @ e) = Some contents"
    using ne by blast
  then show ?thesis
    by (auto simp: static_handle_request_def static_invalid_method_def serve_file_def
        parse_file_info_hit [OF ne] file_not_found_def split: option.splits)
next
  case False
  then show ?thesis
    using parse_file_info_miss
    by (simp add: static_handle_request_def static_invalid_method_def serve_file_def
        file_not_found_def)
qed

text \<open>
  The handler reads one file: two file systems that agree on the files directly in the
  configured directory, with a name and an extension of word characters, give the same
  response to every request.
\<close>

theorem static_reads_directory_only:
  assumes "\<And>name ext. word_text name \<Longrightarrow> word_text ext \<Longrightarrow>
    fs (sf_path h @ ''/'' @ name @ ''.'' @ ext) = fs' (sf_path h @ ''/'' @ name @ ''.'' @ ext)"
  shows "static_handle_request fs h req = static_handle_request fs' h req"
proof (cases "\<exists>n e. names_file (req_uri req) n e")
  case True
  then obtain n e where ne: "names_file (req_uri req) n e" by blast
  then have "word_text n" "word_text e" by (auto simp: names_file_def)
  then show ?thesis
    using assms by (simp add: static_handle_request_def serve_file_def parse_file_info_hit [OF ne])
next
  case False
  then show ?thesis
    using parse_file_info_miss by (simp add: static_handle_request_def serve_file_def)
qed

lemma static_reads_directory_only_witness:
  "static_handle_request [''/srv/a.txt'' \<mapsto> ''x'', ''/etc/passwd'' \<mapsto> ''secret'']
      \<lparr>config_ptr = None, root_path = [], sf_path = ''/srv''\<rparr> req
   = static_handle_request [''/srv/a.txt'' \<mapsto> ''x'']
      \<lparr>config_ptr = None, root_path = [], sf_path = ''/srv''\<rparr> req"
  by (rule static_reads_directory_only) simp

end
