(* ===== verification/Sql_Lib.thy ===== *)
theory Sql_Lib
  imports Cpp_Text
begin

text \<open>
  \<open>src/sql_lib.cc\<close>: the texts of the SQL statements, the values bound to their parameters and
  the reading of results. SQLite itself is third-party code: a record \<open>sqlite\<close> of functions on
  a database state \<open>'db\<close> that every operation takes.

  \<^item> \<open>sqlite_exec\<close> is \<open>sqlite3_exec\<close>: whether it returned \<open>SQLITE_OK\<close>, and the new state.
  \<^item> \<open>sqlite_query\<close> is one prepared statement, bound and stepped to its end: the rows the
    steps deliver (a column is \<open>None\<close> where \<open>sqlite3_column_text\<close> returns a null pointer),
    whether the last step returned \<open>SQLITE_DONE\<close>, and the new state. A text that does not
    compile delivers no row and does not end with \<open>SQLITE_DONE\<close>.

  Values are bound with length -1 and results are read as zero-terminated, so both are cut at
  a zero byte.
\<close>

section \<open>Data\<close>

type_synonym query_params = "(string \<times> string) list"

definition push :: "string \<Rightarrow> string \<Rightarrow> query_params \<Rightarrow> query_params" where
  "push key val qp = qp @ [(key, val)]"

record 'db sqlite =
  sqlite_open :: "string \<Rightarrow> 'db \<Rightarrow> bool \<times> 'db"
  sqlite_close :: "'db \<Rightarrow> bool \<times> 'db"
  sqlite_exec :: "string \<Rightarrow> 'db \<Rightarrow> bool \<times> 'db"
  sqlite_query :: "string \<Rightarrow> string list \<Rightarrow> 'db \<Rightarrow> string option list list \<times> bool \<times> 'db"

record sql_manager =
  db_name :: string

definition new_sql_manager :: "string \<Rightarrow> sql_manager" where
  "new_sql_manager name = \<lparr>db_name = name\<rparr>"

text \<open>\<open>c_str()\<close> read up to its terminator.\<close>

definition c_string :: "string \<Rightarrow> string" where
  "c_string s = takeWhile (\<lambda>c. c \<noteq> nul) s"

section \<open>The texts of the statements\<close>

text \<open>The loops that write one item per parameter, a separator between two and an end after the last.\<close>

fun separated :: "('a \<Rightarrow> string) \<Rightarrow> string \<Rightarrow> string \<Rightarrow> 'a list \<Rightarrow> string" where
  "separated f sep fin [] = []"
| "separated f sep fin [x] = f x @ fin"
| "separated f sep fin (x # y # xs) = f x @ sep @ separated f sep fin (y # xs)"

definition create_sql :: "string \<Rightarrow> query_params \<Rightarrow> string" where
  "create_sql table qp =
     ''CREATE TABLE IF NOT EXISTS '' @ table @ ''(''
       @ separated (\<lambda>(k, v). k @ '' '' @ v) '','' '');'' qp"

definition drop_sql :: "string \<Rightarrow> string" where
  "drop_sql table = ''DROP TABLE IF EXISTS '' @ table @ '';''"

definition insert_sql :: "string \<Rightarrow> query_params \<Rightarrow> string" where
  "insert_sql table qp =
     ''INSERT INTO '' @ table @ ''('' @ separated fst '','' '') VALUES('' qp
       @ separated (\<lambda>(i, _). ''?'' @ nat_string i) '','' '');'' (enumerate 1 qp)"

definition equals_param :: "nat \<times> string \<times> string \<Rightarrow> string" where
  "equals_param p = (case p of (i, k, _) \<Rightarrow> k @ ''= ?'' @ nat_string i)"

definition update_sql :: "string \<Rightarrow> query_params \<Rightarrow> query_params \<Rightarrow> string" where
  "update_sql table set_params where_params =
     ''UPDATE '' @ table @ '' SET ''
       @ separated equals_param '','' [] (enumerate 1 set_params)
       @ (if where_params = [] then [] else '' WHERE '')
       @ separated equals_param '' AND '' '';''
           (enumerate (1 + length set_params) where_params)"

definition delete_sql :: "string \<Rightarrow> query_params \<Rightarrow> string" where
  "delete_sql table qp =
     ''DELETE FROM '' @ table @ '' '' @ (if qp = [] then [] else ''WHERE '')
       @ separated equals_param '' AND '' '';'' (enumerate 1 qp)"

definition select_sql :: "string \<Rightarrow> query_params \<Rightarrow> string" where
  "select_sql table qp =
     ''SELECT * FROM '' @ table @ '' '' @ (if qp = [] then [] else ''WHERE '')
       @ separated equals_param '' AND '' '';'' (enumerate 1 qp)"

definition search_sql :: "string \<Rightarrow> query_params \<Rightarrow> string" where
  "search_sql table qp =
     ''SELECT * FROM '' @ table @ '' '' @ (if qp = [] then [] else ''WHERE '')
       @ separated
           (\<lambda>(i, k, _). k @ '' LIKE '' @ [CHR 0x27] @ ''%'' @ [CHR 0x27] @ '' || ?'' @ nat_string i
              @ ''|| '' @ [CHR 0x27] @ ''%'' @ [CHR 0x27])
           '' OR '' '';'' (enumerate 1 qp)"

section \<open>Operations\<close>

definition bound :: "query_params \<Rightarrow> string list" where
  "bound qp = map (\<lambda>p. c_string (snd p)) qp"

definition connect :: "'db sqlite \<Rightarrow> sql_manager \<Rightarrow> 'db \<Rightarrow> bool \<times> 'db" where
  "connect sq m db = sqlite_open sq (c_string (db_name m)) db"

definition disconnect :: "'db sqlite \<Rightarrow> sql_manager \<Rightarrow> 'db \<Rightarrow> bool \<times> 'db" where
  "disconnect sq m db = sqlite_close sq db"

definition create_table :: "'db sqlite \<Rightarrow> string \<Rightarrow> query_params \<Rightarrow> 'db \<Rightarrow> bool \<times> 'db" where
  "create_table sq table table_params db = sqlite_exec sq (c_string (create_sql table table_params)) db"

definition drop_table :: "'db sqlite \<Rightarrow> string \<Rightarrow> 'db \<Rightarrow> bool \<times> 'db" where
  "drop_table sq table db = sqlite_exec sq (c_string (drop_sql table)) db"

text \<open>One step that has to return \<open>SQLITE_DONE\<close> at once.\<close>

definition single_step :: "'db sqlite \<Rightarrow> string \<Rightarrow> string list \<Rightarrow> 'db \<Rightarrow> bool \<times> 'db" where
  "single_step sq q values db =
     (case sqlite_query sq (c_string q) values db of
        (rows, finished, db') \<Rightarrow> (rows = [] \<and> finished, db'))"

definition insert_record :: "'db sqlite \<Rightarrow> string \<Rightarrow> query_params \<Rightarrow> 'db \<Rightarrow> bool \<times> 'db" where
  "insert_record sq table table_params db =
     single_step sq (insert_sql table table_params) (bound table_params) db"

definition update_record ::
  "'db sqlite \<Rightarrow> string \<Rightarrow> query_params \<Rightarrow> query_params \<Rightarrow> 'db \<Rightarrow> bool \<times> 'db" where
  "update_record sq table set_params where_params db =
     single_step sq (update_sql table set_params where_params)
       (bound set_params @ bound where_params) db"

definition delete_record :: "'db sqlite \<Rightarrow> string \<Rightarrow> query_params \<Rightarrow> 'db \<Rightarrow> bool \<times> 'db" where
  "delete_record sq table table_params db =
     single_step sq (delete_sql table table_params) (bound table_params) db"

text \<open>
  The loop over the rows. A null column makes the constructor of \<open>std::string\<close> throw; an error
  in the middle ends the loop and what has been read is returned.
\<close>

definition column_text :: "string option \<Rightarrow> string result" where
  "column_text c = (case c of None \<Rightarrow> Inl (Throw Logic_error) | Some t \<Rightarrow> Inr (c_string t))"

definition all_rows :: "string option list list \<Rightarrow> string list list result" where
  "all_rows rows = map_res (map_res column_text) rows"

definition read_rows ::
  "'db sqlite \<Rightarrow> string \<Rightarrow> string list \<Rightarrow> 'db \<Rightarrow> string list list result \<times> 'db" where
  "read_rows sq q values db =
     (case sqlite_query sq (c_string q) values db of
        (rows, finished, db') \<Rightarrow> (all_rows rows, db'))"

definition select_record ::
  "'db sqlite \<Rightarrow> string \<Rightarrow> query_params \<Rightarrow> 'db \<Rightarrow> string list list result \<times> 'db" where
  "select_record sq table table_params db =
     read_rows sq (select_sql table table_params) (bound table_params) db"

definition search_record ::
  "'db sqlite \<Rightarrow> string \<Rightarrow> query_params \<Rightarrow> 'db \<Rightarrow> string list list result \<times> 'db" where
  "search_record sq table table_params db =
     read_rows sq (search_sql table table_params) (bound table_params) db"

section \<open>Lemmas\<close>

lemma separated_items: "separated f sep fin xs = separated (\<lambda>t. t) sep fin (map f xs)"
  by (induction xs rule: induct_list012) simp_all

lemma c_string_plain: "nul \<notin> set s \<Longrightarrow> c_string s = s"
  by (auto simp: c_string_def takeWhile_eq_all_conv)

lemma all_rows_Some:
  assumes "\<forall>r \<in> set rs. \<forall>t \<in> set r. nul \<notin> set t"
  shows "all_rows (map (map Some) rs) = Inr rs"
proof -
  have row: "map_res column_text (map Some r) = Inr r" if "\<forall>t \<in> set r. nul \<notin> set t" for r
    using that by (induction r) (simp_all add: column_text_def c_string_plain)
  show ?thesis
    using assms unfolding all_rows_def by (induction rs) (simp_all add: row)
qed

text \<open>The texts depend on the keys of the parameters only.\<close>

lemma same_keys_enumerate:
  assumes "map fst qp = map fst qp'" and "\<And>i k v v'. f (i, k, v) = f (i, k, v')"
  shows "map f (enumerate n qp) = map f (enumerate n qp')"
  using assms(1)
proof (induction qp arbitrary: n qp')
  case (Cons p qp)
  then obtain p' qp2 where qp': "qp' = p' # qp2" and fp: "fst p = fst p'"
    and rest: "map fst qp = map fst qp2"
    by (cases qp') auto
  have "f (n, p) = f (n, p')" using fp assms(2) by (metis prod.collapse)
  then show ?case using Cons.IH [OF rest] by (simp add: qp')
qed simp

lemma same_keys_separated:
  assumes "map fst qp = map fst qp'" and "\<And>i k v v'. f (i, k, v) = f (i, k, v')"
  shows "separated f sep fin (enumerate n qp) = separated f sep fin (enumerate n qp')"
  using same_keys_enumerate [where f = f, OF assms] separated_items by metis

lemma statement_keys:
  assumes "map fst qp = map fst qp'"
  shows "map fst qw = map fst qw' \<Longrightarrow> update_sql table qp qw = update_sql table qp' qw'"
    and "insert_sql table qp = insert_sql table qp'" and "delete_sql table qp = delete_sql table qp'"
    and "select_sql table qp = select_sql table qp'" and "search_sql table qp = search_sql table qp'"
proof -
  have len: "length qp = length qp'" "qp = [] \<longleftrightarrow> qp' = []"
    using assms map_eq_imp_length_eq by (fastforce dest: map_eq_imp_length_eq)+
  have fst: "separated fst sep fin qp = separated fst sep fin qp'" for sep fin
    using assms separated_items by metis
  note same = same_keys_separated [OF assms]
  show "insert_sql table qp = insert_sql table qp'"
    unfolding insert_sql_def fst by (simp only: same [of "\<lambda>(i, _). ''?'' @ nat_string i"] prod.case)
  show "update_sql table qp qw = update_sql table qp' qw'" if "map fst qw = map fst qw'"
  proof -
    have "qw = [] \<longleftrightarrow> qw' = []" using that map_eq_imp_length_eq by fastforce
    then show ?thesis
      unfolding update_sql_def len
      by (simp only: same [of equals_param] same_keys_separated [OF that, of equals_param]
          equals_param_def prod.case)
  qed
  show "delete_sql table qp = delete_sql table qp'"
    unfolding delete_sql_def len by (simp only: same [of equals_param] equals_param_def prod.case)
  show "select_sql table qp = select_sql table qp'"
    unfolding select_sql_def len by (simp only: same [of equals_param] equals_param_def prod.case)
  show "search_sql table qp = search_sql table qp'"
    unfolding search_sql_def len by (subst same) (simp_all only: prod.case)
qed

section \<open>Properties\<close>

text \<open>
  C36. No value reaches the text of a statement: the texts of the insertion, the update, the
  deletion, the selection and the search are the same for any two parameter lists with the
  same keys. (The values are arguments of the query, apart from its text.)
\<close>

theorem statements_parametrised:
  assumes "map fst qp = map fst qp'" and "map fst qw = map fst qw'"
  shows "insert_sql table qp = insert_sql table qp'
    \<and> update_sql table qp qw = update_sql table qp' qw'
    \<and> delete_sql table qp = delete_sql table qp'
    \<and> select_sql table qp = select_sql table qp'
    \<and> search_sql table qp = search_sql table qp'"
  using statement_keys assms by blast

lemma statements_parametrised_witness:
  "delete_sql ''t'' [(''id'', ''x'')] = delete_sql ''t'' [(''id'', [CHR 0x27] @ '' OR 1=1'')]"
  using statements_parametrised [of "[(''id'', ''x'')]" "[(''id'', [CHR 0x27] @ '' OR 1=1'')]" "[]" "[]"]
  by simp

end
