(* ===== verification/Meme_Handler.thy ===== *)
theory Meme_Handler
  imports Static_File_Handler Uri_Lib Sql_Lib
begin

text \<open>
  \<open>src/meme_handler.cc\<close>: memes are rows of one table of the database. A handler is made for each
  request: it reads its configuration, opens the database and creates the table if it is not
  there, ignoring the results of both. The database is the SQLite record of theory Sql_Lib; the
  identifier \<open>boost::uuids\<close> draws for a new meme is the parameter \<open>new_uuid\<close>.

  \<open>std::stable_sort\<close> compares with a function that converts the view counters. With two or
  more rows every row takes part in some comparison, so a counter that does not convert makes
  the sort throw; which of several faults is thrown first is not specified, and here it is the
  first row's.
\<close>

section \<open>State\<close>

record meme_handler = route_handler_base +
  path_to_meme_templates :: string
  path_to_memes :: string
  sql_mgr :: sql_manager
  table_name :: string
  field_names :: "string list"

section \<open>Constructor\<close>

fun meme_paths :: "string \<Rightarrow> block \<Rightarrow> string \<times> string \<Rightarrow> string \<times> string" where
  "meme_paths root [] ps = ps"
| "meme_paths root (s # b) (memes, templates) =
     meme_paths root b
       (if length (tokens s) = 2 then
          (if tokens s ! 0 = ''memePath'' then (root @ tokens s ! 1, templates)
           else if tokens s ! 0 = ''memeTemplatePath'' then (memes, root @ tokens s ! 1)
           else (memes, templates))
        else (memes, templates))"

definition parse_config :: "meme_handler \<Rightarrow> (bool \<times> meme_handler) result" where
  "parse_config h =
     result_bind (config_statements (config_ptr h)) (\<lambda>b.
       case meme_paths (root_path h) b ([], path_to_meme_templates h) of
         (memes, templates) \<Rightarrow>
           Inr (memes \<noteq> [],
                h\<lparr>path_to_memes := memes, path_to_meme_templates := templates\<rparr>))"

definition meme_fields :: "string list" where
  "meme_fields = [''id'', ''img_path'', ''top_caption'', ''bot_caption'', ''times_viewed'']"

definition meme_columns :: query_params where
  "meme_columns =
     [(''id'', ''TEXT PRIMARY KEY NOT NULL''), (''img_path'', ''TEXT NOT NULL''),
      (''top_caption'', ''TEXT NOT NULL''), (''bot_caption'', ''TEXT NOT NULL''),
      (''times_viewed'', ''TEXT NOT NULL'')]"

definition create_meme_handler ::
  "'db sqlite \<Rightarrow> block option \<Rightarrow> string \<Rightarrow> 'db \<Rightarrow> meme_handler result \<times> 'db" where
  "create_meme_handler sq config root db =
     (case parse_config
        \<lparr>config_ptr = config, root_path = root, path_to_meme_templates = [], path_to_memes = [],
         sql_mgr = new_sql_manager ''meme.db'', table_name = ''meme_table'',
         field_names = meme_fields\<rparr> of
        Inl e \<Rightarrow> (Inl e, db)
      | Inr (_, h) \<Rightarrow>
          (let (_, db1) = connect sq (sql_mgr h) db;
               (_, db2) = create_table sq (table_name h) meme_columns db1
           in (Inr h, db2)))"

section \<open>Checks\<close>

definition memes_rx :: pattern where
  "memes_rx = lits ''/memes/'' @ group 1 [Star Any] @ [Eol]"

definition check_uri :: "string \<Rightarrow> string" where
  "check_uri uri =
     (case regex_search memes_rx uri of None \<Rightarrow> [] | Some m \<Rightarrow> str_of m 1)"

definition hex_class :: rx_class where
  "hex_class = Bracket [Range (CHR ''0'') (CHR ''9''), Range (CHR ''a'') (CHR ''f''),
                        Range (CHR ''A'') (CHR ''F'')]"

definition id_rx :: pattern where
  "id_rx =
     Bol # times 8 hex_class @ lits ''-'' @ times 4 hex_class @ lits ''-'' @ times 4 hex_class
       @ lits ''-'' @ times 4 hex_class @ lits ''-'' @ times 12 hex_class @ [Eol]"

definition check_id :: "string \<Rightarrow> bool" where
  "check_id meme_id \<longleftrightarrow> regex_search id_rx meme_id \<noteq> None"

definition caption_class :: rx_class where
  "caption_class =
     Bracket [Word, Lit (CHR ''.''), Lit (CHR '',''), Lit (CHR ''?''), Lit (CHR ''!''),
              Lit (CHR '' '')]"

definition body_param_rx :: pattern where
  "body_param_rx =
     group 1 (plus Word) @ lits ''='' @ group 2 (plus caption_class) @ [Star (Lit (CHR ''&''))]"

definition template_rx :: pattern where
  "template_rx = plus Word @ [Chr Any] @ lits ''jpg''"

definition caption_rx :: pattern where
  "caption_rx = plus caption_class"

text \<open>The local variables of the loop: template, top and bottom caption.\<close>

definition body_step :: "groups \<Rightarrow> string \<times> string \<times> string \<Rightarrow> string \<times> string \<times> string" where
  "body_step m vars =
     (case vars of (t, a, b) \<Rightarrow>
        (let key = str_of m 1 in
         if key = ''memeSelect'' then (str_of m 2, a, b)
         else if key = ''topCaption'' then (t, str_of m 2, b)
         else if key = ''bottomCaption'' then (t, a, str_of m 2)
         else (t, a, b)))"

definition body_check :: "string \<Rightarrow> string list \<Rightarrow> (bool \<times> string list) result" where
  "body_check body0 params =
     result_bind (UriDecode body0) (\<lambda>body.
       case fold body_step (regex_matches body_param_rx body) ([], [], []) of (t, a, b) \<Rightarrow>
         if regex_search template_rx t = None then Inr (False, params)
         else if regex_search caption_rx a = None then Inr (False, params)
         else if regex_search caption_rx b = None then Inr (False, params)
         else Inr (True, params @ [t, a, b]))"

section \<open>Creating, updating and deleting\<close>

definition generate_new_meme ::
  "'db sqlite \<Rightarrow> string \<Rightarrow> meme_handler \<Rightarrow> string list \<Rightarrow> 'db \<Rightarrow> (bool \<times> string) \<times> 'db" where
  "generate_new_meme sq new_uuid h params db =
     (let qp = [(field_names h ! 0, new_uuid), (field_names h ! 1, params ! 0),
                (field_names h ! 2, params ! 1), (field_names h ! 3, params ! 2),
                (field_names h ! 4, ''0'')];
          (ok, db') = insert_record sq (table_name h) qp db
      in ((ok, new_uuid), db'))"

definition id_response :: "nat \<Rightarrow> string \<Rightarrow> response" where
  "id_response sc meme_id =
     typed_response sc (''{'' @ [CHR 0x22] @ ''id'' @ [CHR 0x22] @ '': '' @ [CHR 0x22] @ meme_id
        @ [CHR 0x22] @ ''}'') ''application/json''"

definition text_response :: "nat \<Rightarrow> string \<Rightarrow> response" where
  "text_response sc msg = typed_response sc (msg @ [lf]) ''text/plain''"

definition create_meme ::
  "'db sqlite \<Rightarrow> string \<Rightarrow> meme_handler \<Rightarrow> request \<Rightarrow> 'db \<Rightarrow> response result \<times> 'db" where
  "create_meme sq new_uuid h req db =
     (case body_check (request_body req) [] of
        Inl e \<Rightarrow> (Inl e, db)
      | Inr (check, params) \<Rightarrow>
          if \<not> check then
            (Inr (text_response 400 ''The provided meme creation request is invalid!''), db)
          else
            (case generate_new_meme sq new_uuid h params db of
               ((create, new_id), db') \<Rightarrow>
                 if create then (Inr (id_response 201 new_id), db')
                 else (Inr (text_response 500
                         ''An error occurred while trying to create the provided meme!''), db')))"

definition update_meme ::
  "'db sqlite \<Rightarrow> meme_handler \<Rightarrow> request \<Rightarrow> string \<Rightarrow> 'db \<Rightarrow> response result \<times> 'db" where
  "update_meme sq h req meme_id db =
     (let test = check_id meme_id in
      case body_check (request_body req) [] of
        Inl e \<Rightarrow> (Inl e, db)
      | Inr (check, params) \<Rightarrow>
          if \<not> (test \<and> check) then
            (Inr (text_response 400 ''The provided meme update request is invalid!''), db)
          else
            (case update_record sq (table_name h)
                [(field_names h ! 1, params ! 0), (field_names h ! 2, params ! 1),
                 (field_names h ! 3, params ! 2)]
                [(field_names h ! 0, meme_id)] db of
               (update, db') \<Rightarrow>
                 if update then (Inr (id_response 200 meme_id), db')
                 else (Inr (text_response 500
                         ''An error occurred while trying to update the provided meme!''), db')))"

definition delete_meme ::
  "'db sqlite \<Rightarrow> meme_handler \<Rightarrow> request \<Rightarrow> string \<Rightarrow> 'db \<Rightarrow> response result \<times> 'db" where
  "delete_meme sq h req meme_id db =
     (if \<not> check_id meme_id then
        (Inr (text_response 400 ''The provided meme delete request is invalid!''), db)
      else
        (case delete_record sq (table_name h) [(field_names h ! 0, meme_id)] db of
           (del, db') \<Rightarrow>
             if del then (Inr (id_response 200 meme_id), db')
             else (Inr (text_response 500
                     ''An error occurred while trying to delete the provided meme!''), db')))"

section \<open>Reading\<close>

definition redirect_to :: "string \<Rightarrow> response" where
  "redirect_to location =
     set_header ''Location'' location (new_response 303 (''Location: '' @ location))"

definition redirect_request :: "request \<Rightarrow> string \<Rightarrow> response" where
  "redirect_request req location =
     (if location = ''create'' then redirect_to ''/web/memes/create.html''
      else if location = ''list'' then redirect_to ''/web/memes/list.html''
      else if take 7 location = ''manage/'' then
        redirect_to (''/web/memes/manage.html?id='' @ drop 7 location)
      else redirect_to (''/web/memes/view.html?id='' @ location))"

text \<open>What \<open>compareMemes\<close> reads of a row.\<close>

definition meme_views :: "string list \<Rightarrow> int result" where
  "meme_views row = result_bind (nth_res row 4) stoi"

definition sort_memes :: "string list list \<Rightarrow> string list list result" where
  "sort_memes rows =
     (if length rows < 2 then Inr rows
      else result_bind (map_res (\<lambda>r. result_bind (meme_views r) (\<lambda>v. Inr (v, r))) rows)
             (\<lambda>keyed. Inr (map snd (sort_key fst keyed))))"

definition list_item :: "string list \<Rightarrow> string result" where
  "list_item row =
     result_bind (nth_res row 0) (\<lambda>id. result_bind (nth_res row 4) (\<lambda>views.
     result_bind (nth_res row 1) (\<lambda>img. result_bind (nth_res row 2) (\<lambda>upper.
     result_bind (nth_res row 3) (\<lambda>lower.
       Inr ([CHR 0x22] @ id @ '':'' @ views @ '':'' @ img @ '':'' @ upper @ '':'' @ lower
              @ [CHR 0x22]))))))"

definition list_response :: "string list list result \<Rightarrow> response result" where
  "list_response res =
     result_bind res (\<lambda>rows. result_bind (sort_memes rows) (\<lambda>sorted.
     result_bind (map_res list_item (rev sorted)) (\<lambda>items.
       Inr (typed_response 200 (''['' @ separated (\<lambda>t. t) '','' [] items @ '']'')
              (get_mime_type ''.json'')))))"

definition meme_list ::
  "'db sqlite \<Rightarrow> meme_handler \<Rightarrow> request \<Rightarrow> 'db \<Rightarrow> response result \<times> 'db" where
  "meme_list sq h req db =
     (case select_record sq (table_name h) [] db of (res, db') \<Rightarrow> (list_response res, db'))"

definition meme_search ::
  "'db sqlite \<Rightarrow> meme_handler \<Rightarrow> request \<Rightarrow> string \<Rightarrow> 'db \<Rightarrow> response result \<times> 'db" where
  "meme_search sq h req query db =
     (case UriDecode query of
        Inl e \<Rightarrow> (Inl e, db)
      | Inr decodedQuery \<Rightarrow>
          (case search_record sq (table_name h)
              [(field_names h ! 2, decodedQuery), (field_names h ! 3, decodedQuery)] db of
             (res, db') \<Rightarrow> (list_response res, db')))"

definition quoted :: "string \<Rightarrow> string" where
  "quoted s = [CHR 0x22] @ s @ [CHR 0x22]"

definition meme_json :: "string \<Rightarrow> string \<Rightarrow> string \<Rightarrow> string" where
  "meme_json img upper lower =
     ''{'' @ quoted ''memeSelect'' @ '': '' @ quoted img @ '', ''
       @ quoted ''topCaption'' @ '': '' @ quoted upper @ '', ''
       @ quoted ''bottomCaption'' @ '': '' @ quoted lower @ ''}''"

text \<open>\<open>curr_times_viewed + 1\<close> on an \<open>int\<close>: the overflow has no defined behaviour.\<close>

definition next_views :: "string \<Rightarrow> string result" where
  "next_views v =
     result_bind (stoi v) (\<lambda>n.
       if n = int_max then Inl Undefined_behaviour else Inr (int_string (n + 1)))"

definition get_meme_by_id ::
  "'db sqlite \<Rightarrow> meme_handler \<Rightarrow> request \<Rightarrow> string \<Rightarrow> 'db \<Rightarrow> response result \<times> 'db" where
  "get_meme_by_id sq h req meme_id db =
     (case select_record sq (table_name h) [(field_names h ! 0, meme_id)] db of
        (Inl e, db') \<Rightarrow> (Inl e, db')
      | (Inr result, db') \<Rightarrow>
          if length result \<noteq> 1 then
            (Inr (text_response 404 ''The requested file could not be found!''), db')
          else
            (let row = result ! 0 in
             case result_bind (nth_res row 1) (\<lambda>img. result_bind (nth_res row 2) (\<lambda>upper.
                  result_bind (nth_res row 3) (\<lambda>lower. result_bind (nth_res row 4) (\<lambda>v.
                  result_bind (next_views v) (\<lambda>v'. Inr (img, upper, lower, v')))))) of
               Inl e \<Rightarrow> (Inl e, db')
             | Inr (img, upper, lower, v') \<Rightarrow>
                 (case update_record sq (table_name h) [(field_names h ! 4, v')]
                     [(field_names h ! 0, row ! 0)] db' of
                    (_, db'') \<Rightarrow>
                      if img = [] \<or> upper = [] \<or> lower = [] then
                        (Inr (typed_response 400 ''The provided meme has been corrupted!''
                                (get_mime_type ''.txt'')), db'')
                      else
                        (Inr (typed_response 200 (meme_json img upper lower)
                                (get_mime_type ''.json'')), db''))))"

definition meme_invalid_method :: "request \<Rightarrow> response" where
  "meme_invalid_method req =
     typed_response 405 ''This route only supports the HTTP GET and POST methods!'' ''text/plain''"

section \<open>Dispatch\<close>

definition meme_handle_request ::
  "'db sqlite \<Rightarrow> string \<Rightarrow> meme_handler \<Rightarrow> request \<Rightarrow> 'db \<Rightarrow> response result \<times> 'db" where
  "meme_handle_request sq new_uuid h req db =
     (if req_method req = ''POST'' then create_meme sq new_uuid h req db
      else if req_method req = ''PUT'' then update_meme sq h req (check_uri (req_uri req)) db
      else if req_method req = ''DELETE'' then delete_meme sq h req (check_uri (req_uri req)) db
      else if req_method req = ''GET'' then
        (let check = check_uri (req_uri req) in
         if check = ''create'' \<or> check = ''create/'' then (Inr (redirect_request req ''create''), db)
         else if check = ''view'' \<or> check = ''view/'' then (Inr (redirect_request req ''list''), db)
         else if 7 < length check \<and> take 7 check = ''manage/'' then
           (Inr (redirect_request req check), db)
         else if 5 < length check \<and> take 5 check = ''view/'' then
           (Inr (redirect_request req (drop 5 check)), db)
         else if check = [] \<or> check = ''/'' then meme_list sq h req db
         else if 7 < length check \<and> take 7 check = ''search/'' then
           meme_search sq h req (drop 7 check) db
         else get_meme_by_id sq h req check db)
      else (Inr (meme_invalid_method req), db))"

text \<open>The router makes a handler for each request and lets it answer.\<close>

definition meme_request ::
  "'db sqlite \<Rightarrow> string \<Rightarrow> block option \<Rightarrow> string \<Rightarrow> request \<Rightarrow> 'db \<Rightarrow> response result \<times> 'db"
  where
  "meme_request sq new_uuid config root req db =
     (case create_meme_handler sq config root db of
        (Inl e, db') \<Rightarrow> (Inl e, db')
      | (Inr h, db') \<Rightarrow> meme_handle_request sq new_uuid h req db')"

lemma answer_served [simp]:
  "served_ok (id_response sc meme_id) \<longleftrightarrow> umap_find response_codes sc \<noteq> None"
  "served_ok (text_response sc msg) \<longleftrightarrow> umap_find response_codes sc \<noteq> None"
  "served_ok (redirect_request req location)"
  "served_ok (meme_invalid_method req)"
  by (simp_all add: id_response_def text_response_def redirect_request_def redirect_to_def
      meme_invalid_method_def)

lemma create_meme_served: "returns served_ok (fst (create_meme sq new_uuid h req db))"
  by (simp add: create_meme_def split: sum.split prod.split)

lemma update_meme_served: "returns served_ok (fst (update_meme sq h req meme_id db))"
  by (simp add: update_meme_def Let_def split: sum.split prod.split)

lemma delete_meme_served: "returns served_ok (fst (delete_meme sq h req meme_id db))"
  by (simp add: delete_meme_def split: prod.split)

lemma list_response_served: "returns served_ok (list_response res)"
  unfolding list_response_def by (intro returns_bind) simp

lemma meme_list_served: "returns served_ok (fst (meme_list sq h req db))"
  by (simp add: meme_list_def list_response_served split: prod.split)

lemma meme_search_served: "returns served_ok (fst (meme_search sq h req query db))"
  by (simp add: meme_search_def list_response_served split: sum.split prod.split)

lemma get_meme_by_id_served: "returns served_ok (fst (get_meme_by_id sq h req meme_id db))"
  by (simp add: get_meme_by_id_def Let_def split: sum.split prod.split)

lemma meme_handle_request_served:
  "returns served_ok (fst (meme_handle_request sq new_uuid h req db))"
  unfolding meme_handle_request_def Let_def
  by (simp only: if_distrib [of fst] if_distrib [of "returns served_ok"] fst_conv returns_simps
      answer_served create_meme_served update_meme_served delete_meme_served meme_list_served
      meme_search_served get_meme_by_id_served known_status if_True if_cancel simp_thms)

interpretation meme_handler: route_handler "meme_request sq new_uuid config root"
  by unfold_locales
    (simp add: meme_request_def meme_handle_request_served split: prod.split sum.split)

end
