(* ===== verification/Meme_Store.thy ===== *)
theory Meme_Store
  imports Meme_Handler "HOL-Library.AList"
begin

text \<open>
  What the meme handler relies on in the database. \<open>meme_sql\<close> states the documented behaviour
  of SQLite for the seven statements the handler's calls produce, word for word, on a table
  \<open>meme_table\<close> that exists, with no input or output error and no other connection holding a
  lock. Every request of the server opens a connection of its own and sets no time to wait for
  locks, so with several threads a statement may find the database locked, too: \<open>locked_sql\<close>
  states what it does then, and \<open>shared_sql\<close> puts the two together. \<open>meme_store\<close> is the contract one level up: a finite map from identifiers to rows with
  insertion, update, deletion and selection; every engine with the documented behaviour gives
  such a store through the functions of \<open>src/sql_lib.cc\<close>. \<open>list_engine\<close> is a small engine that
  keeps the table as a list and has the documented behaviour.
\<close>

section \<open>Rows\<close>

type_synonym meme_row = "string \<times> string \<times> string \<times> string"
type_synonym memes = "string \<rightharpoonup> meme_row"

definition row_texts :: "string \<Rightarrow> meme_row \<Rightarrow> string list" where
  "row_texts i r = (case r of (img, a, b, v) \<Rightarrow> [i, img, a, b, v])"

definition with_captions :: "string \<Rightarrow> string \<Rightarrow> string \<Rightarrow> meme_row \<Rightarrow> meme_row" where
  "with_captions img a b r = (case r of (_, _, _, v) \<Rightarrow> (img, a, b, v))"

definition with_views :: "string \<Rightarrow> meme_row \<Rightarrow> meme_row" where
  "with_views v r = (case r of (img, a, b, _) \<Rightarrow> (img, a, b, v))"

definition update_row :: "string \<Rightarrow> (meme_row \<Rightarrow> meme_row) \<Rightarrow> memes \<Rightarrow> memes" where
  "update_row i f m = (case m i of None \<Rightarrow> m | Some r \<Rightarrow> m(i \<mapsto> f r))"

text \<open>No value holds a zero byte, which the C interface would cut it at.\<close>

definition row_plain :: "meme_row \<Rightarrow> bool" where
  "row_plain r = (case r of (img, a, b, v) \<Rightarrow>
     nul \<notin> set img \<and> nul \<notin> set a \<and> nul \<notin> set b \<and> nul \<notin> set v)"

definition plain_memes :: "memes \<Rightarrow> bool" where
  "plain_memes m \<longleftrightarrow> (\<forall>i r. m i = Some r \<longrightarrow> nul \<notin> set i \<and> row_plain r)"

lemma update_row_apply:
  "update_row i f m j = (if j = i then map_option f (m i) else m j)"
  by (simp add: update_row_def split: option.split)

section \<open>The contract of the store\<close>

locale meme_store =
  fixes ins :: "string \<Rightarrow> meme_row \<Rightarrow> 'db \<Rightarrow> bool \<times> 'db"
    and upd :: "string \<Rightarrow> string \<times> string \<times> string \<Rightarrow> 'db \<Rightarrow> bool \<times> 'db"
    and upd_views :: "string \<Rightarrow> string \<Rightarrow> 'db \<Rightarrow> bool \<times> 'db"
    and del :: "string \<Rightarrow> 'db \<Rightarrow> bool \<times> 'db"
    and sel :: "string \<Rightarrow> 'db \<Rightarrow> string list list result \<times> 'db"
    and sel_all :: "'db \<Rightarrow> string list list result \<times> 'db"
    and memes :: "'db \<Rightarrow> memes"
  assumes store_ins: "nul \<notin> set i \<Longrightarrow> row_plain r \<Longrightarrow>
      \<exists>db'. ins i r db = (memes db i = None, db')
        \<and> memes db' = (if memes db i = None then (memes db)(i \<mapsto> r) else memes db)"
    and store_upd: "nul \<notin> set i \<Longrightarrow> nul \<notin> set img \<union> set a \<union> set b \<Longrightarrow>
      \<exists>db'. upd i (img, a, b) db = (True, db')
        \<and> memes db' = update_row i (with_captions img a b) (memes db)"
    and store_upd_views: "nul \<notin> set i \<Longrightarrow> nul \<notin> set v \<Longrightarrow>
      \<exists>db'. upd_views i v db = (True, db') \<and> memes db' = update_row i (with_views v) (memes db)"
    and store_del: "nul \<notin> set i \<Longrightarrow>
      \<exists>db'. del i db = (True, db') \<and> memes db' = (memes db)(i := None)"
    and store_sel: "nul \<notin> set i \<Longrightarrow> plain_memes (memes db) \<Longrightarrow>
      sel i db = (Inr (case memes db i of None \<Rightarrow> [] | Some r \<Rightarrow> [row_texts i r]), db)"
    and store_sel_all: "plain_memes (memes db) \<Longrightarrow>
      \<exists>ps. sel_all db = (Inr (map (\<lambda>(i, r). row_texts i r) ps), db)
        \<and> distinct (map fst ps) \<and> map_of ps = memes db"
begin

text \<open>What was stored is selected until it is deleted, and other rows do not matter.\<close>

lemma sel_after_ins:
  assumes "nul \<notin> set i" "row_plain r" "plain_memes (memes db)" "ins i r db = (True, db')"
  shows "sel i db' = (Inr [row_texts i r], db')"
proof -
  have m: "memes db' = (memes db)(i \<mapsto> r)"
    using store_ins [OF assms(1,2), of db] assms(4) by auto
  then have "plain_memes (memes db')" using assms(1-3) by (auto simp: plain_memes_def)
  then show ?thesis using store_sel [OF assms(1)] m by simp
qed

lemma sel_after_del:
  assumes "nul \<notin> set i" "plain_memes (memes db)" "del i db = (ok, db')"
  shows "sel i db' = (Inr [], db')"
proof -
  have m: "memes db' = (memes db)(i := None)" using store_del [OF assms(1), of db] assms(3) by auto
  then have "plain_memes (memes db')" using assms(2) by (auto simp: plain_memes_def)
  then show ?thesis using store_sel [OF assms(1)] m by simp
qed

lemma sel_other_after_del:
  assumes "nul \<notin> set j" "nul \<notin> set i" "plain_memes (memes db)" "del i db = (ok, db')" "j \<noteq> i"
  shows "fst (sel j db') = fst (sel j db)"
proof -
  have m: "memes db' = (memes db)(i := None)" using store_del [OF assms(2), of db] assms(4) by auto
  then have "plain_memes (memes db')" using assms(3) by (auto simp: plain_memes_def)
  then show ?thesis using store_sel [OF assms(1)] assms(3,5) m by simp
qed

end

section \<open>The documented behaviour of the engine\<close>

text \<open>
  \<open>like pattern text\<close> is the engine's \<open>LIKE\<close> of \<open>%pattern%\<close>. The order of the rows of a
  selection is not specified.
\<close>

locale meme_sql =
  fixes sq :: "'db sqlite" and like :: "string \<Rightarrow> string \<Rightarrow> bool" and memes :: "'db \<Rightarrow> memes"
  assumes sql_open: "memes (snd (sqlite_open sq ''meme.db'' db)) = memes db"
    and sql_create: "memes (snd (sqlite_exec sq
      (''CREATE TABLE IF NOT EXISTS meme_table(id TEXT PRIMARY KEY NOT NULL,img_path TEXT NOT NULL,''
         @ ''top_caption TEXT NOT NULL,bot_caption TEXT NOT NULL,times_viewed TEXT NOT NULL);'') db))
      = memes db"
    and sql_insert: "\<exists>db'. sqlite_query sq
      (''INSERT INTO meme_table(id,img_path,top_caption,bot_caption,times_viewed) ''
         @ ''VALUES(?1,?2,?3,?4,?5);'') [i, img, a, b, v] db = ([], memes db i = None, db')
      \<and> memes db' = (if memes db i = None then (memes db)(i \<mapsto> (img, a, b, v)) else memes db)"
    and sql_update: "\<exists>db'. sqlite_query sq
      (''UPDATE meme_table SET img_path= ?1,top_caption= ?2,bot_caption= ?3 ''
         @ ''WHERE id= ?4;'') [img, a, b, i] db = ([], True, db')
      \<and> memes db' = update_row i (with_captions img a b) (memes db)"
    and sql_update_views: "\<exists>db'. sqlite_query sq
      ''UPDATE meme_table SET times_viewed= ?1 WHERE id= ?2;'' [v, i] db = ([], True, db')
      \<and> memes db' = update_row i (with_views v) (memes db)"
    and sql_delete: "\<exists>db'. sqlite_query sq
      ''DELETE FROM meme_table WHERE id= ?1;'' [i] db = ([], True, db')
      \<and> memes db' = (memes db)(i := None)"
    and sql_select: "sqlite_query sq ''SELECT * FROM meme_table WHERE id= ?1;'' [i] db =
      (case memes db i of None \<Rightarrow> [] | Some r \<Rightarrow> [map Some (row_texts i r)], True, db)"
    and sql_select_all: "\<exists>ps. sqlite_query sq ''SELECT * FROM meme_table '' [] db =
      (map (\<lambda>(i, r). map Some (row_texts i r)) ps, True, db)
      \<and> distinct (map fst ps) \<and> map_of ps = memes db"
    and sql_search: "\<exists>ps. sqlite_query sq
      (''SELECT * FROM meme_table WHERE top_caption LIKE '' @ [CHR 0x27] @ ''%'' @ [CHR 0x27]
         @ '' || ?1|| '' @ [CHR 0x27] @ ''%'' @ [CHR 0x27] @ '' OR bot_caption LIKE '' @ [CHR 0x27]
         @ ''%'' @ [CHR 0x27] @ '' || ?2|| '' @ [CHR 0x27] @ ''%'' @ [CHR 0x27] @ '';'') [p, q] db =
      (map (\<lambda>(i, r). map Some (row_texts i r)) ps, True, db)
      \<and> distinct (map fst ps)
      \<and> map_of ps = (\<lambda>i. case memes db i of
           Some (img, a, b, v) \<Rightarrow> if like p a \<or> like q b then Some (img, a, b, v) else None
         | None \<Rightarrow> None)"

section \<open>The texts the handler's calls produce\<close>

definition id_key :: "string \<Rightarrow> query_params" where
  "id_key i = [(''id'', i)]"

definition row_params :: "string \<Rightarrow> meme_row \<Rightarrow> query_params" where
  "row_params i r = (case r of (img, a, b, v) \<Rightarrow>
     [(''id'', i), (''img_path'', img), (''top_caption'', a), (''bot_caption'', b),
      (''times_viewed'', v)])"

definition caption_params :: "string \<times> string \<times> string \<Rightarrow> query_params" where
  "caption_params t = (case t of (img, a, b) \<Rightarrow>
     [(''img_path'', img), (''top_caption'', a), (''bot_caption'', b)])"

lemma nat_string_digit:
  "nat_string (Suc 0) = ''1''" "nat_string (Suc (Suc 0)) = ''2''"
  "nat_string (Suc (Suc (Suc 0))) = ''3''" "nat_string (Suc (Suc (Suc (Suc 0)))) = ''4''"
  "nat_string (Suc (Suc (Suc (Suc (Suc 0))))) = ''5''"
  "nat_string 1 = ''1''" "nat_string 2 = ''2''" "nat_string 3 = ''3''" "nat_string 4 = ''4''"
  by code_simp+

lemma statement_texts:
  "c_string (create_sql ''meme_table'' meme_columns) =
     ''CREATE TABLE IF NOT EXISTS meme_table(id TEXT PRIMARY KEY NOT NULL,img_path TEXT NOT NULL,''
       @ ''top_caption TEXT NOT NULL,bot_caption TEXT NOT NULL,times_viewed TEXT NOT NULL);''"
  "c_string (insert_sql ''meme_table'' (row_params i r)) =
     ''INSERT INTO meme_table(id,img_path,top_caption,bot_caption,times_viewed) ''
       @ ''VALUES(?1,?2,?3,?4,?5);''"
  "c_string (update_sql ''meme_table'' (caption_params t) (id_key i)) =
     ''UPDATE meme_table SET img_path= ?1,top_caption= ?2,bot_caption= ?3 '' @ ''WHERE id= ?4;''"
  "c_string (update_sql ''meme_table'' [(''times_viewed'', v)] (id_key i)) =
     ''UPDATE meme_table SET times_viewed= ?1 WHERE id= ?2;''"
  "c_string (delete_sql ''meme_table'' (id_key i)) = ''DELETE FROM meme_table WHERE id= ?1;''"
  "c_string (select_sql ''meme_table'' (id_key i)) = ''SELECT * FROM meme_table WHERE id= ?1;''"
  "c_string (select_sql ''meme_table'' []) = ''SELECT * FROM meme_table ''"
  by (simp_all add: create_sql_def meme_columns_def insert_sql_def update_sql_def delete_sql_def select_sql_def row_params_def
      caption_params_def id_key_def equals_param_def nat_string_digit c_string_def
      split: prod.split)

section \<open>The store over the engine\<close>

text \<open>Every engine with the documented behaviour gives a store through the code's functions.\<close>

lemma bound_plain:
  "nul \<notin> set i \<Longrightarrow> row_plain r \<Longrightarrow> bound (row_params i r) = row_texts i r"
  "nul \<notin> set i \<Longrightarrow> bound (id_key i) = [i]"
  "nul \<notin> set img \<union> set a \<union> set b \<Longrightarrow> bound (caption_params (img, a, b)) = [img, a, b]"
  "nul \<notin> set v \<Longrightarrow> bound [(k, v)] = [v]"
  "bound [] = []"
  by (auto simp: bound_def row_params_def row_texts_def row_plain_def id_key_def
      caption_params_def c_string_plain split: prod.splits)

lemma plain_row_texts:
  "plain_memes m \<Longrightarrow> m i = Some r \<Longrightarrow> \<forall>t \<in> set (row_texts i r). nul \<notin> set t"
  by (force simp: plain_memes_def row_plain_def row_texts_def split: prod.splits)

lemma all_rows_texts:
  assumes "plain_memes m" and "\<And>i r. (i, r) \<in> set ps \<Longrightarrow> m i = Some r"
  shows "all_rows (map (\<lambda>(i, r). map Some (row_texts i r)) ps)
    = Inr (map (\<lambda>(i, r). row_texts i r) ps)"
proof -
  have "all_rows (map (map Some) (map (\<lambda>(i, r). row_texts i r) ps))
      = Inr (map (\<lambda>(i, r). row_texts i r) ps)"
    using assms plain_row_texts by (intro all_rows_Some) fastforce
  then show ?thesis by (simp add: comp_def case_prod_unfold)
qed

sublocale meme_sql \<subseteq> store: meme_store
  "\<lambda>i r. insert_record sq ''meme_table'' (row_params i r)"
  "\<lambda>i t. update_record sq ''meme_table'' (caption_params t) (id_key i)"
  "\<lambda>i v. update_record sq ''meme_table'' [(''times_viewed'', v)] (id_key i)"
  "\<lambda>i. delete_record sq ''meme_table'' (id_key i)"
  "\<lambda>i. select_record sq ''meme_table'' (id_key i)"
  "select_record sq ''meme_table'' []"
  memes
proof unfold_locales
  fix i r and db :: 'db
  assume "nul \<notin> set i" and r: "row_plain r"
  obtain img a b v where "r = (img, a, b, v)" by (cases r)
  then show "\<exists>db'. insert_record sq ''meme_table'' (row_params i r) db = (memes db i = None, db')
      \<and> memes db' = (if memes db i = None then (memes db)(i \<mapsto> r) else memes db)"
    using sql_insert [of i img a b v db] bound_plain(1) [OF \<open>nul \<notin> set i\<close> r]
    by (auto simp: insert_record_def single_step_def statement_texts row_texts_def)
next
  fix i img a b :: string and db :: 'db
  assume "nul \<notin> set i" and "nul \<notin> set img \<union> set a \<union> set b"
  then show "\<exists>db'. update_record sq ''meme_table'' (caption_params (img, a, b)) (id_key i) db
        = (True, db') \<and> memes db' = update_row i (with_captions img a b) (memes db)"
    using sql_update [of img a b i db]
    by (auto simp: update_record_def single_step_def statement_texts bound_plain)
next
  fix i v :: string and db :: 'db
  assume "nul \<notin> set i" and "nul \<notin> set v"
  then show "\<exists>db'. update_record sq ''meme_table'' [(''times_viewed'', v)] (id_key i) db
        = (True, db') \<and> memes db' = update_row i (with_views v) (memes db)"
    using sql_update_views [of v i db]
    by (auto simp: update_record_def single_step_def statement_texts bound_plain)
next
  fix i :: string and db :: 'db
  assume "nul \<notin> set i"
  then show "\<exists>db'. delete_record sq ''meme_table'' (id_key i) db = (True, db')
        \<and> memes db' = (memes db)(i := None)"
    using sql_delete [of i db]
    by (auto simp: delete_record_def single_step_def statement_texts bound_plain)
next
  fix i :: string and db :: 'db
  assume "nul \<notin> set i" and plain: "plain_memes (memes db)"
  then show "select_record sq ''meme_table'' (id_key i) db
      = (Inr (case memes db i of None \<Rightarrow> [] | Some r \<Rightarrow> [row_texts i r]), db)"
    using sql_select [of i db] all_rows_texts [OF plain, of "[]"]
      all_rows_texts [OF plain, of "[(i, r)]" for r]
    by (simp add: select_record_def read_rows_def statement_texts bound_plain split: option.split)
next
  fix db :: 'db
  assume plain: "plain_memes (memes db)"
  obtain ps where ps: "sqlite_query sq ''SELECT * FROM meme_table '' [] db =
      (map (\<lambda>(i, r). map Some (row_texts i r)) ps, True, db)"
      "distinct (map fst ps)" "map_of ps = memes db"
    using sql_select_all [of db] by blast
  have "all_rows (map (\<lambda>(i, r). map Some (row_texts i r)) ps)
      = Inr (map (\<lambda>(i, r). row_texts i r) ps)"
    using ps(2,3) by (intro all_rows_texts [OF plain]) (metis map_of_is_SomeI)
  then show "\<exists>ps. select_record sq ''meme_table'' [] db
      = (Inr (map (\<lambda>(i, r). row_texts i r) ps), db)
        \<and> distinct (map fst ps) \<and> map_of ps = memes db"
    using ps
    by (intro exI [of _ ps]) (simp add: select_record_def read_rows_def statement_texts bound_plain)
qed

section \<open>A database that is locked\<close>

text \<open>
  A statement that cannot get its lock ends with \<open>SQLITE_BUSY\<close>: it delivers no row, is not done,
  and changes nothing. Opening a connection takes no lock.
\<close>

locale locked_sql =
  fixes bq :: "'db sqlite" and memes :: "'db \<Rightarrow> memes"
  assumes locked_open: "memes (snd (sqlite_open bq name db)) = memes db"
    and locked_exec: "memes (snd (sqlite_exec bq q db)) = memes db"
    and locked_query: "\<exists>db'. sqlite_query bq q vs db = ([], False, db') \<and> memes db' = memes db"
begin

text \<open>The code's functions then report that they have failed, or that there are no rows.\<close>

lemma locked_step: "\<exists>db'. single_step bq q vs db = (False, db') \<and> memes db' = memes db"
  using locked_query [of "c_string q" vs db] by (auto simp: single_step_def)

lemma locked_rows: "\<exists>db'. read_rows bq q vs db = (Inr [], db') \<and> memes db' = memes db"
  using locked_query [of "c_string q" vs db] by (auto simp: read_rows_def all_rows_def)

lemma locked_records:
  "\<exists>db'. insert_record bq t ps db = (False, db') \<and> memes db' = memes db"
  "\<exists>db'. update_record bq t ps qs db = (False, db') \<and> memes db' = memes db"
  "\<exists>db'. delete_record bq t ps db = (False, db') \<and> memes db' = memes db"
  "\<exists>db'. select_record bq t ps db = (Inr [], db') \<and> memes db' = memes db"
  "\<exists>db'. search_record bq t ps db = (Inr [], db') \<and> memes db' = memes db"
  by (simp_all add: insert_record_def update_record_def delete_record_def select_record_def
      search_record_def locked_step locked_rows)

end

text \<open>One database, whose statements get their lock or do not.\<close>

locale shared_sql = meme_sql sq like memes + locked_sql bq memes
  for sq :: "'db sqlite" and like memes and bq

section \<open>A list as a table\<close>

type_synonym table = "(string \<times> meme_row) list"

definition update_entry :: "string \<Rightarrow> (meme_row \<Rightarrow> meme_row) \<Rightarrow> table \<Rightarrow> table" where
  "update_entry i f t = (case map_of t i of None \<Rightarrow> t | Some r \<Rightarrow> (i, f r) # t)"

definition list_query ::
  "(string \<Rightarrow> string \<Rightarrow> bool) \<Rightarrow> string \<Rightarrow> string list \<Rightarrow> table \<Rightarrow> string option list list \<times> bool \<times> table"
  where
  "list_query like q vs t =
     (if take 6 q = ''INSERT'' then
        (case vs of
           [i, img, a, b, v] \<Rightarrow>
             (if map_of t i = None then ([], True, (i, img, a, b, v) # t) else ([], False, t))
         | _ \<Rightarrow> ([], False, t))
      else if take 6 q = ''DELETE'' then
        (case vs of [i] \<Rightarrow> ([], True, filter (\<lambda>e. fst e \<noteq> i) t) | _ \<Rightarrow> ([], False, t))
      else if take 6 q = ''UPDATE'' then
        (case vs of
           [img, a, b, i] \<Rightarrow> ([], True, update_entry i (with_captions img a b) t)
         | [v, i] \<Rightarrow> ([], True, update_entry i (with_views v) t)
         | _ \<Rightarrow> ([], False, t))
      else
        (case vs of
           [] \<Rightarrow> (map (\<lambda>(i, r). map Some (row_texts i r)) (AList.clearjunk t), True, t)
         | [i] \<Rightarrow>
             ((case map_of t i of None \<Rightarrow> [] | Some r \<Rightarrow> [map Some (row_texts i r)]), True, t)
         | [p, s] \<Rightarrow>
             (map (\<lambda>(i, r). map Some (row_texts i r))
                (filter (\<lambda>(i, img, a, b, v). like p a \<or> like s b) (AList.clearjunk t)), True, t)
         | _ \<Rightarrow> ([], False, t)))"

definition list_engine :: "(string \<Rightarrow> string \<Rightarrow> bool) \<Rightarrow> table sqlite" where
  "list_engine like =
     \<lparr>sqlite_open = (\<lambda>_ t. (True, t)), sqlite_close = (\<lambda>t. (True, t)),
      sqlite_exec = (\<lambda>_ t. (True, t)), sqlite_query = list_query like\<rparr>"

lemma map_of_update_entry: "map_of (update_entry i f t) = update_row i f (map_of t)"
  by (simp add: update_entry_def update_row_def split: option.split)

lemma map_of_filter_key: "map_of (filter (\<lambda>e. fst e \<noteq> i) t) = (map_of t)(i := None)"
  by (induction t) auto

lemma map_of_filter_distinct:
  "distinct (map fst t) \<Longrightarrow>
     map_of (filter P t) = (\<lambda>i. case map_of t i of Some r \<Rightarrow> if P (i, r) then Some r else None
                                | None \<Rightarrow> None)"
  by (induction t) (force simp: fun_eq_iff map_of_eq_None_iff split: option.splits)+

interpretation list_engine: meme_sql "list_engine like" like map_of
proof unfold_locales
  fix p q :: string and db :: table
  have d: "distinct (map fst (AList.clearjunk db))" by (rule distinct_clearjunk)
  show "\<exists>ps. sqlite_query (list_engine like)
      (''SELECT * FROM meme_table WHERE top_caption LIKE '' @ [CHR 0x27] @ ''%'' @ [CHR 0x27]
         @ '' || ?1|| '' @ [CHR 0x27] @ ''%'' @ [CHR 0x27] @ '' OR bot_caption LIKE '' @ [CHR 0x27]
         @ ''%'' @ [CHR 0x27] @ '' || ?2|| '' @ [CHR 0x27] @ ''%'' @ [CHR 0x27] @ '';'') [p, q] db =
      (map (\<lambda>(i, r). map Some (row_texts i r)) ps, True, db)
      \<and> distinct (map fst ps)
      \<and> map_of ps = (\<lambda>i. case map_of db i of
           Some (img, a, b, v) \<Rightarrow> if like p a \<or> like q b then Some (img, a, b, v) else None
         | None \<Rightarrow> None)"
    using map_of_filter_distinct [OF d, of "\<lambda>(i, img, a, b, v). like p a \<or> like q b"]
    by (intro exI [of _ "filter (\<lambda>(i, img, a, b, v). like p a \<or> like q b) (AList.clearjunk db)"])
      (simp add: list_engine_def list_query_def map_of_clearjunk distinct_map_filter d
        fun_eq_iff split: option.split)
next
  fix db :: table
  show "\<exists>ps. sqlite_query (list_engine like) ''SELECT * FROM meme_table '' [] db =
      (map (\<lambda>(i, r). map Some (row_texts i r)) ps, True, db)
      \<and> distinct (map fst ps) \<and> map_of ps = map_of db"
    by (intro exI [of _ "AList.clearjunk db"])
      (simp add: list_engine_def list_query_def map_of_clearjunk distinct_clearjunk)
qed (simp_all add: list_engine_def list_query_def map_of_update_entry map_of_filter_key
      split: option.split)

text \<open>The same table, locked.\<close>

definition locked_engine :: "'db sqlite" where
  "locked_engine =
     \<lparr>sqlite_open = (\<lambda>_ db. (True, db)), sqlite_close = (\<lambda>db. (True, db)),
      sqlite_exec = (\<lambda>_ db. (False, db)), sqlite_query = (\<lambda>_ _ db. ([], False, db))\<rparr>"

interpretation locked_engine: locked_sql locked_engine memes
  by unfold_locales (simp_all add: locked_engine_def)

interpretation shared_engine: shared_sql "list_engine like" like map_of locked_engine
  by unfold_locales

end
