(* ===== verification/Meme_Properties.thy ===== *)
theory Meme_Properties
  imports Meme_Store
begin

text \<open>
  What the meme handler does to the memes, for every engine with the documented behaviour: the
  checks of identifiers and request bodies, the effect of each method, the invariant that keeps
  the handler free of faults, and the order of the lists.
\<close>

section \<open>The checks\<close>

abbreviation caption_char :: "char \<Rightarrow> bool" where
  "caption_char \<equiv> class_has caption_class"

definition caption_text :: "string \<Rightarrow> bool" where
  "caption_text s \<longleftrightarrow> s \<noteq> [] \<and> (\<forall>c \<in> set s. caption_char c)"

lemma caption_char_iff:
  "caption_char c \<longleftrightarrow> is_word c \<or> c \<in> {CHR ''.'', CHR '','', CHR ''?'', CHR ''!'', CHR '' ''}"
  by (auto simp: caption_class_def)

lemma caption_char_not:
  "\<not> caption_char nul" "\<not> caption_char (CHR 0x22)" "\<not> caption_char (CHR 0x5C)"
  "\<not> caption_char lf" "\<not> caption_char (CHR '':'')"
  by (simp_all add: caption_char_iff is_word_def is_digit_def is_upper_def is_lower_def
      less_eq_char_def)

interpretation body_param: iterated_pattern body_param_rx
  by unfold_locales (auto simp: body_param_rx_def group_def plus_def lits_def)

lemma body_param_path:
  assumes "rx_path body_param_rx i s [] [] t cs"
  shows "caption_text (str_of cs 2)"
  using assms unfolding body_param_rx_def
  by (simp only: rx_parts path_Star_iff) (elim exE conjE, simp add: caption_text_def)

definition vars_ok :: "string \<times> string \<times> string \<Rightarrow> bool" where
  "vars_ok vars \<longleftrightarrow> (case vars of (t, a, b) \<Rightarrow>
     (t = [] \<or> caption_text t) \<and> (a = [] \<or> caption_text a) \<and> (b = [] \<or> caption_text b))"

lemma body_step_ok: "vars_ok vars \<Longrightarrow> caption_text (str_of m 2) \<Longrightarrow> vars_ok (body_step m vars)"
  by (cases vars) (simp add: body_step_def vars_ok_def Let_def)

lemma body_vars:
  "vars_ok vars \<Longrightarrow> \<forall>m \<in> set ms. caption_text (str_of m 2) \<Longrightarrow> vars_ok (fold body_step ms vars)"
  by (induction ms arbitrary: vars) (simp_all add: body_step_ok)

lemma template_not_empty: "regex_search template_rx s \<noteq> None \<Longrightarrow> s \<noteq> []"
  unfolding regex_search_iff template_rx_def
  by (auto simp: plus_def path_Chr_iff)

lemma caption_not_empty: "regex_search caption_rx s \<noteq> None \<Longrightarrow> s \<noteq> []"
  unfolding regex_search_iff caption_rx_def
  by (auto simp: plus_def path_Chr_iff)

lemma body_check_params:
  assumes "body_check body [] = Inr (True, params)"
  shows "\<exists>t a b. params = [t, a, b] \<and> caption_text t \<and> caption_text a \<and> caption_text b"
proof -
  obtain d where d: "UriDecode body = Inr d"
    using assms by (auto simp: body_check_def result_bind_eq_Inr)
  let ?ms = "regex_matches body_param_rx d"
  obtain t a b where f: "fold body_step ?ms ([], [], []) = (t, a, b)" by (metis surj_pair)
  have "\<forall>m \<in> set ?ms. caption_text (str_of m 2)"
    using body_param.matches_path body_param_path by blast
  then have "vars_ok (t, a, b)"
    using body_vars [of "([], [], [])" ?ms] f by (simp add: vars_ok_def)
  moreover have "regex_search template_rx t \<noteq> None" "regex_search caption_rx a \<noteq> None"
      "regex_search caption_rx b \<noteq> None" "params = [t, a, b]"
    using assms f d by (auto simp: body_check_def split: if_splits)
  ultimately show ?thesis
    using template_not_empty caption_not_empty by (auto simp: vars_ok_def)
qed

definition hex_text :: "nat \<Rightarrow> string \<Rightarrow> bool" where
  "hex_text n s \<longleftrightarrow> length s = n \<and> (\<forall>c \<in> set s. is_hex c)"

lemma hex_class_iff: "class_has hex_class c \<longleftrightarrow> is_hex c"
  by (auto simp: hex_class_def is_hex_def is_digit_def)

lemma id_path:
  "rx_path id_rx 0 i [] [] t cs \<longleftrightarrow> (\<exists>a b c d e. i = a @ ''-'' @ b @ ''-'' @ c @ ''-'' @ d @ ''-'' @ e
     \<and> hex_text 8 a \<and> hex_text 4 b \<and> hex_text 4 c \<and> hex_text 4 d \<and> hex_text 12 e
     \<and> t = [] \<and> cs = [])" (is "_ \<longleftrightarrow> ?rhs")
proof
  assume "rx_path id_rx 0 i [] [] t cs"
  then show ?rhs
    unfolding id_rx_def hex_text_def
    by (simp only: rx_parts path_times hex_class_iff simp_thms, elim exE conjE, hypsubst, intro exI conjI)
      (rule refl | assumption | simp)+
next
  assume ?rhs
  then show "rx_path id_rx 0 i [] [] t cs"
    unfolding id_rx_def hex_text_def
    by (simp only: rx_parts path_times hex_class_iff simp_thms, elim exE conjE, hypsubst, intro exI conjI)
      (rule refl append_Nil2 [symmetric] | assumption)+
qed

lemma check_id_iff:
  "check_id i \<longleftrightarrow> (\<exists>a b c d e. i = a @ ''-'' @ b @ ''-'' @ c @ ''-'' @ d @ ''-'' @ e
     \<and> hex_text 8 a \<and> hex_text 4 b \<and> hex_text 4 c \<and> hex_text 4 d \<and> hex_text 12 e)"
proof -
  have "check_id i \<longleftrightarrow> (\<exists>t cs. rx_path id_rx 0 i [] [] t cs)"
    unfolding check_id_def id_rx_def regex_search_Bol
    by (simp only: map_option_is_None rx_run_iff_path path_Bol_iff simp_thms)
  then show ?thesis unfolding id_path by simp
qed

lemma check_id_facts:
  assumes "check_id i"
  shows "length i = 36" "is_hex (hd i)" "nul \<notin> set i"
proof -
  obtain a b c d e where i: "i = a @ ''-'' @ b @ ''-'' @ c @ ''-'' @ d @ ''-'' @ e"
    and t: "hex_text 8 a" "hex_text 4 b" "hex_text 4 c" "hex_text 4 d" "hex_text 12 e"
    using assms unfolding check_id_iff by blast
  have "\<not> is_hex nul" by (simp add: is_hex_def is_digit_def less_eq_char_def)
  then show "nul \<notin> set i" using t unfolding i hex_text_def by auto
  show "length i = 36" using t by (simp add: i hex_text_def)
  have "a \<noteq> []" using t(1) by (auto simp: hex_text_def)
  then show "is_hex (hd i)" using t(1) by (simp add: i hex_text_def)
qed

lemma not_hex: "\<not> is_hex (CHR ''m'')" "\<not> is_hex (CHR ''v'')" "\<not> is_hex (CHR ''s'')"
  by (simp_all add: is_hex_def is_digit_def less_eq_char_def)

section \<open>The handler the router makes\<close>

definition standard :: "meme_handler \<Rightarrow> bool" where
  "standard h \<longleftrightarrow> table_name h = ''meme_table'' \<and> field_names h = meme_fields"

lemma field_simps:
  "meme_fields ! 0 = ''id''" "meme_fields ! Suc 0 = ''img_path''" "meme_fields ! 1 = ''img_path''"
  "meme_fields ! 2 = ''top_caption''" "meme_fields ! 3 = ''bot_caption''"
  "meme_fields ! 4 = ''times_viewed''"
  by (simp_all add: meme_fields_def)

lemma parse_config_standard:
  "parse_config h0 = Inr (ok, h) \<Longrightarrow> standard h0 \<Longrightarrow> standard h \<and> sql_mgr h = sql_mgr h0"
  by (auto simp: parse_config_def result_bind_eq_Inr standard_def case_prod_unfold)

lemma create_meme_handler_cases:
  "\<exists>h db'. standard h \<and> create_meme_handler sq (Some b) root db = (Inr h, db')
     \<and> db' = snd (create_table sq ''meme_table'' meme_columns
                  (snd (connect sq (new_sql_manager ''meme.db'') db)))"
proof -
  let ?h0 = "\<lparr>config_ptr = Some b, root_path = root, path_to_meme_templates = [],
    path_to_memes = [], sql_mgr = new_sql_manager ''meme.db'', table_name = ''meme_table'',
    field_names = meme_fields\<rparr>"
  obtain ok h where p: "parse_config ?h0 = Inr (ok, h)"
    by (simp add: parse_config_def config_statements_def case_prod_unfold)
  have "standard ?h0" by (simp add: standard_def)
  then have "standard h" "sql_mgr h = new_sql_manager ''meme.db''"
    using parse_config_standard [OF p] by simp_all
  then show ?thesis
    using p by (auto simp: create_meme_handler_def standard_def split: prod.split)
qed

lemma meme_request_null: "meme_request sq new_uuid None root req db = (Inl Undefined_behaviour, db)"
  by (simp add: meme_request_def create_meme_handler_def parse_config_def config_statements_def)

text \<open>A GET request for an identifier is not taken for one of the handler's pages.\<close>

lemma get_dispatch:
  assumes "check_id i" and "check_uri (req_uri req) = i" and "req_method req = ''GET''"
  shows "meme_handle_request sq new_uuid h req db = get_meme_by_id sq h req i db"
proof -
  have len: "length i = 36" and hd: "is_hex (hd i)" using check_id_facts [OF assms(1)] by auto
  have "take 7 i \<noteq> ''manage/''" "take 5 i \<noteq> ''view/''" "take 7 i \<noteq> ''search/''"
    using len hd not_hex by (cases i; auto)+
  moreover have "i \<noteq> ''create''" "i \<noteq> ''create/''" "i \<noteq> ''view''" "i \<noteq> ''view/''" "i \<noteq> []"
      "i \<noteq> ''/''"
    using len by auto
  ultimately show ?thesis by (simp add: meme_handle_request_def assms(2,3))
qed

section \<open>The invariant of the table\<close>

text \<open>
  Every row has captions of allowed characters and a counter written by the code, and no
  counter is above \<open>n\<close>.
\<close>

definition row_ok :: "nat \<Rightarrow> meme_row \<Rightarrow> bool" where
  "row_ok n r \<longleftrightarrow> (case r of (img, a, b, v) \<Rightarrow>
     caption_text img \<and> caption_text a \<and> caption_text b \<and> (\<exists>k \<le> n. v = nat_string k))"

definition memes_ok :: "nat \<Rightarrow> memes \<Rightarrow> bool" where
  "memes_ok n m \<longleftrightarrow> (\<forall>i r. m i = Some r \<longrightarrow> nul \<notin> set i \<and> row_ok n r)"

lemma caption_no_nul: "caption_text s \<Longrightarrow> nul \<notin> set s"
  using caption_char_not(1) by (auto simp: caption_text_def)

lemma nat_string_no_nul: "nul \<notin> set (nat_string n)"
proof
  assume "nul \<in> set (nat_string n)"
  then have "is_digit nul" by (rule nat_string_digits)
  then show False by (simp add: is_digit_def less_eq_char_def)
qed

lemma row_ok_plain: "row_ok n r \<Longrightarrow> row_plain r"
  by (auto simp: row_ok_def row_plain_def caption_no_nul nat_string_no_nul split: prod.splits)

lemma memes_ok_plain: "memes_ok n m \<Longrightarrow> plain_memes m"
  unfolding memes_ok_def plain_memes_def using row_ok_plain by blast

lemma row_ok_mono: "row_ok n r \<Longrightarrow> n \<le> n' \<Longrightarrow> row_ok n' r"
  by (cases r) (auto simp: row_ok_def intro: le_trans)

lemma memes_ok_mono: "memes_ok n m \<Longrightarrow> n \<le> n' \<Longrightarrow> memes_ok n' m"
  unfolding memes_ok_def using row_ok_mono by blast

lemma memes_ok_update:
  assumes "memes_ok n m" and "nul \<notin> set i" and "row_ok n r"
  shows "memes_ok n (m(i \<mapsto> r))"
  using assms unfolding memes_ok_def by (metis fun_upd_apply option.inject)

lemma memes_ok_update_row:
  assumes "memes_ok n m" and "\<And>r. row_ok n r \<Longrightarrow> row_ok n (f r)"
  shows "memes_ok n (update_row i f m)"
proof (cases "m i")
  case (Some r)
  then have "nul \<notin> set i" and "row_ok n r" using assms(1) unfolding memes_ok_def by blast+
  then show ?thesis using Some assms memes_ok_update by (simp add: update_row_def)
qed (use assms(1) in \<open>simp add: update_row_def\<close>)

lemma memes_ok_delete: "memes_ok n m \<Longrightarrow> memes_ok n (m(i := None))"
  by (simp add: memes_ok_def)

lemma next_views_nat:
  assumes "int k < int_max"
  shows "next_views (nat_string k) = Inr (nat_string (Suc k))"
proof -
  have "stoi (nat_string k) = Inr (int k)"
    using stoi_nat_string [of k "[]"] assms by simp
  then show ?thesis using assms by (simp add: next_views_def int_string_def nat_add_distrib)
qed

section \<open>The effect of each method\<close>

text \<open>The calls of the handler in terms of the keys the store's contract is about.\<close>

lemma standard_keys:
  assumes "standard h"
  shows "table_name h = ''meme_table''" "field_names h = meme_fields"
    "[(''id'', i)] = id_key i"
    "[(''img_path'', img), (''top_caption'', a), (''bot_caption'', b)] = caption_params (img, a, b)"
    "[(''id'', i), (''img_path'', img), (''top_caption'', a), (''bot_caption'', b),
      (''times_viewed'', v)] = row_params i (img, a, b, v)"
  using assms by (simp_all add: standard_def id_key_def caption_params_def row_params_def)

context meme_sql
begin

lemma create_meme_effect:
  assumes "standard h" and "body_check (request_body req) [] = Inr (True, params)"
    and "nul \<notin> set uuid"
  shows "\<exists>t a b db'. params = [t, a, b] \<and> caption_text t \<and> caption_text a \<and> caption_text b
    \<and> memes db' = (if memes db uuid = None then (memes db)(uuid \<mapsto> (t, a, b, ''0'')) else memes db)
    \<and> create_meme sq uuid h req db =
        (Inr (if memes db uuid = None then id_response 201 uuid
              else text_response 500
                ''An error occurred while trying to create the provided meme!''), db')"
proof -
  obtain t a b where p: "params = [t, a, b]"
    and c: "caption_text t" "caption_text a" "caption_text b"
    using body_check_params [OF assms(2)] by blast
  have "row_plain (t, a, b, ''0'')" using c by (simp add: row_plain_def caption_no_nul)
  then obtain db' where
      "insert_record sq ''meme_table'' (row_params uuid (t, a, b, ''0'')) db
        = (memes db uuid = None, db')"
      "memes db' = (if memes db uuid = None then (memes db)(uuid \<mapsto> (t, a, b, ''0'')) else memes db)"
    using store.store_ins [OF assms(3)] by blast
  then show ?thesis
    using p c assms(2)
    by (intro exI [of _ t] exI [of _ a] exI [of _ b] exI [of _ db'])
      (simp add: create_meme_def generate_new_meme_def standard_keys [OF assms(1)] field_simps)
qed

lemma update_meme_effect:
  assumes "standard h" and "body_check (request_body req) [] = Inr (True, [t, a, b])"
    and "check_id i"
  shows "\<exists>db'. memes db' = update_row i (with_captions t a b) (memes db)
    \<and> update_meme sq h req i db = (Inr (id_response 200 i), db')"
proof -
  have "nul \<notin> set t \<union> set a \<union> set b"
    using body_check_params [OF assms(2)] caption_no_nul by auto
  then obtain db' where
      "update_record sq ''meme_table'' (caption_params (t, a, b)) (id_key i) db = (True, db')"
      "memes db' = update_row i (with_captions t a b) (memes db)"
    using store.store_upd check_id_facts(3) [OF assms(3)] by blast
  then show ?thesis
    using assms(2,3)
    by (simp add: update_meme_def standard_keys [OF assms(1)] field_simps)
qed

lemma delete_meme_effect:
  assumes "standard h" and "check_id i"
  shows "\<exists>db'. memes db' = (memes db)(i := None)
    \<and> delete_meme sq h req i db = (Inr (id_response 200 i), db')"
proof -
  obtain db' where "delete_record sq ''meme_table'' (id_key i) db = (True, db')"
      "memes db' = (memes db)(i := None)"
    using store.store_del check_id_facts(3) [OF assms(2)] by blast
  then show ?thesis
    using assms(2) by (simp add: delete_meme_def standard_keys [OF assms(1)] field_simps)
qed

lemma get_meme_missing:
  assumes "standard h" and "nul \<notin> set i" and "plain_memes (memes db)" and "memes db i = None"
  shows "get_meme_by_id sq h req i db =
    (Inr (text_response 404 ''The requested file could not be found!''), db)"
  using store.store_sel [OF assms(2,3)] assms(4)
  by (simp add: get_meme_by_id_def standard_keys [OF assms(1)] field_simps)

lemma get_meme_found:
  assumes "standard h" and "nul \<notin> set i" and "plain_memes (memes db)"
    and "memes db i = Some (img, a, b, nat_string k)" and "int k < int_max"
    and "img \<noteq> []" "a \<noteq> []" "b \<noteq> []"
  shows "\<exists>db'. memes db' = (memes db)(i \<mapsto> (img, a, b, nat_string (Suc k)))
    \<and> get_meme_by_id sq h req i db
        = (Inr (typed_response 200 (meme_json img a b) (get_mime_type ''.json'')), db')"
proof -
  have sel: "select_record sq ''meme_table'' (id_key i) db
      = (Inr [[i, img, a, b, nat_string k]], db)"
    using store.store_sel [OF assms(2,3)] assms(4) by (simp add: row_texts_def)
  obtain db' where
      "update_record sq ''meme_table'' [(''times_viewed'', nat_string (Suc k))] (id_key i) db
        = (True, db')"
      "memes db' = update_row i (with_views (nat_string (Suc k))) (memes db)"
    using store.store_upd_views [OF assms(2) nat_string_no_nul] by blast
  then show ?thesis
    using sel assms(4-8)
    by (simp add: get_meme_by_id_def standard_keys [OF assms(1)] field_simps next_views_nat
        update_row_def with_views_def)
qed

lemma get_meme_c_string:
  "get_meme_by_id sq h req (c_string i) db = get_meme_by_id sq h req i db"
proof -
  have c: "c_string (c_string i) = c_string i" by (simp add: c_string_def)
  have "select_record sq t [(k, c_string i)] d = select_record sq t [(k, i)] d" for t k d
    using statements_parametrised [of "[(k, c_string i)]" "[(k, i)]" "[]" "[]" t]
    by (simp add: select_record_def bound_def c)
  then show ?thesis by (simp add: get_meme_by_id_def)
qed

end

section \<open>The lists\<close>

definition views_of :: "string \<times> meme_row \<Rightarrow> nat" where
  "views_of p = (case p of (_, _, _, _, v) \<Rightarrow> digits_value v)"

definition item_of :: "string \<times> meme_row \<Rightarrow> string" where
  "item_of p = (case p of (i, img, a, b, v) \<Rightarrow>
     quoted (i @ '':'' @ v @ '':'' @ img @ '':'' @ a @ '':'' @ b))"

definition list_body :: "(string \<times> meme_row) list \<Rightarrow> string" where
  "list_body ps = ''['' @ separated (\<lambda>t. t) '','' [] (map item_of ps) @ '']''"

definition row_of :: "string \<times> meme_row \<Rightarrow> string list" where
  "row_of p = row_texts (fst p) (snd p)"

lemma row_of_views:
  assumes "row_ok n (snd p)" and "int n \<le> int_max"
  shows "meme_views (row_of p) = Inr (int (views_of p))"
proof -
  obtain i img a b v where p: "p = (i, img, a, b, v)" by (metis surj_pair)
  obtain k where "v = nat_string k" "k \<le> n" using assms(1) by (auto simp: p row_ok_def)
  then show ?thesis
    using stoi_nat_string [of k "[]"] assms(2)
    by (simp add: p row_of_def row_texts_def meme_views_def views_of_def)
qed

lemma insort_key_map: "insort_key f (g x) (map g xs) = map g (insort_key (\<lambda>y. f (g y)) x xs)"
  by (induction xs) simp_all

lemma sort_key_map: "sort_key f (map g xs) = map g (sort_key (\<lambda>y. f (g y)) xs)"
  by (induction xs) (simp_all add: insort_key_map)

lemma insort_key_int: "insort_key (\<lambda>y. int (f y)) x xs = insort_key f x xs"
  by (induction xs) simp_all

lemma sort_key_int: "sort_key (\<lambda>y. int (f y)) xs = sort_key f xs"
  by (induction xs) (simp_all add: insort_key_int)

lemma sort_memes_ok:
  assumes "\<forall>p \<in> set ps. row_ok n (snd p)" and "int n \<le> int_max"
  shows "sort_memes (map row_of ps) = Inr (map row_of (sort_key views_of ps))"
proof (cases "length ps < 2")
  case True
  then have "sort_key views_of ps = ps" by (cases ps) (auto simp: less_Suc_eq)
  then show ?thesis using True by (simp add: sort_memes_def)
next
  case False
  have "map_res (\<lambda>r. result_bind (meme_views r) (\<lambda>v. Inr (v, r))) (map row_of ps)
      = Inr (map (\<lambda>p. (int (views_of p), row_of p)) ps)"
    using assms row_of_views by (induction ps) auto
  then show ?thesis
    using False sort_key_map [of fst "\<lambda>p. (int (views_of p), row_of p)" ps]
    by (simp add: sort_memes_def comp_def sort_key_int)
qed

lemma list_response_ok:
  assumes "\<forall>p \<in> set ps. row_ok n (snd p)" and "int n \<le> int_max"
  shows "list_response (Inr (map row_of ps)) =
    Inr (typed_response 200 (list_body (rev (sort_key views_of ps))) (get_mime_type ''.json''))"
proof -
  have "list_item (row_of p) = Inr (item_of p)" for p
    by (cases p) (simp add: list_item_def row_of_def row_texts_def item_of_def quoted_def
        split: prod.split)
  then have "map_res list_item (map row_of qs) = Inr (map item_of qs)" for qs
    by (induction qs) simp_all
  then show ?thesis
    using sort_memes_ok [OF assms] by (simp add: list_response_def rev_map list_body_def)
qed

lemma row_of_eq: "(\<lambda>(i, r). row_texts i r) = row_of"
  by (simp add: row_of_def fun_eq_iff)

lemma rows_ok:
  assumes "memes_ok n m" and "map_of ps = m" and "distinct (map fst ps)"
  shows "\<forall>p \<in> set ps. row_ok n (snd p)"
proof
  fix p assume "p \<in> set ps"
  then have "m (fst p) = Some (snd p)" using assms(2,3) by (auto intro: map_of_is_SomeI)
  then show "row_ok n (snd p)" using assms(1) unfolding memes_ok_def by blast
qed

context meme_sql
begin

lemma meme_list_effect:
  assumes "standard h" and "memes_ok n (memes db)" and "int n \<le> int_max"
  shows "\<exists>ps. map_of ps = memes db \<and> distinct (map fst ps)
    \<and> meme_list sq h req db
        = (Inr (typed_response 200 (list_body (rev (sort_key views_of ps))) (get_mime_type ''.json'')),
           db)"
proof -
  obtain ps where ps: "select_record sq ''meme_table'' [] db = (Inr (map row_of ps), db)"
      "distinct (map fst ps)" "map_of ps = memes db"
    using store.store_sel_all [OF memes_ok_plain [OF assms(2)]] unfolding row_of_eq by blast
  then show ?thesis
    using list_response_ok [OF rows_ok [OF assms(2) ps(3,2)] assms(3)]
    by (intro exI [of _ ps]) (simp add: meme_list_def standard_keys [OF assms(1)])
qed

lemma search_sql_text:
  "c_string (search_sql ''meme_table'' [(''top_caption'', q), (''bot_caption'', q')]) =
     ''SELECT * FROM meme_table WHERE top_caption LIKE '' @ [CHR 0x27] @ ''%'' @ [CHR 0x27]
       @ '' || ?1|| '' @ [CHR 0x27] @ ''%'' @ [CHR 0x27] @ '' OR bot_caption LIKE '' @ [CHR 0x27]
       @ ''%'' @ [CHR 0x27] @ '' || ?2|| '' @ [CHR 0x27] @ ''%'' @ [CHR 0x27] @ '';''"
  by (simp add: search_sql_def nat_string_digit c_string_def)

lemma meme_search_effect:
  assumes "standard h" and "memes_ok n (memes db)" and "int n \<le> int_max" and "UriDecode q = Inr d"
  shows "\<exists>ps. distinct (map fst ps)
    \<and> map_of ps = (\<lambda>i. case memes db i of
         Some (img, a, b, v) \<Rightarrow>
           if like (c_string d) a \<or> like (c_string d) b then Some (img, a, b, v) else None
       | None \<Rightarrow> None)
    \<and> meme_search sq h req q db
        = (Inr (typed_response 200 (list_body (rev (sort_key views_of ps))) (get_mime_type ''.json'')),
           db)"
proof -
  let ?found = "\<lambda>i. case memes db i of
         Some (img, a, b, v) \<Rightarrow>
           if like (c_string d) a \<or> like (c_string d) b then Some (img, a, b, v) else None
       | None \<Rightarrow> None"
  let ?qp = "[(''top_caption'', d), (''bot_caption'', d)]"
  obtain ps where ps: "sqlite_query sq (c_string (search_sql ''meme_table'' ?qp)) (bound ?qp) db
      = (map (\<lambda>(i, r). map Some (row_texts i r)) ps, True, db)"
      "distinct (map fst ps)" "map_of ps = ?found"
    using sql_search [of "c_string d" "c_string d" db] unfolding search_sql_text bound_def by auto
  have sub: "?found i = Some r \<Longrightarrow> memes db i = Some r" for i r
    by (auto split: option.splits if_splits)
  have ok: "memes_ok n (map_of ps)"
    using assms(2) sub unfolding memes_ok_def ps(3) by blast
  have "all_rows (map (\<lambda>(i, r). map Some (row_texts i r)) ps) = Inr (map (\<lambda>(i, r). row_texts i r) ps)"
    using ps(2) by (intro all_rows_texts [OF memes_ok_plain [OF ok]]) simp
  then have "search_record sq ''meme_table'' ?qp db = (Inr (map row_of ps), db)"
    using ps(1) by (simp add: search_record_def read_rows_def row_of_eq)
  then show ?thesis
    using list_response_ok [OF rows_ok [OF ok refl ps(2)] assms(3)] ps(2,3) assms(4)
    by (intro exI [of _ ps]) (simp add: meme_search_def standard_keys [OF assms(1)] field_simps)
qed

end

section \<open>No faults\<close>

definition decode_failure :: fault where
  "decode_failure = Throw (Runtime_error ''stream decode failure'')"

lemma body_check_fault: "body_check body ps = Inl e \<Longrightarrow> e = decode_failure"
  using UriDecode_fault
  by (cases "UriDecode body")
    (auto simp: body_check_def decode_failure_def case_prod_unfold split: if_splits)

text \<open>What a method may do to a table that satisfies the invariant.\<close>

definition keeps_memes :: "('db \<Rightarrow> memes) \<Rightarrow> nat \<Rightarrow> response result \<times> 'db \<Rightarrow> bool" where
  "keeps_memes memes n out \<longleftrightarrow>
     memes_ok (Suc n) (memes (snd out)) \<and> (\<forall>e. fst out = Inl e \<longrightarrow> e = decode_failure)"

lemma keeps_memes_unchanged:
  "memes_ok n (memes db) \<Longrightarrow> keeps_memes memes n (Inr resp, db)"
  by (simp add: keeps_memes_def memes_ok_mono)

context meme_sql
begin

lemma create_meme_keeps:
  assumes "standard h" and "memes_ok n (memes db)" and "nul \<notin> set uuid"
  shows "keeps_memes memes n (create_meme sq uuid h req db)"
proof (cases "body_check (request_body req) []")
  case (Inl e)
  then show ?thesis
    using assms(2) body_check_fault by (simp add: create_meme_def keeps_memes_def memes_ok_mono)
next
  case (Inr cp)
  obtain check params where cp: "cp = (check, params)" by fastforce
  show ?thesis
  proof (cases check)
    case True
    then obtain t a b db' resp where e: "caption_text t" "caption_text a" "caption_text b"
        "memes db' = (if memes db uuid = None then (memes db)(uuid \<mapsto> (t, a, b, ''0''))
           else memes db)"
        "create_meme sq uuid h req db = (Inr resp, db')"
      using create_meme_effect [OF assms(1) _ assms(3), of req params db] Inr cp by auto
    have "row_ok (Suc n) (t, a, b, nat_string 0)" using e(1-3) by (auto simp: row_ok_def)
    moreover have "nat_string 0 = ''0''" by code_simp
    ultimately have "memes_ok (Suc n) (memes db')"
      using assms(2,3) e(4) by (simp add: memes_ok_mono memes_ok_update)
    then show ?thesis using e(5) by (simp add: keeps_memes_def)
  next
    case False
    then show ?thesis
      using Inr cp assms(2) by (simp add: create_meme_def keeps_memes_unchanged)
  qed
qed

lemma update_meme_keeps:
  assumes "standard h" and "memes_ok n (memes db)"
  shows "keeps_memes memes n (update_meme sq h req i db)"
proof (cases "body_check (request_body req) []")
  case (Inl e)
  then show ?thesis
    using assms(2) body_check_fault by (simp add: update_meme_def keeps_memes_def memes_ok_mono)
next
  case (Inr cp)
  obtain check params where cp: "cp = (check, params)" by fastforce
  show ?thesis
  proof (cases "check_id i \<and> check")
    case True
    then obtain t a b where p: "params = [t, a, b]"
      and c: "caption_text t" "caption_text a" "caption_text b"
      using body_check_params [of "request_body req" params] Inr cp by auto
    obtain db' where e: "memes db' = update_row i (with_captions t a b) (memes db)"
        "update_meme sq h req i db = (Inr (id_response 200 i), db')"
      using update_meme_effect [OF assms(1), of req t a b i db] Inr cp True p by auto
    have "row_ok n (with_captions t a b r)" if "row_ok n r" for r
      using that c by (cases r) (auto simp: row_ok_def with_captions_def)
    then have "memes_ok n (memes db')"
      unfolding e(1) using assms(2) by (intro memes_ok_update_row)
    then show ?thesis using e(2) by (simp add: keeps_memes_def memes_ok_mono)
  next
    case False
    then show ?thesis
      using Inr cp assms(2) by (simp add: update_meme_def keeps_memes_unchanged)
  qed
qed

lemma delete_meme_keeps:
  assumes "standard h" and "memes_ok n (memes db)"
  shows "keeps_memes memes n (delete_meme sq h req i db)"
proof (cases "check_id i")
  case True
  then obtain db' where "memes db' = (memes db)(i := None)"
      "delete_meme sq h req i db = (Inr (id_response 200 i), db')"
    using delete_meme_effect [OF assms(1)] by blast
  then show ?thesis using assms(2) by (simp add: keeps_memes_def memes_ok_delete memes_ok_mono)
qed (use assms(2) in \<open>simp add: delete_meme_def keeps_memes_unchanged\<close>)

lemma meme_search_keeps:
  assumes "standard h" and "memes_ok n (memes db)" and "int n \<le> int_max"
  shows "keeps_memes memes n (meme_search sq h req q db)"
proof (cases "UriDecode q")
  case (Inl e)
  then show ?thesis
    using assms(2) UriDecode_fault
    by (auto simp: meme_search_def keeps_memes_def memes_ok_mono decode_failure_def)
next
  case (Inr d)
  then show ?thesis
    using meme_search_effect [OF assms Inr, of req] assms(2) keeps_memes_unchanged by auto
qed

lemma get_meme_keeps:
  assumes "standard h" and "memes_ok n (memes db)" and "int n < int_max"
  shows "keeps_memes memes n (get_meme_by_id sq h req i db)"
proof -
  let ?i = "c_string i"
  have nul: "nul \<notin> set ?i" by (auto simp: c_string_def dest: set_takeWhileD)
  have plain: "plain_memes (memes db)" using assms(2) by (rule memes_ok_plain)
  have "keeps_memes memes n (get_meme_by_id sq h req ?i db)"
  proof (cases "memes db ?i")
    case None
    then show ?thesis
      using get_meme_missing [OF assms(1) nul plain] assms(2) keeps_memes_unchanged by simp
  next
    case (Some r)
    obtain img a b v where r: "r = (img, a, b, v)" by (metis surj_pair)
    have "row_ok n r" using assms(2) Some unfolding memes_ok_def by blast
    then obtain k where k: "v = nat_string k" "k \<le> n"
      and c: "caption_text img" "caption_text a" "caption_text b"
      by (auto simp: r row_ok_def)
    then obtain db' where e: "memes db' = (memes db)(?i \<mapsto> (img, a, b, nat_string (Suc k)))"
        "get_meme_by_id sq h req ?i db
          = (Inr (typed_response 200 (meme_json img a b) (get_mime_type ''.json'')), db')"
      using get_meme_found [OF assms(1) nul plain, of img a b k req] Some assms(3)
      by (auto simp: r caption_text_def)
    have "row_ok (Suc n) (img, a, b, nat_string (Suc k))" using c k by (auto simp: row_ok_def)
    then have "memes_ok (Suc n) (memes db')"
      unfolding e(1) using assms(2) nul by (intro memes_ok_update) (simp_all add: memes_ok_mono)
    then show ?thesis using e(2) by (simp add: keeps_memes_def)
  qed
  then show ?thesis by (simp only: get_meme_c_string)
qed

lemma meme_handle_keeps:
  assumes "standard h" and "memes_ok n (memes db)" and "int n < int_max" and "nul \<notin> set uuid"
  shows "keeps_memes memes n (meme_handle_request sq uuid h req db)"
proof -
  have "keeps_memes memes n (meme_list sq h req db)"
    using meme_list_effect [OF assms(1,2), of req] assms(2,3) keeps_memes_unchanged by auto
  then show ?thesis
    using assms unfolding meme_handle_request_def Let_def
    by (simp add: create_meme_keeps update_meme_keeps delete_meme_keeps meme_search_keeps
        get_meme_keeps keeps_memes_unchanged del: One_nat_def)
qed

lemma meme_request_standard:
  "\<exists>h db'. standard h \<and> memes db' = memes db
     \<and> (\<forall>uuid req. meme_request sq uuid (Some c) root req db = meme_handle_request sq uuid h req db')"
proof -
  have "memes (snd (create_table sq ''meme_table'' meme_columns
      (snd (connect sq (new_sql_manager ''meme.db'') db)))) = memes db"
    using sql_create [of "snd (sqlite_open sq ''meme.db'' db)"] sql_open [of db]
    by (simp add: create_table_def statement_texts connect_def new_sql_manager_def c_string_plain)
  moreover obtain h db' where "standard h"
      and c: "create_meme_handler sq (Some c) root db = (Inr h, db')"
      "db' = snd (create_table sq ''meme_table'' meme_columns
                (snd (connect sq (new_sql_manager ''meme.db'') db)))"
    using create_meme_handler_cases [of sq c root db] by blast
  ultimately show ?thesis
    by (intro exI [of _ h] exI [of _ db']) (simp add: meme_request_def c(1))
qed

end

end
