(* ===== verification/Meme_Claims.thy ===== *)
theory Meme_Claims
  imports Meme_Properties
begin

text \<open>
  The properties of the meme handler, over whole requests: each request makes a handler of its
  own, and the database is any engine with the documented behaviour. How views of one meme
  interleave is the subject of theory Meme_Views.
\<close>

section \<open>Requests to run the properties on\<close>

definition zero_id :: string where
  "zero_id = ''00000000-0000-0000-0000-000000000000''"

definition meme_req :: "string \<Rightarrow> string \<Rightarrow> string \<Rightarrow> request" where
  "meme_req method uri body =
     \<lparr>raw_request = [], request_size = 0, req_method = method, req_uri = uri, request_headers = [],
      request_body = body, query_string = [], req_valid = True\<rparr>"

definition sample_body :: string where
  "sample_body = ''memeSelect=cat.jpg&topCaption=So+much&bottomCaption=proof%21''"

definition sample_table :: table where
  "sample_table = [(zero_id, ''cat.jpg'', ''Hi'', ''you'', ''7'')]"

abbreviation engine :: "table sqlite" where
  "engine \<equiv> list_engine (=)"

lemma meme_req_simps [simp]:
  "req_method (meme_req m u b) = m" "req_uri (meme_req m u b) = u" "request_body (meme_req m u b) = b"
  by (simp_all add: meme_req_def)

lemma sample_body_check:
  "body_check sample_body [] = Inr (True, [''cat.jpg'', ''So much'', ''proof!''])"
  by code_simp

lemma zero_id_ok: "check_id zero_id"
  by code_simp

lemma zero_id_uri: "check_uri (''/memes/'' @ zero_id) = zero_id"
  by code_simp

lemma memes_uri: "check_uri ''/memes/'' = []"
  by code_simp

lemma empty_table_ok: "memes_ok n (map_of [])"
  by (simp add: memes_ok_def)

lemma sample_table_ok: "memes_ok 7 (map_of sample_table)"
proof -
  have "nat_string 7 = ''7''" by code_simp
  then have "row_ok 7 (''cat.jpg'', ''Hi'', ''you'', ''7'')"
    by (auto simp: row_ok_def caption_text_def caption_char_iff is_word_def is_digit_def
        is_upper_def is_lower_def less_eq_char_def intro!: exI [of _ 7])
  then show ?thesis
    using check_id_facts(3) [OF zero_id_ok] unfolding sample_table_def memes_ok_def by simp
qed

section \<open>Whole requests\<close>

definition json_ok :: "string \<Rightarrow> response result" where
  "json_ok body = Inr (typed_response 200 body ''application/json'')"

definition meme_not_found :: "response result" where
  "meme_not_found = Inr (text_response 404 ''The requested file could not be found!'')"

lemma json_mime [simp]: "get_mime_type ''.json'' = ''application/json''"
  by (simp add: get_mime_type_def mime_types_def umap_find_def)

text \<open>A POST request and a GET request for what it created, one after the other.\<close>

lemma create_then_get:
  assumes "meme_sql sq like memes" and "memes_ok n (memes db)"
    and "check_id uuid" and "memes db uuid = None"
    and "req_method post = ''POST''" and "body_check (request_body post) [] = Inr (True, [t, a, b])"
    and "req_method get = ''GET''" and "check_uri (req_uri get) = uuid"
    and "meme_request sq uuid (Some c) root post db = (r1, db1)"
    and "meme_request sq uuid' (Some c) root get db1 = (r2, db2)"
  shows "r1 = Inr (id_response 201 uuid) \<and> r2 = json_ok (meme_json t a b)
    \<and> memes db2 = (memes db)(uuid \<mapsto> (t, a, b, ''1''))"
proof -
  have nul: "nul \<notin> set uuid" using check_id_facts(3) [OF assms(3)] .
  obtain h d where h: "standard h" "memes d = memes db"
      "meme_request sq uuid (Some c) root post db = create_meme sq uuid h post d"
    using meme_sql.meme_request_standard [OF assms(1), of db c root] assms(5)
    by (auto simp: meme_handle_request_def)
  obtain d' where e: "memes d' = (memes db)(uuid \<mapsto> (t, a, b, ''0''))"
      "create_meme sq uuid h post d = (Inr (id_response 201 uuid), d')"
    and cap: "caption_text t" "caption_text a" "caption_text b"
    using meme_sql.create_meme_effect [OF assms(1) h(1) assms(6) nul, of d] assms(4) h(2) by auto
  have r1: "r1 = Inr (id_response 201 uuid)" and db1: "db1 = d'"
    using assms(9) h(3) e(2) by auto
  have zero: "nat_string 0 = ''0''" and one: "nat_string (Suc 0) = ''1''" by code_simp+
  have ok: "memes_ok n (memes db1)"
    unfolding db1 e(1) using assms(2) nul cap zero by (intro memes_ok_update) (auto simp: row_ok_def)
  obtain h2 d2 where h2: "standard h2" "memes d2 = memes db1"
      "meme_request sq uuid' (Some c) root get db1 = get_meme_by_id sq h2 get uuid d2"
    using meme_sql.meme_request_standard [OF assms(1), of db1 c root]
      get_dispatch [OF assms(3,8,7)] by metis
  have "plain_memes (memes d2)" using ok memes_ok_plain h2(2) by simp
  moreover have "memes d2 uuid = Some (t, a, b, nat_string 0)" by (simp add: h2(2) db1 e(1) zero)
  ultimately obtain d3 where "memes d3 = (memes d2)(uuid \<mapsto> (t, a, b, ''1''))"
      "get_meme_by_id sq h2 get uuid d2 = (json_ok (meme_json t a b), d3)"
    using meme_sql.get_meme_found [OF assms(1) h2(1) nul, of d2 t a b 0 get] cap one
    by (auto simp: caption_text_def int_max_def json_ok_def)
  then show ?thesis using r1 assms(10) h2(2,3) by (auto simp: db1 e(1))
qed

text \<open>
  A meme that is created can be read: for a table in the invariant without the new
  identifier, a POST request whose body passes the check is answered with 201 and the
  identifier, and a GET request for it then with exactly the template and captions that were
  sent; the table has one more row, and its view counter is 1.
\<close>

theorem created_then_served:
  assumes "meme_sql sq like memes" and "memes_ok n (memes db)"
    and "check_id uuid" and "memes db uuid = None"
    and "req_method post = ''POST''" and "body_check (request_body post) [] = Inr (True, [t, a, b])"
    and "req_method get = ''GET''" and "check_uri (req_uri get) = uuid"
    and "meme_request sq uuid (Some c) root post db = (r1, db1)"
    and "meme_request sq uuid' (Some c) root get db1 = (r2, db2)"
  shows "r1 = Inr (id_response 201 uuid) \<and> r2 = json_ok (meme_json t a b)
    \<and> memes db2 = (memes db)(uuid \<mapsto> (t, a, b, ''1''))"
  using assms by (rule create_then_get)

lemma created_then_served_witness:
  "fst (meme_request engine zero_id (Some []) [] (meme_req ''GET'' (''/memes/'' @ zero_id) [])
      (snd (meme_request engine zero_id (Some []) [] (meme_req ''POST'' ''/memes/'' sample_body) [])))
   = json_ok (meme_json ''cat.jpg'' ''So much'' ''proof!'')"
  using created_then_served
    [OF list_engine.meme_sql_axioms empty_table_ok [of 0] zero_id_ok, of
      "meme_req ''POST'' ''/memes/'' sample_body" _ _ _ "meme_req ''GET'' (''/memes/'' @ zero_id) []",
      OF _ _ _ _ _ prod.collapse [symmetric] prod.collapse [symmetric]]
    sample_body_check zero_id_uri
  by simp

text \<open>
  A meme that is deleted is gone: after a DELETE request for an identifier, answered with
  200, a GET request for it is answered with 404; no other row is touched by the two.
\<close>

theorem deleted_then_gone:
  assumes "meme_sql sq like memes" and "memes_ok n (memes db)" and "check_id i"
    and "req_method del = ''DELETE''" and "check_uri (req_uri del) = i"
    and "req_method get = ''GET''" and "check_uri (req_uri get) = i"
    and "meme_request sq uuid (Some c) root del db = (r1, db1)"
    and "meme_request sq uuid' (Some c) root get db1 = (r2, db2)"
  shows "r1 = Inr (id_response 200 i) \<and> r2 = meme_not_found \<and> memes db2 = (memes db)(i := None)"
proof -
  obtain h d where h: "standard h" "memes d = memes db"
      "meme_request sq uuid (Some c) root del db = delete_meme sq h del i d"
    using meme_sql.meme_request_standard [OF assms(1), of db c root] assms(4,5)
    by (auto simp: meme_handle_request_def)
  obtain d' where e: "memes d' = (memes db)(i := None)"
      "delete_meme sq h del i d = (Inr (id_response 200 i), d')"
    using meme_sql.delete_meme_effect [OF assms(1) h(1) assms(3), of d] h(2) by metis
  have db1: "db1 = d'" and r1: "r1 = Inr (id_response 200 i)" using assms(8) h(3) e(2) by auto
  obtain h2 d2 where h2: "standard h2" "memes d2 = memes db1"
      "meme_request sq uuid' (Some c) root get db1 = get_meme_by_id sq h2 get i d2"
    using meme_sql.meme_request_standard [OF assms(1), of db1 c root]
      get_dispatch [OF assms(3,7,6)] by metis
  have "memes_ok n (memes d2)" and none: "memes d2 i = None"
    using assms(2) by (simp_all add: h2(2) db1 e(1) memes_ok_delete)
  then have "plain_memes (memes d2)" by (simp add: memes_ok_plain)
  then have "get_meme_by_id sq h2 get i d2 = (meme_not_found, d2)"
    using meme_sql.get_meme_missing [OF assms(1) h2(1) check_id_facts(3) [OF assms(3)] _ none]
    by (simp add: meme_not_found_def)
  then show ?thesis using r1 assms(9) h2(2,3) by (auto simp: db1 e(1))
qed

lemma deleted_then_gone_witness:
  "fst (meme_request engine zero_id (Some []) [] (meme_req ''GET'' (''/memes/'' @ zero_id) [])
      (snd (meme_request engine zero_id (Some []) []
         (meme_req ''DELETE'' (''/memes/'' @ zero_id) []) sample_table))) = meme_not_found"
  using deleted_then_gone
    [OF list_engine.meme_sql_axioms sample_table_ok zero_id_ok, of
      "meme_req ''DELETE'' (''/memes/'' @ zero_id) []" "meme_req ''GET'' (''/memes/'' @ zero_id) []",
      OF _ _ _ _ prod.collapse [symmetric] prod.collapse [symmetric]]
    zero_id_uri
  by simp

text \<open>
  An update is always reported as done: a PUT request with a valid identifier and body is
  answered with 200 and the identifier whether or not there is such a meme; only an existing
  row changes, and keeps its view counter.
\<close>

theorem update_reports_success:
  assumes "meme_sql sq like memes" and "check_id i"
    and "req_method put = ''PUT''" and "check_uri (req_uri put) = i"
    and "body_check (request_body put) [] = Inr (True, [t, a, b])"
    and "meme_request sq uuid (Some c) root put db = (r, db')"
  shows "r = Inr (id_response 200 i)
    \<and> memes db' = (case memes db i of
        None \<Rightarrow> memes db
      | Some (_, _, _, v) \<Rightarrow> (memes db)(i \<mapsto> (t, a, b, v)))"
proof -
  obtain h d where h: "standard h" "memes d = memes db"
      "meme_request sq uuid (Some c) root put db = update_meme sq h put i d"
    using meme_sql.meme_request_standard [OF assms(1), of db c root] assms(3,4)
    by (auto simp: meme_handle_request_def)
  obtain d' where "memes d' = update_row i (with_captions t a b) (memes d)"
      "update_meme sq h put i d = (Inr (id_response 200 i), d')"
    using meme_sql.update_meme_effect [OF assms(1) h(1) assms(5,2)] by blast
  then show ?thesis
    using assms(6) h(2,3)
    by (auto simp: update_row_def with_captions_def split: option.split prod.split)
qed

lemma update_reports_success_witness:
  "fst (meme_request engine zero_id (Some []) []
      (meme_req ''PUT'' (''/memes/'' @ zero_id) sample_body) []) = Inr (id_response 200 zero_id)"
  using update_reports_success
    [OF list_engine.meme_sql_axioms zero_id_ok, of
      "meme_req ''PUT'' (''/memes/'' @ zero_id) sample_body", OF _ _ _ prod.collapse [symmetric]]
    sample_body_check zero_id_uri
  by simp

text \<open>
  C24. The handler's invariant: in a table whose captions consist of allowed characters and
  whose view counters are numbers not above \<open>n\<close>, any request leaves such a table with bound
  \<open>n + 1\<close>, and as long as \<open>n\<close> is below the largest \<open>int\<close> the only fault is the exception of
  the URI decoder.
\<close>

theorem meme_request_invariant:
  assumes "meme_sql sq like memes" and "memes_ok n (memes db)" and "int n < int_max"
    and "check_id uuid" and "meme_request sq uuid (Some c) root req db = (r, db')"
  shows "memes_ok (Suc n) (memes db')
    \<and> (\<forall>e. r = Inl e \<longrightarrow> e = Throw (Runtime_error ''stream decode failure''))"
proof -
  obtain h d where h: "standard h" "memes d = memes db"
      "meme_request sq uuid (Some c) root req db = meme_handle_request sq uuid h req d"
    using meme_sql.meme_request_standard [OF assms(1), of db c root] by blast
  have "keeps_memes memes n (meme_handle_request sq uuid h req d)"
    using meme_sql.meme_handle_keeps
        [OF assms(1) h(1) _ assms(3) check_id_facts(3) [OF assms(4)], of d req] assms(2) h(2)
    by simp
  then show ?thesis using assms(5) h(3) by (simp add: keeps_memes_def decode_failure_def)
qed

lemma meme_request_invariant_witness:
  "memes_ok 8 (map_of (snd (meme_request engine zero_id (Some []) []
      (meme_req ''GET'' (''/memes/'' @ zero_id) []) sample_table)))"
  using meme_request_invariant
    [OF list_engine.meme_sql_axioms sample_table_ok _ zero_id_ok prod.collapse [symmetric]]
  by (simp add: int_max_def)

text \<open>
  The list of memes is complete and ordered: a GET request for the list is answered with
  200 and a JSON array with one item per row of the table, by falling view counter.
\<close>

theorem meme_list_sorted:
  assumes "meme_sql sq like memes" and "memes_ok n (memes db)" and "int n \<le> int_max"
    and "req_method req = ''GET''" and "check_uri (req_uri req) = []"
    and "meme_request sq uuid (Some c) root req db = (r, db')"
  shows "\<exists>ps. map_of ps = memes db \<and> distinct (map fst ps)
    \<and> sorted_wrt (\<lambda>p q. views_of q \<le> views_of p) ps
    \<and> r = json_ok (list_body ps) \<and> memes db' = memes db"
proof -
  obtain h d where h: "standard h" "memes d = memes db"
      "meme_request sq uuid (Some c) root req db = meme_list sq h req d"
    using meme_sql.meme_request_standard [OF assms(1), of db c root] assms(4,5)
    by (auto simp: meme_handle_request_def)
  have "memes_ok n (memes d)" using assms(2) h(2) by simp
  then obtain ps where ps: "map_of ps = memes d" "distinct (map fst ps)"
      "meme_list sq h req d = (json_ok (list_body (rev (sort_key views_of ps))), d)"
    using meme_sql.meme_list_effect [OF assms(1) h(1) _ assms(3), of d req]
    by (auto simp: json_ok_def)
  let ?qs = "rev (sort_key views_of ps)"
  have d: "distinct (map fst ?qs)"
    using ps(2) by (simp add: distinct_map inj_on_def)
  have "map_of ?qs = map_of ps"
    using d ps(2) by (simp add: map_of_inject_set)
  moreover have "sorted (map views_of (sort_key views_of ps))" by (rule sorted_sort_key)
  then have "sorted_wrt (\<lambda>p q. views_of q \<le> views_of p) ?qs"
    by (simp add: sorted_wrt_rev sorted_map)
  ultimately show ?thesis
    using d ps(1,3) h(2,3) assms(6) by (intro exI [of _ ?qs]) simp
qed

lemma meme_list_sorted_witness:
  "\<exists>ps. map_of ps = map_of sample_table
    \<and> fst (meme_request engine zero_id (Some []) [] (meme_req ''GET'' ''/memes/'' []) sample_table)
        = json_ok (list_body ps)"
  using meme_list_sorted
    [OF list_engine.meme_sql_axioms sample_table_ok, of "meme_req ''GET'' ''/memes/'' []",
      OF _ _ _ prod.collapse [symmetric]] memes_uri
  by (simp add: int_max_def) blast

text \<open>
  C33. Accepted captions cannot break the JSON they are served in: the three parameters of an
  accepted body are not empty, and the object a meme made of them is served as contains the
  twelve quotation marks of its fixed part only, no backslash and no line feed.
\<close>

theorem accepted_body_json:
  assumes "body_check body [] = Inr (True, params)"
  shows "\<exists>t a b. params = [t, a, b] \<and> t \<noteq> [] \<and> a \<noteq> [] \<and> b \<noteq> []
    \<and> count_list (meme_json t a b) (CHR 0x22) = 12
    \<and> CHR 0x5C \<notin> set (meme_json t a b) \<and> lf \<notin> set (meme_json t a b)"
proof -
  obtain t a b where p: "params = [t, a, b]"
    and c: "caption_text t" "caption_text a" "caption_text b"
    using body_check_params [OF assms] by blast
  have no: "CHR 0x22 \<notin> set s \<and> CHR 0x5C \<notin> set s \<and> lf \<notin> set s" if "caption_text s" for s
    using that caption_char_not by (auto simp: caption_text_def)
  have "count_list s (CHR 0x22) = 0" if "caption_text s" for s
    using no [OF that] by (simp add: count_notin)
  then have "count_list (meme_json t a b) (CHR 0x22) = 12"
    using c by (simp add: meme_json_def quoted_def count_list_append)
  moreover have "CHR 0x5C \<notin> set (meme_json t a b)" "lf \<notin> set (meme_json t a b)"
    using no [OF c(1)] no [OF c(2)] no [OF c(3)] by (simp_all add: meme_json_def quoted_def)
  ultimately show ?thesis using p c by (auto simp: caption_text_def)
qed

lemma accepted_body_json_witness:
  "count_list (meme_json ''cat.jpg'' ''So much'' ''proof!'') (CHR 0x22) = 12"
  using accepted_body_json [OF sample_body_check] by simp

text \<open>
  Identifiers are checked in full: the handler accepts an identifier exactly when it is five
  groups of 8, 4, 4, 4 and 12 hexadecimal digits with hyphens between them.
\<close>

theorem identifier_format:
  "check_id i \<longleftrightarrow> (\<exists>a b c d e. i = a @ ''-'' @ b @ ''-'' @ c @ ''-'' @ d @ ''-'' @ e
     \<and> hex_text 8 a \<and> hex_text 4 b \<and> hex_text 4 c \<and> hex_text 4 d \<and> hex_text 12 e)"
  by (rule check_id_iff)

text \<open>
  The dot in the pattern for a template name is not escaped, so a name that only ends in
  \<open>jpg\<close> passes.
\<close>

lemma template_without_dot:
  "body_check ''memeSelect=notjpg&topCaption=a&bottomCaption=b'' []
     = Inr (True, [''notjpg'', ''a'', ''b''])"
  by code_simp

end
