(* ===== verification/Meme_Views.thy ===== *)
theory Meme_Views
  imports Meme_Claims
begin

text \<open>
  Several views of one meme at the same time. \<open>get_meme_by_id\<close> selects the row and then updates
  its counter, on a connection of its own; nothing is held in between, so the two steps of
  different threads interleave freely. The steps are the two database calls of the method
  (\<open>view_steps_of_get\<close>), and each may find the database locked by another connection: a selection
  then has no row and the view is over, and of an update that fails the method takes no notice.
  The properties say how far the counter can be off: over all schedules it counts at most all of
  the views whose update got through, and at least one if there are any.
\<close>

section \<open>The two steps of a view\<close>

text \<open>A view that is over has counted, or has met a lock in its selection or its update.\<close>

datatype view_pc = Ready | Selected string | Counted | Uncounted

definition view_select ::
  "'db sqlite \<Rightarrow> meme_handler \<Rightarrow> string \<Rightarrow> 'db \<Rightarrow> string list list result \<times> 'db" where
  "view_select sq h meme_id db = select_record sq (table_name h) [(field_names h ! 0, meme_id)] db"

definition view_update ::
  "'db sqlite \<Rightarrow> meme_handler \<Rightarrow> string \<Rightarrow> string \<Rightarrow> 'db \<Rightarrow> bool \<times> 'db" where
  "view_update sq h row_id v' db =
     update_record sq (table_name h) [(field_names h ! 4, v')] [(field_names h ! 0, row_id)] db"

inductive view_step ::
  "'db sqlite \<Rightarrow> 'db sqlite \<Rightarrow> meme_handler \<Rightarrow> string \<Rightarrow> (nat \<Rightarrow> view_pc) \<times> 'db \<Rightarrow>
     (nat \<Rightarrow> view_pc) \<times> 'db \<Rightarrow> bool"
  for sq bq h meme_id
  where
    select_step:
      "pcs t = Ready \<Longrightarrow> view_select sq h meme_id db = (Inr [row], db') \<Longrightarrow>
       result_bind (nth_res row 4) next_views = Inr v' \<Longrightarrow>
       view_step sq bq h meme_id (pcs, db) (pcs(t := Selected v'), db')"
  | select_locked:
      "pcs t = Ready \<Longrightarrow> view_select bq h meme_id db = (Inr rows, db') \<Longrightarrow> length rows \<noteq> 1 \<Longrightarrow>
       view_step sq bq h meme_id (pcs, db) (pcs(t := Uncounted), db')"
  | update_step:
      "pcs t = Selected v' \<Longrightarrow> view_update sq h meme_id v' db = (ok, db') \<Longrightarrow>
       view_step sq bq h meme_id (pcs, db) (pcs(t := Counted), db')"
  | update_locked:
      "pcs t = Selected v' \<Longrightarrow> view_update bq h meme_id v' db = (ok, db') \<Longrightarrow>
       view_step sq bq h meme_id (pcs, db) (pcs(t := Uncounted), db')"

inductive_cases view_stepE: "view_step sq bq h meme_id (pcs, db) st"

text \<open>One thread's two steps, with no other in between, are the method.\<close>

lemma view_steps_of_get:
  assumes "view_select sq h meme_id db = (Inr [[meme_id, img, a, b, v]], db')"
    and "next_views v = Inr v'" and "view_update sq h meme_id v' db' = (ok, db'')"
  shows "snd (get_meme_by_id sq h req meme_id db) = db''"
  using assms by (simp add: get_meme_by_id_def view_select_def view_update_def)

section \<open>The invariant\<close>

definition counted :: "nat set \<Rightarrow> (nat \<Rightarrow> view_pc) \<Rightarrow> nat" where
  "counted T pcs = card {t \<in> T. pcs t = Counted}"

definition view_over :: "view_pc \<Rightarrow> bool" where
  "view_over pc \<longleftrightarrow> pc = Counted \<or> pc = Uncounted"

definition view_inv ::
  "('db \<Rightarrow> memes) \<Rightarrow> string \<Rightarrow> string \<times> string \<times> string \<Rightarrow> nat set \<Rightarrow> nat \<Rightarrow>
     (nat \<Rightarrow> view_pc) \<times> 'db \<Rightarrow> bool" where
  "view_inv memes i caps T k st \<longleftrightarrow>
     (case st of (pcs, db) \<Rightarrow> case caps of (img, a, b) \<Rightarrow>
        plain_memes (memes db)
        \<and> (\<forall>t. t \<notin> T \<longrightarrow> view_over (pcs t))
        \<and> (\<exists>m. memes db i = Some (img, a, b, nat_string m)
             \<and> (if counted T pcs = 0 then m = k else k < m) \<and> m \<le> k + counted T pcs)
        \<and> (\<forall>t \<in> T. \<forall>v. pcs t = Selected v \<longrightarrow>
             (\<exists>r. v = nat_string r \<and> k < r \<and> r \<le> Suc (k + counted T pcs))))"

lemma view_invI:
  assumes "plain_memes (memes db)" and "\<And>t. t \<notin> T \<Longrightarrow> view_over (pcs t)"
    and "memes db i = Some (img, a, b, nat_string m)"
    and "if counted T pcs = 0 then m = k else k < m" and "m \<le> k + counted T pcs"
    and "\<And>t v. t \<in> T \<Longrightarrow> pcs t = Selected v \<Longrightarrow>
      \<exists>r. v = nat_string r \<and> k < r \<and> r \<le> Suc (k + counted T pcs)"
  shows "view_inv memes i (img, a, b) T k (pcs, db)"
  using assms unfolding view_inv_def prod.case by blast

lemma view_over_simps [simp]:
  "\<not> view_over Ready" "\<not> view_over (Selected v)" "view_over Counted" "view_over Uncounted"
  by (simp_all add: view_over_def)

lemma counted_other:
  assumes "pcs t \<noteq> Counted" and "v \<noteq> Counted"
  shows "counted T (pcs(t := v)) = counted T pcs"
proof -
  have "{u \<in> T. (pcs(t := v)) u = Counted} = {u \<in> T. pcs u = Counted}" using assms by auto
  then show ?thesis by (simp add: counted_def)
qed

lemma counted_more:
  assumes "finite T" and "t \<in> T" and "pcs t \<noteq> Counted"
  shows "counted T (pcs(t := Counted)) = Suc (counted T pcs)"
proof -
  have "{u \<in> T. (pcs(t := Counted)) u = Counted} = insert t {u \<in> T. pcs u = Counted}"
    using assms(2) by auto
  then show ?thesis using assms by (simp add: counted_def)
qed

lemma counted_le: "finite T \<Longrightarrow> counted T pcs \<le> card T"
  unfolding counted_def by (rule card_mono) auto

text \<open>A view that meets a lock changes neither the table nor what the others are about to write.\<close>

lemma view_inv_locked:
  assumes "view_inv memes i caps T k (pcs, db)" and "pcs t \<noteq> Counted" and "memes db' = memes db"
  shows "view_inv memes i caps T k (pcs(t := Uncounted), db')"
  using assms counted_other [where pcs = pcs and t = t and v = Uncounted and T = T, OF assms(2)]
  by (cases caps) (auto simp: view_inv_def)

context meme_sql
begin

lemma view_select_row:
  assumes "standard h" and "nul \<notin> set i" and "plain_memes (memes db)"
    and "memes db i = Some (img, a, b, v)"
  shows "view_select sq h i db = (Inr [[i, img, a, b, v]], db)"
  using store.store_sel [OF assms(2,3)] assms(4)
  by (simp add: view_select_def standard_keys [OF assms(1)] field_simps row_texts_def)

lemma view_update_row:
  assumes "standard h" and "nul \<notin> set i" and "memes db i = Some (img, a, b, v)"
    and "view_update sq h i (nat_string r) db = (ok, db')"
  shows "memes db' = (memes db)(i \<mapsto> (img, a, b, nat_string r))"
  using store.store_upd_views [OF assms(2) nat_string_no_nul, of r db] assms(3,4)
  by (auto simp: view_update_def standard_keys [OF assms(1)] field_simps update_row_def
      with_views_def)

end

context shared_sql
begin

lemma view_select_locked: "view_select bq h i db = (r, db') \<Longrightarrow> r = Inr [] \<and> memes db' = memes db"
  using locked_records(4) [of "table_name h" "[(field_names h ! 0, i)]" db]
  by (auto simp: view_select_def)

lemma view_update_locked: "view_update bq h i v db = (ok, db') \<Longrightarrow> memes db' = memes db"
  using locked_records(2) [of "table_name h" "[(field_names h ! 4, v)]" "[(field_names h ! 0, i)]" db]
  by (auto simp: view_update_def)

lemma view_step_inv:
  assumes "view_step sq bq h i st st'" and "view_inv memes i caps T k st"
    and "standard h" and "nul \<notin> set i" and "finite T" and "int (k + card T) < int_max"
  shows "view_inv memes i caps T k st'"
proof -
  obtain img a b where caps: "caps = (img, a, b)" by (metis surj_pair)
  obtain pcs db where st: "st = (pcs, db)" by fastforce
  obtain m where plain: "plain_memes (memes db)" and out: "\<forall>t. t \<notin> T \<longrightarrow> view_over (pcs t)"
    and m: "memes db i = Some (img, a, b, nat_string m)" "if counted T pcs = 0 then m = k else k < m"
      "m \<le> k + counted T pcs"
    and sel: "\<forall>t \<in> T. \<forall>v. pcs t = Selected v \<longrightarrow>
             (\<exists>r. v = nat_string r \<and> k < r \<and> r \<le> Suc (k + counted T pcs))"
    using assms(2) by (auto simp: view_inv_def st caps)
  have "view_step sq bq h i (pcs, db) st'" using assms(1) st by simp
  then consider
      (1) t row db' v' where "st' = (pcs(t := Selected v'), db')" "pcs t = Ready"
        "view_select sq h i db = (Inr [row], db')" "result_bind (nth_res row 4) next_views = Inr v'"
    | (2) t v' ok db' where "st' = (pcs(t := Counted), db')" "pcs t = Selected v'"
        "view_update sq h i v' db = (ok, db')"
    | (3) t db' where "st' = (pcs(t := Uncounted), db')" "pcs t \<noteq> Counted" "memes db' = memes db"
  proof (elim view_stepE)
    fix t rows db'
    assume "st' = (pcs(t := Uncounted), db')" "pcs t = Ready" "view_select bq h i db = (Inr rows, db')"
    then show ?thesis using 3 [of t db'] view_select_locked by simp
  next
    fix t v' ok db'
    assume "st' = (pcs(t := Uncounted), db')" "pcs t = Selected v'" "view_update bq h i v' db = (ok, db')"
    then show ?thesis using 3 [of t db'] view_update_locked by simp
  qed (use that in metis)+
  then show ?thesis
  proof cases
    case (1 t row db' v')
    have "int m < int_max" using m(3) counted_le [OF assms(5), of pcs] assms(6) by simp
    then have "next_views (nat_string m) = Inr (nat_string (Suc m))" by (rule next_views_nat)
    then have v': "v' = nat_string (Suc m)" and db': "db' = db"
      using 1(3,4) view_select_row [OF assms(3,4) plain m(1)] by auto
    have t: "t \<in> T" using 1(2) out by fastforce
    have k: "k < Suc m" using m(2) by (simp split: if_splits)
    have fin: "counted T (pcs(t := Selected v')) = counted T pcs"
      using 1(2) by (intro counted_other) simp_all
    show ?thesis
      unfolding 1(1) caps db'
    proof (rule view_invI)
      fix u v assume "u \<in> T" "(pcs(t := Selected v')) u = Selected v"
      then show "\<exists>r. v = nat_string r \<and> k < r \<and> r \<le> Suc (k + counted T (pcs(t := Selected v')))"
        using sel k m(3) unfolding fin by (cases "u = t") (auto simp: v')
    qed (use plain out m t fin in auto)
  next
    case (2 t v' ok db')
    have t: "t \<in> T" using 2(2) out by fastforce
    then obtain r where r: "v' = nat_string r" "k < r" "r \<le> Suc (k + counted T pcs)"
      using sel 2(2) by blast
    have db': "memes db' = (memes db)(i \<mapsto> (img, a, b, nat_string r))"
      using view_update_row [OF assms(3,4) m(1)] 2(3) r(1) by blast
    have "row_plain (img, a, b, nat_string m)" using plain m(1) unfolding plain_memes_def by blast
    then have plain': "plain_memes (memes db')"
      using plain assms(4) nat_string_no_nul unfolding db' plain_memes_def
      by (auto simp: row_plain_def)
    have fin: "counted T (pcs(t := Counted)) = Suc (counted T pcs)"
      using 2(2) by (intro counted_more assms(5) t) simp
    show ?thesis
      unfolding 2(1) caps
    proof (rule view_invI)
      show "memes db' i = Some (img, a, b, nat_string r)" by (simp add: db')
      fix u v assume "u \<in> T" "(pcs(t := Counted)) u = Selected v"
      then have "u \<in> T" "pcs u = Selected v" by (auto split: if_splits)
      then obtain q where "v = nat_string q" "k < q" "q \<le> Suc (k + counted T pcs)"
        using sel by blast
      then show "\<exists>r. v = nat_string r \<and> k < r \<and> r \<le> Suc (k + counted T (pcs(t := Counted)))"
        unfolding fin by (intro exI [of _ q]) simp
    qed (use plain' out r fin in auto)
  next
    case 3
    then show ?thesis using view_inv_locked assms(2) st by metis
  qed
qed

lemma view_reach_inv:
  assumes "rtranclp (view_step sq bq h i) st st'" and "view_inv memes i caps T k st"
    and "standard h" and "nul \<notin> set i" and "finite T" and "int (k + card T) < int_max"
  shows "view_inv memes i caps T k st'"
  using assms(1,2) by (induction rule: rtranclp_induct) (blast intro: view_step_inv [OF _ _ assms(3-6)])+

end

section \<open>Properties\<close>

text \<open>
  C25. Concurrent views: whatever the schedule of threads that view the same meme, each on its own
  connection, whose statements get their locks or find the database locked: once all views are
  over, the counter has grown by at most the number of views whose update got through, and by at
  least one if there is such a view; if there is none it is as it was. The template and the
  captions are untouched.
\<close>

theorem concurrent_views_bounds:
  assumes "shared_sql sq like memes bq" and "standard h" and "nul \<notin> set i"
    and "plain_memes (memes db)" and "memes db i = Some (img, a, b, nat_string k)"
    and "finite T" and "int (k + card T) < int_max"
    and "rtranclp (view_step sq bq h i) (\<lambda>t. if t \<in> T then Ready else Uncounted, db) (pcs, db')"
    and "\<forall>t \<in> T. pcs t = Counted \<or> pcs t = Uncounted"
  shows "\<exists>m. memes db' i = Some (img, a, b, nat_string m)
    \<and> m \<le> k + card {t \<in> T. pcs t = Counted}
    \<and> (if \<exists>t \<in> T. pcs t = Counted then k + 1 \<le> m else m = k)"
proof -
  have none: "counted T (\<lambda>t. if t \<in> T then Ready else Uncounted) = 0"
    by (simp add: counted_def assms(6))
  have some: "counted T pcs = 0 \<longleftrightarrow> \<not> (\<exists>t \<in> T. pcs t = Counted)"
    using assms(6) by (auto simp: counted_def)
  have "view_inv memes i (img, a, b) T k (\<lambda>t. if t \<in> T then Ready else Uncounted, db)"
    using assms(4,5) none by (intro view_invI [where m = k]) auto
  then have "view_inv memes i (img, a, b) T k (pcs, db')"
    using shared_sql.view_reach_inv [OF assms(1,8) _ assms(2,3,6,7)] by blast
  then show ?thesis using some by (auto simp: view_inv_def counted_def split: if_splits)
qed

text \<open>
  A view can be lost: for two threads there is a schedule after which both are done and the
  counter has grown by one only.
\<close>

theorem view_lost:
  assumes "meme_sql sq like memes" and "standard h" and "nul \<notin> set i"
    and "plain_memes (memes db)" and "memes db i = Some (img, a, b, nat_string k)"
    and "int k < int_max" and "pcs 0 = Ready" and "pcs 1 = Ready"
  shows "\<exists>db'. rtranclp (view_step sq bq h i) (pcs, db) (pcs(0 := Counted, 1 := Counted), db')
    \<and> memes db' i = Some (img, a, b, nat_string (k + 1))"
proof -
  let ?v = "nat_string (Suc k)" and ?step = "view_step sq bq h i"
  have sel: "view_select sq h i db = (Inr [[i, img, a, b, nat_string k]], db)"
    using meme_sql.view_select_row [OF assms(1-5)] .
  have nv: "result_bind (nth_res [i, img, a, b, nat_string k] 4) next_views = Inr ?v"
    using next_views_nat [OF assms(6)] by simp
  obtain ok db1 where u1: "view_update sq h i ?v db = (ok, db1)" by fastforce
  obtain ok' db2 where u2: "view_update sq h i ?v db1 = (ok', db2)" by fastforce
  have m1: "memes db1 i = Some (img, a, b, ?v)"
    using meme_sql.view_update_row [OF assms(1-3,5) u1] by simp
  have m2: "memes db2 i = Some (img, a, b, ?v)"
    using meme_sql.view_update_row [OF assms(1-3) m1 u2] by simp
  let ?p1 = "pcs(0 := Selected ?v)" and ?p2 = "pcs(0 := Selected ?v, 1 := Selected ?v)"
  have "?step (pcs, db) (?p1, db)" by (rule select_step [where pcs = pcs, OF assms(7) sel nv])
  moreover have "?step (?p1, db) (?p2, db)"
    using assms(8) by (intro select_step [where pcs = ?p1, OF _ sel nv]) simp
  moreover have "?step (?p2, db) (?p2(0 := Counted), db1)"
    by (intro update_step [where pcs = ?p2, OF _ u1]) simp
  moreover have "?step (?p2(0 := Counted), db1) (?p2(0 := Counted, 1 := Counted), db2)"
    by (intro update_step [where pcs = "?p2(0 := Counted)", OF _ u2]) simp
  ultimately have "rtranclp ?step (pcs, db) (?p2(0 := Counted, 1 := Counted), db2)"
    by (meson rtranclp.rtrancl_into_rtrancl rtranclp.rtrancl_refl)
  moreover have "?p2(0 := Counted, 1 := Counted) = pcs(0 := Counted, 1 := Counted)"
    by (simp add: fun_eq_iff)
  ultimately show ?thesis using m2 by auto
qed

definition sample_handler :: meme_handler where
  "sample_handler =
     \<lparr>config_ptr = None, root_path = [], path_to_meme_templates = [], path_to_memes = [],
      sql_mgr = new_sql_manager ''meme.db'', table_name = ''meme_table'',
      field_names = meme_fields\<rparr>"

lemma sample_facts:
  "standard sample_handler" "nul \<notin> set zero_id" "plain_memes (map_of sample_table)"
  "map_of sample_table zero_id = Some (''cat.jpg'', ''Hi'', ''you'', nat_string 7)"
proof -
  show "standard sample_handler" by (simp add: standard_def sample_handler_def)
  show "nul \<notin> set zero_id" using check_id_facts(3) [OF zero_id_ok] .
  show "plain_memes (map_of sample_table)" using memes_ok_plain [OF sample_table_ok] .
  have "nat_string 7 = ''7''" by code_simp
  then show "map_of sample_table zero_id = Some (''cat.jpg'', ''Hi'', ''you'', nat_string 7)"
    by (simp add: sample_table_def)
qed

lemma view_lost_witness:
  "\<exists>db'. rtranclp (view_step engine locked_engine sample_handler zero_id) (\<lambda>_. Ready, sample_table)
       ((\<lambda>_. Ready)(0 := Counted, 1 := Counted), db')
     \<and> map_of db' zero_id = Some (''cat.jpg'', ''Hi'', ''you'', nat_string (7 + 1))"
  by (rule view_lost [OF list_engine.meme_sql_axioms sample_facts])
    (simp_all add: int_max_def)

text \<open>Two views, of which the second finds the database locked when it is to write.\<close>

lemma concurrent_views_bounds_witness:
  "\<exists>db' m. rtranclp (view_step engine locked_engine sample_handler zero_id)
         (\<lambda>t. if t \<in> {0, 1} then Ready else Uncounted, sample_table)
         ((\<lambda>_. Uncounted)(0 := Counted), db')
     \<and> map_of db' zero_id = Some (''cat.jpg'', ''Hi'', ''you'', nat_string m) \<and> 8 \<le> m \<and> m \<le> 8"
proof -
  let ?step = "view_step engine locked_engine sample_handler zero_id"
  let ?p = "\<lambda>t. if t \<in> {0::nat, 1} then Ready else Uncounted" and ?v = "nat_string (Suc 7)"
  let ?p1 = "?p(0 := Selected ?v)" and ?p2 = "?p(0 := Selected ?v, 1 := Selected ?v)"
  have sel: "view_select engine sample_handler zero_id sample_table
      = (Inr [[zero_id, ''cat.jpg'', ''Hi'', ''you'', nat_string 7]], sample_table)"
    using list_engine.view_select_row [OF sample_facts] .
  have nv: "result_bind (nth_res [zero_id, ''cat.jpg'', ''Hi'', ''you'', nat_string 7] 4) next_views
      = Inr ?v"
    using next_views_nat [of 7] by (simp add: int_max_def)
  obtain ok db' where u: "view_update engine sample_handler zero_id ?v sample_table = (ok, db')"
    by fastforce
  have l: "view_update locked_engine sample_handler zero_id ?v db' = (False, db')"
    by (simp add: view_update_def update_record_def single_step_def locked_engine_def)
  have "?step (?p, sample_table) (?p1, sample_table)"
    by (intro select_step [where pcs = ?p, OF _ sel nv]) simp
  moreover have "?step (?p1, sample_table) (?p2, sample_table)"
    by (intro select_step [where pcs = ?p1, OF _ sel nv]) simp
  moreover have "?step (?p2, sample_table) (?p2(0 := Counted), db')"
    by (intro update_step [where pcs = ?p2, OF _ u]) simp
  moreover have "?step (?p2(0 := Counted), db') (?p2(0 := Counted, 1 := Uncounted), db')"
    by (intro update_locked [where pcs = "?p2(0 := Counted)", OF _ l]) simp
  ultimately have "rtranclp ?step (?p, sample_table) (?p2(0 := Counted, 1 := Uncounted), db')"
    by (meson rtranclp.rtrancl_into_rtrancl rtranclp.rtrancl_refl)
  moreover have "?p2(0 := Counted, 1 := Uncounted) = (\<lambda>_. Uncounted)(0 := Counted)"
    by (simp add: fun_eq_iff)
  ultimately have run: "rtranclp ?step (?p, sample_table) ((\<lambda>_. Uncounted)(0 := Counted), db')"
    by simp
  have c: "{t \<in> {0, 1}. ((\<lambda>_. Uncounted)(0 := Counted)) t = Counted} = {0::nat}" by auto
  have e: "\<exists>t \<in> {0::nat, 1}. ((\<lambda>_. Uncounted)(0 := Counted)) t = Counted" by simp
  have T: "finite {0::nat, 1}" by simp
  have seven: "int (7 + card {0::nat, 1}) < int_max" by (simp add: int_max_def)
  have over: "\<forall>t \<in> {0, 1}. ((\<lambda>_. Uncounted)(0 := Counted)) t = Counted
      \<or> ((\<lambda>_. Uncounted)(0 := Counted)) t = Uncounted" by simp
  obtain m where "map_of db' zero_id = Some (''cat.jpg'', ''Hi'', ''you'', nat_string m)"
      "8 \<le> m" "m \<le> 8"
    using concurrent_views_bounds [where T = "{0, 1}" and pcs = "(\<lambda>_. Uncounted)(0 := Counted)",
        OF shared_engine.shared_sql_axioms sample_facts T seven run over]
    unfolding c if_P [OF e] by auto
  with run show ?thesis by (intro exI conjI)
qed

end
