(* ===== verification/Meme_Spec.thy ===== *)
theory Meme_Spec
  imports Meme_Claims
begin

text \<open>
  What the meme service promises, without handlers, statements and texts in a database: a table
  from identifiers to a template, two captions and a number of views, and what each call answers
  and does to the table. The handler of \<open>src/meme_handler.cc\<close> on any engine with the documented
  behaviour refines it, for every request and for every sequence of requests.
\<close>

section \<open>The calls of the service\<close>

datatype meme_call =
    Create "string \<times> string \<times> string"
  | Replace string "string \<times> string \<times> string"
  | Remove string
  | Show string
  | List_all
  | Search string
  | Reply response
  | Undecodable

text \<open>Which call a request is; texts are taken apart as the handler does.\<close>

definition checked_body :: "request \<Rightarrow> (string \<times> string \<times> string) option result" where
  "checked_body req =
     result_bind (body_check (request_body req) []) (\<lambda>(ok, ps).
       Inr (if ok then Some (ps ! 0, ps ! 1, ps ! 2) else None))"

definition get_call :: "string \<Rightarrow> request \<Rightarrow> meme_call" where
  "get_call path req =
     (if path = ''create'' \<or> path = ''create/'' then Reply (redirect_to ''/web/memes/create.html'')
      else if path = ''view'' \<or> path = ''view/'' then Reply (redirect_to ''/web/memes/list.html'')
      else if 7 < length path \<and> take 7 path = ''manage/'' then
        Reply (redirect_to (''/web/memes/manage.html?id='' @ drop 7 path))
      else if 5 < length path \<and> take 5 path = ''view/'' then
        Reply (redirect_request req (drop 5 path))
      else if path = [] \<or> path = ''/'' then List_all
      else if 7 < length path \<and> take 7 path = ''search/'' then
        (case UriDecode (drop 7 path) of Inl e \<Rightarrow> Undecodable | Inr q \<Rightarrow> Search (c_string q))
      else Show (c_string path))"

definition call_of :: "request \<Rightarrow> meme_call" where
  "call_of req =
     (let i = check_uri (req_uri req);
          refuse = (\<lambda>what. Reply (text_response 400
             (''The provided meme '' @ what @ '' request is invalid!'')))
      in if req_method req = ''POST'' then
           (case checked_body req of
              Inl e \<Rightarrow> Undecodable
            | Inr None \<Rightarrow> refuse ''creation''
            | Inr (Some v) \<Rightarrow> Create v)
         else if req_method req = ''PUT'' then
           (case checked_body req of
              Inl e \<Rightarrow> Undecodable
            | Inr None \<Rightarrow> refuse ''update''
            | Inr (Some v) \<Rightarrow> if check_id i then Replace i v else refuse ''update'')
         else if req_method req = ''DELETE'' then
           (if check_id i then Remove i else refuse ''delete'')
         else if req_method req = ''GET'' then get_call i req
         else Reply (meme_invalid_method req))"

section \<open>The table and the answers\<close>

type_synonym meme_table = "string \<rightharpoonup> string \<times> string \<times> string \<times> nat"

definition views_in :: "string \<times> string \<times> string \<times> string \<times> nat \<Rightarrow> nat" where
  "views_in p = (case p of (_, _, _, _, v) \<Rightarrow> v)"

definition listing :: "(string \<times> string \<times> string \<times> string \<times> nat) list \<Rightarrow> string" where
  "listing ps = ''['' @ separated (\<lambda>t. t) '','' []
     (map (\<lambda>(i, t, a, b, v). quoted (i @ '':'' @ nat_string v @ '':'' @ t @ '':'' @ a @ '':'' @ b)) ps)
     @ '']''"

text \<open>A listing of a table: each row once, by falling number of views; ties in any order.\<close>

definition lists_table :: "meme_table \<Rightarrow> response result \<Rightarrow> bool" where
  "lists_table m r \<longleftrightarrow>
     (\<exists>ps. map_of ps = m \<and> distinct (map fst ps)
        \<and> sorted_wrt (\<lambda>p q. views_in q \<le> views_in p) ps \<and> r = json_ok (listing ps))"

definition matching :: "(string \<Rightarrow> string \<Rightarrow> bool) \<Rightarrow> string \<Rightarrow> meme_table \<Rightarrow> meme_table" where
  "matching like q m = (\<lambda>i. case m i of
       None \<Rightarrow> None
     | Some (t, a, b, v) \<Rightarrow> if like q a \<or> like q b then Some (t, a, b, v) else None)"

fun answers ::
  "(string \<Rightarrow> string \<Rightarrow> bool) \<Rightarrow> string \<Rightarrow> meme_call \<Rightarrow> meme_table \<Rightarrow> response result \<Rightarrow> meme_table \<Rightarrow> bool"
  where
  "answers like new (Create (t, a, b)) m r m' \<longleftrightarrow>
     (if m new = None then r = Inr (id_response 201 new) \<and> m' = m(new \<mapsto> (t, a, b, 0))
      else r = Inr (text_response 500 ''An error occurred while trying to create the provided meme!'')
        \<and> m' = m)"
| "answers like new (Replace i (t, a, b)) m r m' \<longleftrightarrow>
     r = Inr (id_response 200 i)
     \<and> m' = (case m i of None \<Rightarrow> m | Some (_, _, _, v) \<Rightarrow> m(i \<mapsto> (t, a, b, v)))"
| "answers like new (Remove i) m r m' \<longleftrightarrow> r = Inr (id_response 200 i) \<and> m' = m(i := None)"
| "answers like new (Show i) m r m' \<longleftrightarrow>
     (case m i of
        None \<Rightarrow> r = meme_not_found \<and> m' = m
      | Some (t, a, b, v) \<Rightarrow> r = json_ok (meme_json t a b) \<and> m' = m(i \<mapsto> (t, a, b, Suc v)))"
| "answers like new List_all m r m' \<longleftrightarrow> lists_table m r \<and> m' = m"
| "answers like new (Search q) m r m' \<longleftrightarrow> lists_table (matching like q m) r \<and> m' = m"
| "answers like new (Reply resp) m r m' \<longleftrightarrow> r = Inr resp \<and> m' = m"
| "answers like new Undecodable m r m' \<longleftrightarrow>
     r = Inl (Throw (Runtime_error ''stream decode failure'')) \<and> m' = m"

section \<open>The table a database holds\<close>

definition table_of :: "memes \<Rightarrow> meme_table" where
  "table_of m = (\<lambda>i. map_option (\<lambda>(t, a, b, v). (t, a, b, digits_value v)) (m i))"

lemma table_of_update: "table_of (m(i \<mapsto> (t, a, b, v))) = (table_of m)(i \<mapsto> (t, a, b, digits_value v))"
  by (simp add: table_of_def fun_eq_iff)

lemma table_of_delete: "table_of (m(i := None)) = (table_of m)(i := None)"
  by (simp add: table_of_def fun_eq_iff)

definition row_view :: "string \<times> meme_row \<Rightarrow> string \<times> string \<times> string \<times> string \<times> nat" where
  "row_view p = (case p of (i, t, a, b, v) \<Rightarrow> (i, t, a, b, digits_value v))"

lemma fst_row_view [simp]: "fst (row_view p) = fst p"
  by (simp add: row_view_def split: prod.split)

lemma map_of_row_view: "map_of (map row_view ps) = table_of (map_of ps)"
proof (induction ps)
  case (Cons p ps)
  obtain i t a b v where "p = (i, t, a, b, v)" by (metis surj_pair)
  then show ?case using Cons by (simp add: row_view_def table_of_def fun_eq_iff)
qed (simp add: table_of_def)

lemma views_in_row_view: "views_in (row_view p) = views_of p"
  by (simp add: views_in_def row_view_def views_of_def split: prod.split)

lemma listing_row_view:
  assumes "\<forall>p \<in> set ps. row_ok n (snd p)"
  shows "listing (map row_view ps) = list_body ps"
proof -
  have "(\<lambda>(i, t, a, b, v). quoted (i @ '':'' @ nat_string v @ '':'' @ t @ '':'' @ a @ '':'' @ b)) (row_view p)
      = item_of p" if "p \<in> set ps" for p
    using assms that by (fastforce simp: row_view_def item_of_def row_ok_def split: prod.splits)
  then show ?thesis by (simp add: listing_def list_body_def comp_def cong: map_cong)
qed

text \<open>The list the handler makes of rows is a listing of their table.\<close>

lemma lists_rows:
  assumes "memes_ok n (map_of ps)" and "distinct (map fst ps)"
  shows "lists_table (table_of (map_of ps)) (json_ok (list_body (rev (sort_key views_of ps))))"
proof -
  let ?qs = "rev (sort_key views_of ps)"
  have d: "distinct (map fst ?qs)" using assms(2) by (simp add: distinct_map inj_on_def)
  then have m: "map_of ?qs = map_of ps" using assms(2) by (simp add: map_of_inject_set)
  have "sorted (map views_of (sort_key views_of ps))" by (rule sorted_sort_key)
  then have "sorted_wrt (\<lambda>p q. views_in q \<le> views_in p) (map row_view ?qs)"
    by (simp add: sorted_wrt_map sorted_wrt_rev sorted_map views_in_row_view)
  moreover have "listing (map row_view ?qs) = list_body ?qs"
    using rows_ok [OF assms(1) refl assms(2)] by (intro listing_row_view) simp
  moreover have "map fst (map row_view ?qs) = map fst ?qs" by simp
  ultimately show ?thesis
    unfolding lists_table_def using d m map_of_row_view
    by (intro exI [of _ "map row_view ?qs"]) metis
qed

section \<open>Sequences of requests\<close>

text \<open>Requests one after the other, each with the identifier that would be generated for it.\<close>

fun meme_service ::
  "'db sqlite \<Rightarrow> block \<Rightarrow> string \<Rightarrow> (string \<times> request) list \<Rightarrow> 'db \<Rightarrow> response result list \<times> 'db"
  where
  "meme_service sq c root [] db = ([], db)"
| "meme_service sq c root ((new, req) # qs) db =
     (case meme_request sq new (Some c) root req db of
        (r, db') \<Rightarrow> (case meme_service sq c root qs db' of (rs, db'') \<Rightarrow> (r # rs, db'')))"

fun answers_all ::
  "(string \<Rightarrow> string \<Rightarrow> bool) \<Rightarrow> (string \<times> request) list \<Rightarrow> meme_table \<Rightarrow> response result list \<Rightarrow>
     meme_table \<Rightarrow> bool" where
  "answers_all like [] m rs m' \<longleftrightarrow> rs = [] \<and> m' = m"
| "answers_all like ((new, req) # qs) m rs m' \<longleftrightarrow>
     (\<exists>r rs' m1. rs = r # rs' \<and> answers like new (call_of req) m r m1 \<and> answers_all like qs m1 rs' m')"

section \<open>The handler refines the service\<close>

context meme_sql
begin

definition refines :: "string \<Rightarrow> meme_call \<Rightarrow> 'db \<Rightarrow> response result \<times> 'db \<Rightarrow> bool" where
  "refines new call db out \<longleftrightarrow>
     answers like new call (table_of (memes db)) (fst out) (table_of (memes (snd out)))"

lemma checked_body_cases:
  "(\<exists>e. body_check (request_body req) [] = Inl e \<and> checked_body req = Inl e \<and> e = decode_failure)
   \<or> (\<exists>ps. body_check (request_body req) [] = Inr (False, ps) \<and> checked_body req = Inr None)
   \<or> (\<exists>t a b. body_check (request_body req) [] = Inr (True, [t, a, b])
        \<and> checked_body req = Inr (Some (t, a, b)))"
proof (cases "body_check (request_body req) []")
  case (Inl e)
  then show ?thesis using body_check_fault by (simp add: checked_body_def)
next
  case (Inr cp)
  obtain ok ps where "cp = (ok, ps)" by fastforce
  then show ?thesis
    using Inr body_check_params [of "request_body req" ps] by (cases ok) (auto simp: checked_body_def)
qed

lemma create_refines:
  assumes "standard h" and "nul \<notin> set new" and "req_method req = ''POST''"
  shows "refines new (call_of req) db (create_meme sq new h req db)"
proof -
  have zero: "digits_value ''0'' = 0" by code_simp
  consider e where "body_check (request_body req) [] = Inl e" "checked_body req = Inl e"
      "e = decode_failure"
    | ps where "body_check (request_body req) [] = Inr (False, ps)" "checked_body req = Inr None"
    | t a b where "body_check (request_body req) [] = Inr (True, [t, a, b])"
      "checked_body req = Inr (Some (t, a, b))"
    using checked_body_cases [of req] by blast
  then show ?thesis
  proof cases
    case 3
    then obtain db' where "memes db' = (if memes db new = None
          then (memes db)(new \<mapsto> (t, a, b, ''0'')) else memes db)"
        "create_meme sq new h req db = (Inr (if memes db new = None then id_response 201 new
          else text_response 500
            ''An error occurred while trying to create the provided meme!''), db')"
      using create_meme_effect [OF assms(1) 3(1) assms(2), of db] by auto
    then show ?thesis
      using 3 assms(3) zero
      by (cases "memes db new = None")
        (auto simp: refines_def call_of_def table_of_update, auto simp: table_of_def)
  qed (use assms(3) in \<open>simp_all add: refines_def call_of_def create_meme_def decode_failure_def\<close>)
qed

lemma replace_refines:
  assumes "standard h" and "req_method req = ''PUT''"
  shows "refines new (call_of req) db (update_meme sq h req (check_uri (req_uri req)) db)"
proof -
  let ?i = "check_uri (req_uri req)"
  consider e where "body_check (request_body req) [] = Inl e" "checked_body req = Inl e"
      "e = decode_failure"
    | ps where "body_check (request_body req) [] = Inr (False, ps)" "checked_body req = Inr None"
    | t a b where "body_check (request_body req) [] = Inr (True, [t, a, b])"
      "checked_body req = Inr (Some (t, a, b))"
    using checked_body_cases [of req] by blast
  then show ?thesis
  proof cases
    case 3
    show ?thesis
    proof (cases "check_id ?i")
      case True
      then obtain db' where "memes db' = update_row ?i (with_captions t a b) (memes db)"
          "update_meme sq h req ?i db = (Inr (id_response 200 ?i), db')"
        using update_meme_effect [OF assms(1) 3(1), of ?i db] by blast
      then show ?thesis
        using 3 assms(2) True
        by (auto simp: refines_def call_of_def update_row_def with_captions_def table_of_def
            fun_eq_iff split: option.split)
    next
      case False
      then show ?thesis using 3 assms(2) by (simp add: refines_def call_of_def update_meme_def)
    qed
  qed (use assms(2) in \<open>simp_all add: refines_def call_of_def update_meme_def decode_failure_def\<close>)
qed

lemma remove_refines:
  assumes "standard h" and "req_method req = ''DELETE''"
  shows "refines new (call_of req) db (delete_meme sq h req (check_uri (req_uri req)) db)"
proof (cases "check_id (check_uri (req_uri req))")
  case True
  then show ?thesis
    using delete_meme_effect [OF assms(1) True, of db req] assms(2)
    by (auto simp: refines_def call_of_def table_of_delete)
next
  case False
  then show ?thesis using assms(2) by (simp add: refines_def call_of_def delete_meme_def)
qed

lemma list_refines:
  assumes "standard h" and "memes_ok n (memes db)" and "int n \<le> int_max"
  shows "refines new List_all db (meme_list sq h req db)"
proof -
  obtain ps where ps: "map_of ps = memes db" "distinct (map fst ps)"
      "meme_list sq h req db = (json_ok (list_body (rev (sort_key views_of ps))), db)"
    using meme_list_effect [OF assms, of req] by (auto simp: json_ok_def)
  then show ?thesis
    using lists_rows [of n ps] assms(2) by (simp add: refines_def)
qed

lemma search_refines:
  assumes "standard h" and "memes_ok n (memes db)" and "int n \<le> int_max"
  shows "refines new (case UriDecode q of Inl e \<Rightarrow> Undecodable | Inr d \<Rightarrow> Search (c_string d)) db
    (meme_search sq h req q db)"
proof (cases "UriDecode q")
  case (Inl e)
  then show ?thesis
    using UriDecode_fault [of q e] by (simp add: refines_def meme_search_def)
next
  case (Inr d)
  let ?found = "\<lambda>i. case memes db i of
       Some (img, a, b, v) \<Rightarrow>
         if like (c_string d) a \<or> like (c_string d) b then Some (img, a, b, v) else None
     | None \<Rightarrow> None"
  obtain ps where ps: "distinct (map fst ps)" "map_of ps = ?found"
      "meme_search sq h req q db = (json_ok (list_body (rev (sort_key views_of ps))), db)"
    using meme_search_effect [OF assms Inr, of req] by (auto simp: json_ok_def)
  have "?found i = Some r \<Longrightarrow> memes db i = Some r" for i r
    by (auto split: option.splits if_splits)
  then have ok: "memes_ok n (map_of ps)" using assms(2) unfolding memes_ok_def ps(2) by blast
  have "table_of ?found = matching like (c_string d) (table_of (memes db))"
    by (auto simp: table_of_def matching_def fun_eq_iff split: option.split)
  then show ?thesis
    using lists_rows [OF ok ps(1)] ps(2,3) Inr by (simp add: refines_def)
qed

lemma show_refines:
  assumes "standard h" and "memes_ok n (memes db)" and "int n < int_max"
  shows "refines new (Show (c_string i)) db (get_meme_by_id sq h req i db)"
proof -
  let ?i = "c_string i"
  have nul: "nul \<notin> set ?i" by (auto simp: c_string_def dest: set_takeWhileD)
  have plain: "plain_memes (memes db)" using assms(2) by (rule memes_ok_plain)
  have "refines new (Show ?i) db (get_meme_by_id sq h req ?i db)"
  proof (cases "memes db ?i")
    case None
    then show ?thesis
      using get_meme_missing [OF assms(1) nul plain None, of req]
      by (simp add: refines_def table_of_def meme_not_found_def)
  next
    case (Some r)
    obtain img a b v where r: "r = (img, a, b, v)" by (metis surj_pair)
    have "row_ok n r" using assms(2) Some unfolding memes_ok_def by blast
    then obtain k where k: "v = nat_string k" "k \<le> n"
      and c: "caption_text img" "caption_text a" "caption_text b"
      by (auto simp: r row_ok_def)
    then obtain db' where "memes db' = (memes db)(?i \<mapsto> (img, a, b, nat_string (Suc k)))"
        "get_meme_by_id sq h req ?i db
          = (Inr (typed_response 200 (meme_json img a b) (get_mime_type ''.json'')), db')"
      using get_meme_found [OF assms(1) nul plain, of img a b k req] Some assms(3)
      by (auto simp: r caption_text_def)
    then show ?thesis
      using Some k by (simp add: refines_def r table_of_update) (simp add: table_of_def json_ok_def)
  qed
  then show ?thesis by (simp only: get_meme_c_string)
qed

lemma reply_refines: "refines new (Reply resp) db (Inr resp, db)"
  by (simp add: refines_def)

lemma refines_if:
  "(c \<Longrightarrow> refines new p db x) \<Longrightarrow> (\<not> c \<Longrightarrow> refines new q db y) \<Longrightarrow>
     refines new (if c then p else q) db (if c then x else y)"
  by simp

lemma pages:
  "redirect_request req ''create'' = redirect_to ''/web/memes/create.html''"
  "redirect_request req ''list'' = redirect_to ''/web/memes/list.html''"
  "take 7 i = ''manage/'' \<Longrightarrow>
     redirect_request req i = redirect_to (''/web/memes/manage.html?id='' @ drop 7 i)"
  by (auto simp: redirect_request_def)

lemma get_refines:
  assumes "standard h" and "memes_ok n (memes db)" and "int n < int_max"
    and "req_method req = ''GET''"
  shows "refines new (call_of req) db (meme_handle_request sq uuid h req db)"
proof -
  let ?i = "check_uri (req_uri req)"
  have n: "int n \<le> int_max" using assms(3) by simp
  have "refines new (get_call ?i req) db
    (if ?i = ''create'' \<or> ?i = ''create/'' then (Inr (redirect_request req ''create''), db)
     else if ?i = ''view'' \<or> ?i = ''view/'' then (Inr (redirect_request req ''list''), db)
     else if 7 < length ?i \<and> take 7 ?i = ''manage/'' then (Inr (redirect_request req ?i), db)
     else if 5 < length ?i \<and> take 5 ?i = ''view/'' then
       (Inr (redirect_request req (drop 5 ?i)), db)
     else if ?i = [] \<or> ?i = ''/'' then meme_list sq h req db
     else if 7 < length ?i \<and> take 7 ?i = ''search/'' then meme_search sq h req (drop 7 ?i) db
     else get_meme_by_id sq h req ?i db)"
    unfolding get_call_def pages(1,2)
  proof (intro refines_if reply_refines list_refines [OF assms(1,2) n]
      search_refines [OF assms(1,2) n] show_refines [OF assms(1-3)])
    assume "7 < length ?i \<and> take 7 ?i = ''manage/''"
    then show "refines new (Reply (redirect_to (''/web/memes/manage.html?id='' @ drop 7 ?i))) db
        (Inr (redirect_request req ?i), db)"
      using pages(3) reply_refines by metis
  qed
  then show ?thesis using assms(4) by (simp add: call_of_def meme_handle_request_def Let_def)
qed

lemma handler_refines:
  assumes "standard h" and "memes_ok n (memes db)" and "int n < int_max" and "nul \<notin> set new"
  shows "refines new (call_of req) db (meme_handle_request sq new h req db)"
proof -
  consider "req_method req = ''POST''" | "req_method req = ''PUT''" | "req_method req = ''DELETE''"
    | "req_method req = ''GET''"
    | "req_method req \<notin> {''POST'', ''PUT'', ''DELETE'', ''GET''}" by blast
  then show ?thesis
  proof cases
    case 1
    then show ?thesis using create_refines [OF assms(1,4)] by (simp add: meme_handle_request_def)
  next
    case 2
    then show ?thesis using replace_refines [OF assms(1)] by (simp add: meme_handle_request_def)
  next
    case 3
    then show ?thesis using remove_refines [OF assms(1)] by (simp add: meme_handle_request_def)
  next
    case 4
    then show ?thesis by (rule get_refines [OF assms(1-3)])
  next
    case 5
    then show ?thesis by (simp add: meme_handle_request_def call_of_def refines_def)
  qed
qed

lemma service_refines:
  assumes "memes_ok n (memes db)" and "int (n + length qs) \<le> int_max"
    and "\<forall>(new, req) \<in> set qs. check_id new" and "meme_service sq c root qs db = (rs, db')"
  shows "answers_all like qs (table_of (memes db)) rs (table_of (memes db'))"
  using assms
proof (induction qs arbitrary: n db rs)
  case (Cons q qs)
  obtain new req where q: "q = (new, req)" by (cases q)
  have nul: "nul \<notin> set new" using Cons.prems(3) q check_id_facts(3) by auto
  have n: "int n < int_max" using Cons.prems(2) by simp
  obtain h d where h: "standard h" "memes d = memes db"
      "meme_request sq new (Some c) root req db = meme_handle_request sq new h req d"
    using meme_request_standard [of db c root] by blast
  obtain r db1 where r: "meme_handle_request sq new h req d = (r, db1)" by fastforce
  obtain rs' where rs: "meme_service sq c root qs db1 = (rs', db')" "rs = r # rs'"
    using Cons.prems(4) h(3) r by (auto simp: q split: prod.splits)
  have ok: "memes_ok n (memes d)" using Cons.prems(1) h(2) by simp
  have "answers like new (call_of req) (table_of (memes db)) r (table_of (memes db1))"
    using handler_refines [OF h(1) ok n nul, of req] r h(2) by (simp add: refines_def)
  moreover have "memes_ok (Suc n) (memes db1)"
    using meme_handle_keeps [OF h(1) ok n nul, of req] r by (simp add: keeps_memes_def)
  then have "answers_all like qs (table_of (memes db1)) rs' (table_of (memes db'))"
    using Cons.prems(2,3) rs(1) by (intro Cons.IH [of "Suc n"]) auto
  ultimately show ?case using rs(2) by (auto simp: q)
qed simp

end

section \<open>Property\<close>

text \<open>
  C2. The meme service does what it promises. Take any sequence of requests, with well-formed
  identifiers for the memes that may be created, on a table in the handler's invariant, shorter
  than the view counters can count. Then the responses and the table at the end are those of the
  abstract service: creation under the new identifier with 0 views, or 500 where it is taken;
  replacement that keeps the counter and is answered with 200 also where there is nothing to
  replace; removal; showing, which counts a view, or 404; listings and searches of exactly the
  rows, or the matching rows, by falling number of views; the pages; and the refusals.
\<close>

theorem meme_service_refines:
  assumes "meme_sql sq like memes" and "memes_ok n (memes db)"
    and "int (n + length qs) \<le> int_max" and "\<forall>(new, req) \<in> set qs. check_id new"
    and "meme_service sq c root qs db = (rs, db')"
  shows "answers_all like qs (table_of (memes db)) rs (table_of (memes db'))"
  using meme_sql.service_refines [OF assms] .

definition sample_calls :: "(string \<times> request) list" where
  "sample_calls =
     [(zero_id, meme_req ''POST'' ''/memes/'' sample_body),
      (zero_id, meme_req ''GET'' (''/memes/'' @ zero_id) []),
      (zero_id, meme_req ''DELETE'' (''/memes/'' @ zero_id) [])]"

lemma meme_service_refines_witness:
  "\<exists>rs m. answers_all (=) sample_calls (table_of (map_of [])) rs m"
proof -
  obtain rs db' where "meme_service engine [] [] sample_calls [] = (rs, db')" by fastforce
  moreover have "\<forall>(new, req) \<in> set sample_calls. check_id new"
    using zero_id_ok by (simp add: sample_calls_def)
  moreover have "int (0 + length sample_calls) \<le> int_max"
    by (simp add: sample_calls_def int_max_def)
  ultimately show ?thesis
    using meme_service_refines [OF list_engine.meme_sql_axioms empty_table_ok [of 0]] by blast
qed

text \<open>What the abstract service makes of the three calls: created, shown with what was sent, gone.\<close>

lemma sample_answers:
  "answers_all (=) sample_calls Map.empty
     [Inr (id_response 201 zero_id), json_ok (meme_json ''cat.jpg'' ''So much'' ''proof!''),
      Inr (id_response 200 zero_id)] Map.empty"
proof -
  have "checked_body (meme_req ''POST'' ''/memes/'' sample_body)
      = Inr (Some (''cat.jpg'', ''So much'', ''proof!''))"
    using sample_body_check by (simp add: checked_body_def)
  moreover have "c_string zero_id = zero_id" by code_simp
  moreover have "get_call zero_id req = Show (c_string zero_id)" for req
    by (simp add: get_call_def zero_id_def)
  ultimately show ?thesis
    using zero_id_uri zero_id_ok
    by (simp add: sample_calls_def call_of_def)
qed

end
