(* ===== verification/Recorder.thy ===== *)
theory Recorder
  imports Cpp_Text "HOL-Library.Sublist"
begin

text \<open>
  \<open>src/server_status_recorder.cc\<close>: the process-wide lists the status page shows. Both lists
  only grow; each method holds a lock for its whole body, so a method is one step.
\<close>

record recorder =
  url_response_list :: "(string \<times> nat) list"
  prefix_handler_list :: "(string \<times> string) list"

text \<open>The singleton as \<open>get_instance\<close> first makes it.\<close>

definition new_recorder :: recorder where
  "new_recorder = \<lparr>url_response_list = [], prefix_handler_list = []\<rparr>"

definition request_recorder :: "string \<Rightarrow> nat \<Rightarrow> recorder \<Rightarrow> recorder" where
  "request_recorder url response_code r =
     r\<lparr>url_response_list := url_response_list r @ [(url, response_code)]\<rparr>"

definition prefix_recorder :: "string \<times> string \<Rightarrow> recorder \<Rightarrow> recorder" where
  "prefix_recorder prefix_handler_pair r =
     r\<lparr>prefix_handler_list := prefix_handler_list r @ [prefix_handler_pair]\<rparr>"

definition get_url_response_list :: "recorder \<Rightarrow> (string \<times> nat) list" where
  "get_url_response_list r = url_response_list r"

definition get_prefix_handler_list :: "recorder \<Rightarrow> (string \<times> string) list" where
  "get_prefix_handler_list r = prefix_handler_list r"

text \<open>A \<open>size_t\<close> returned as an \<open>int\<close>.\<close>

definition get_url_response_list_size :: "recorder \<Rightarrow> int" where
  "get_url_response_list_size r = to_int (int (length (url_response_list r)))"

text \<open>One recorder state can follow another.\<close>

definition recorder_grows :: "recorder \<Rightarrow> recorder \<Rightarrow> bool" where
  "recorder_grows r r' \<longleftrightarrow>
     prefix (url_response_list r) (url_response_list r')
     \<and> prefix (prefix_handler_list r) (prefix_handler_list r')"

lemma recorder_grows_refl [simp]: "recorder_grows r r"
  by (simp add: recorder_grows_def)

lemma recorder_grows_trans:
  "recorder_grows r r' \<Longrightarrow> recorder_grows r' r'' \<Longrightarrow> recorder_grows r r''"
  unfolding recorder_grows_def by (auto intro: prefix_order.trans)

lemma request_recorder_grows [simp]: "recorder_grows r (request_recorder u c r)"
  by (simp add: recorder_grows_def request_recorder_def)

lemma prefix_recorder_grows [simp]: "recorder_grows r (prefix_recorder p r)"
  by (simp add: recorder_grows_def prefix_recorder_def)

lemma size_small:
  assumes "length (url_response_list r) < 2147483648"
  shows "get_url_response_list_size r = int (length (url_response_list r))"
  using assms by (simp add: get_url_response_list_size_def to_int_range)

text \<open>From two billion requests on, the count is negative.\<close>

lemma size_negative:
  assumes "2147483648 \<le> length (url_response_list r)"
    and "length (url_response_list r) < 4294967296"
  shows "get_url_response_list_size r < 0"
  using assms by (simp add: get_url_response_list_size_def to_int_wrap)

end
