(* ===== verification/Router.thy ===== *)
theory Router
  imports Route_Handler Recorder Config_Grammar
begin

text \<open>
  \<open>src/router.cc\<close>: routes and default headers, read from the router's block of the
  configuration, and the choice of a handler for a URI. Routes and headers are hash maps: the
  operations that loop over one take its enumeration order. \<open>route_request\<close> takes the function
  that makes the chosen handler and lets it answer, so this theory does not depend on the
  handlers; theory Handlers supplies it.

  The configuration pointer is not null: \<open>server::create_router\<close> makes a router only for a
  block it has found.
\<close>

section \<open>State\<close>

record router =
  rt_config :: block
  route_map :: "(string, string) umap"
  rt_headers :: "(string, string) umap"
  server_root :: string

type_synonym map_order = "(string \<times> string) list \<Rightarrow> (string \<times> string) list"

definition new_router :: "block \<Rightarrow> string \<Rightarrow> router" where
  "new_router config root =
     \<lparr>rt_config = config, route_map = [], rt_headers = [], server_root = root\<rparr>"

text \<open>The classes whose \<open>create_handler\<close> the router calls.\<close>

datatype handler_class =
    Echo_handler
  | Static_file_handler
  | Status_handler
  | Reverse_proxy_handler
  | Meme_handler
  | Health_handler
  | Default_handler

section \<open>Operations\<close>

definition register_route ::
  "string \<Rightarrow> string \<Rightarrow> router \<times> recorder \<Rightarrow> bool \<times> router \<times> recorder" where
  "register_route uri handler_name st =
     (case st of (rt, rec) \<Rightarrow>
        (case umap_find (route_map rt) uri of
           None \<Rightarrow>
             (True, rt\<lparr>route_map := umap_insert (uri, handler_name) (route_map rt)\<rparr>,
              prefix_recorder (uri, handler_name) rec)
         | Some _ \<Rightarrow> (True, rt, rec)))"

fun register_locations ::
  "string \<Rightarrow> block \<Rightarrow> router \<times> recorder \<Rightarrow> (router \<times> recorder) result" where
  "register_locations handlerKey [] st = Inr st"
| "register_locations handlerKey (s # b) st =
     (if 0 < length (tokens s) \<and> tokens s ! 0 = ''location'' then
        result_bind (nth_res (tokens s) 1) (\<lambda>uri.
          register_locations handlerKey b (snd (register_route uri handlerKey st)))
      else register_locations handlerKey b st)"

fun register_statements :: "block \<Rightarrow> router \<times> recorder \<Rightarrow> (router \<times> recorder) result" where
  "register_statements [] st = Inr st"
| "register_statements (s # b) st =
     (case child_block s of
        Some rConfig \<Rightarrow>
          if 1 < length (tokens s) \<and> tokens s ! 0 = ''handler'' then
            result_bind (register_locations (tokens s ! 1) rConfig st) (register_statements b)
          else register_statements b st
      | None \<Rightarrow> register_statements b st)"

definition register_routes_from_config ::
  "router \<times> recorder \<Rightarrow> (bool \<times> router \<times> recorder) result" where
  "register_routes_from_config st =
     result_bind (register_statements (rt_config (fst st)) st) (\<lambda>st'. Inr (True, st'))"

definition register_default_header :: "string \<Rightarrow> string \<Rightarrow> router \<Rightarrow> bool \<times> router" where
  "register_default_header header_name header_value rt =
     (case umap_find (rt_headers rt) header_name of
        Some _ \<Rightarrow>
          (True, rt\<lparr>rt_headers := umap_replace header_name header_value (rt_headers rt)\<rparr>)
      | None \<Rightarrow>
          (True, rt\<lparr>rt_headers := umap_insert (header_name, header_value) (rt_headers rt)\<rparr>))"

definition router_get_header :: "router \<Rightarrow> string \<Rightarrow> string" where
  "router_get_header rt name =
     (case umap_find (rt_headers rt) name of Some v \<Rightarrow> v | None \<Rightarrow> [])"

fun handler_config_loop :: "string \<Rightarrow> block \<Rightarrow> block option \<Rightarrow> block option result" where
  "handler_config_loop handler_name [] output = Inr output"
| "handler_config_loop handler_name (s # b) output =
     (case child_block s of
        Some c \<Rightarrow>
          result_bind (nth_res (tokens s) 0) (\<lambda>t0.
            handler_config_loop handler_name b
              (if t0 = ''handler'' \<and> 1 < length (tokens s) \<and> tokens s ! 1 = handler_name
               then Some c else output))
      | None \<Rightarrow> handler_config_loop handler_name b output)"

definition get_handler_config :: "router \<Rightarrow> string \<Rightarrow> block option result" where
  "get_handler_config rt handler_name = handler_config_loop handler_name (rt_config rt) None"

fun validProxy :: "block \<Rightarrow> string \<Rightarrow> bool result" where
  "validProxy [] name = Inr False"
| "validProxy (s # b) name =
     result_bind (nth_res (tokens s) 0) (\<lambda>t0.
       if t0 = ''location'' then
         result_bind (nth_res (tokens s) 1) (\<lambda>t1.
           if t1 = name then Inr True else validProxy b name)
       else validProxy b name)"

definition get_route_handler :: "router \<Rightarrow> string \<Rightarrow> string result" where
  "get_route_handler rt uri =
     (case umap_find (route_map rt) uri of
        Some h \<Rightarrow> Inr h
      | None \<Rightarrow>
          result_bind (get_handler_config rt ''proxy'') (\<lambda>proxy_config.
            case proxy_config of
              None \<Rightarrow> Inr ''default''
            | Some c \<Rightarrow>
                result_bind (validProxy c uri) (\<lambda>v.
                  Inr (if v then ''proxy'' else ''default''))))"

text \<open>One pass of the loop of \<open>longest_prefix_match\<close>; its inner loop compares character by character.\<close>

definition match_step :: "string \<Rightarrow> string \<times> string \<Rightarrow> string \<Rightarrow> string" where
  "match_step uri mapping longest =
     (if length uri < length (fst mapping) then longest
      else if list_all (\<lambda>(a, b). a = b) (zip (fst mapping) uri)
      then (if length longest < length (fst mapping) then fst mapping else longest)
      else longest)"

definition longest_prefix_match :: "map_order \<Rightarrow> router \<Rightarrow> string \<Rightarrow> string" where
  "longest_prefix_match ord rt uri = fold (match_step uri) (ord (route_map rt)) []"

definition apply_default_headers :: "map_order \<Rightarrow> router \<Rightarrow> response \<Rightarrow> response" where
  "apply_default_headers ord rt res =
     fold (\<lambda>header. set_header (fst header) (snd header)) (ord (rt_headers rt)) res"

definition handler_class_of :: "string \<Rightarrow> handler_class \<times> string" where
  "handler_class_of handler =
     (if handler = ''echo'' then (Echo_handler, ''echo'')
      else if handler = ''static1'' then (Static_file_handler, ''static1'')
      else if handler = ''static2'' then (Static_file_handler, ''static2'')
      else if handler = ''webMeme'' then (Static_file_handler, ''webMeme'')
      else if handler = ''imageMeme'' then (Static_file_handler, ''imageMeme'')
      else if handler = ''status'' then (Status_handler, ''status'')
      else if handler = ''proxy'' then (Reverse_proxy_handler, ''proxy'')
      else if handler = ''meme'' then (Meme_handler, ''meme'')
      else if handler = ''health'' then (Health_handler, ''health'')
      else (Default_handler, ''default''))"

text \<open>The class whose handler is made, and the configuration it is given.\<close>

definition select_handler ::
  "map_order \<Rightarrow> router \<Rightarrow> string \<Rightarrow> (handler_class \<times> block option) result" where
  "select_handler ord rt uri =
     result_bind (get_route_handler rt (longest_prefix_match ord rt uri)) (\<lambda>handler.
       case handler_class_of handler of
         (cls, name) \<Rightarrow> result_bind (get_handler_config rt name) (\<lambda>c. Inr (cls, c)))"

text \<open>
  \<open>dispatch\<close> makes a handler of the class from its configuration and the server root and calls
  its \<open>handle_request\<close>; \<open>'e\<close> is what handlers keep outside of the server (the database).
\<close>

type_synonym 'e dispatcher =
  "handler_class \<Rightarrow> block option \<Rightarrow> string \<Rightarrow> request \<Rightarrow> recorder \<times> 'e \<Rightarrow>
     response result \<times> recorder \<times> 'e"

definition route_request ::
  "map_order \<Rightarrow> map_order \<Rightarrow> 'e dispatcher \<Rightarrow> router \<Rightarrow> request \<Rightarrow> recorder \<times> 'e \<Rightarrow>
     response result \<times> recorder \<times> 'e" where
  "route_request ord hord dispatch rt req s =
     (case select_handler ord rt (req_uri req) of
        Inl e \<Rightarrow> (Inl e, s)
      | Inr (cls, config) \<Rightarrow>
          (case dispatch cls config (server_root rt) req s of
             (Inl e, s') \<Rightarrow> (Inl e, s')
           | (Inr output, rec, w) \<Rightarrow>
               (let rec' = request_recorder (req_uri req) (status_code output) rec
                in case get_route_handler rt (longest_prefix_match ord rt (req_uri req)) of
                     Inl e \<Rightarrow> (Inl e, rec', w)
                   | Inr _ \<Rightarrow> (Inr (apply_default_headers hord rt output), rec', w))))"

section \<open>Registration\<close>

text \<open>The pairs of location and handler a configuration lists, in its order.\<close>

definition block_locations :: "string \<Rightarrow> block \<Rightarrow> (string \<times> string) list" where
  "block_locations key b =
     map (\<lambda>s. (tokens s ! 1, key)) (filter (\<lambda>s. tokens s \<noteq> [] \<and> tokens s ! 0 = ''location'') b)"

definition is_handler :: "statement \<Rightarrow> bool" where
  "is_handler s \<longleftrightarrow> child_block s \<noteq> None \<and> 1 < length (tokens s) \<and> tokens s ! 0 = ''handler''"

definition config_locations :: "block \<Rightarrow> (string \<times> string) list" where
  "config_locations b =
     concat (map (\<lambda>s. block_locations (tokens s ! 1) (the (child_block s))) (filter is_handler b))"

text \<open>Every \<open>location\<close> statement names a location.\<close>

definition locations_named :: "block \<Rightarrow> bool" where
  "locations_named b \<longleftrightarrow>
     list_all (\<lambda>s. tokens s \<noteq> [] \<and> tokens s ! 0 = ''location'' \<longrightarrow> 1 < length (tokens s)) b"

definition all_locations_named :: "block \<Rightarrow> bool" where
  "all_locations_named b \<longleftrightarrow>
     list_all (\<lambda>s. is_handler s \<longrightarrow> locations_named (the (child_block s))) b"

definition register_all :: "(string \<times> string) list \<Rightarrow> router \<times> recorder \<Rightarrow> router \<times> recorder" where
  "register_all ps st = fold (\<lambda>(u, h) st. snd (register_route u h st)) ps st"

lemma register_all_Nil [simp]: "register_all [] st = st"
  by (simp add: register_all_def)

lemma register_all_append [simp]:
  "register_all (ps @ qs) st = register_all qs (register_all ps st)"
  by (simp add: register_all_def)

lemma register_all_Cons [simp]:
  "register_all ((u, h) # ps) st = register_all ps (snd (register_route u h st))"
  by (simp add: register_all_def)

lemma register_locations_eq:
  "register_locations key b st =
     (if locations_named b then Inr (register_all (block_locations key b) st)
      else Inl Undefined_behaviour)"
  by (induction key b st rule: register_locations.induct)
    (auto simp: locations_named_def block_locations_def nth_res_def)

lemma register_statements_eq:
  "register_statements b st =
     (if all_locations_named b then Inr (register_all (config_locations b) st)
      else Inl Undefined_behaviour)"
proof (induction b st rule: register_statements.induct)
  case (2 s b st)
  show ?case
  proof (cases "is_handler s")
    case True
    then obtain c where c: "child_block s = Some c" "1 < length (tokens s)"
        "tokens s ! 0 = ''handler''"
      by (auto simp: is_handler_def)
    then show ?thesis
      using True "2.IH"
      by (simp add: register_locations_eq all_locations_named_def config_locations_def)
  next
    case False
    then show ?thesis
      using "2.IH"
      by (auto simp: all_locations_named_def config_locations_def is_handler_def
          split: option.split)
  qed
qed (simp add: all_locations_named_def config_locations_def)

text \<open>What registering one route after the other does to the router and the recorder.\<close>

lemma register_all_router:
  "fst (register_all ps (rt, rec))
     = rt\<lparr>route_map := fold umap_insert ps (route_map rt)\<rparr>"
  by (induction ps arbitrary: rt rec)
    (auto simp: register_route_def umap_insert_simps split: option.split)

lemma register_all_recorder:
  "\<exists>new. fold umap_insert ps (route_map rt) = route_map rt @ new
     \<and> prefix_handler_list (snd (register_all ps (rt, rec))) = prefix_handler_list rec @ new
     \<and> url_response_list (snd (register_all ps (rt, rec))) = url_response_list rec"
proof (induction ps arbitrary: rt rec)
  case (Cons p ps)
  obtain u h where p: "p = (u, h)" by fastforce
  show ?case
  proof (cases "umap_find (route_map rt) u")
    case None
    let ?rt = "rt\<lparr>route_map := route_map rt @ [(u, h)]\<rparr>" and ?rec = "prefix_recorder (u, h) rec"
    obtain new where
        "fold umap_insert ps (route_map ?rt) = route_map ?rt @ new"
        "prefix_handler_list (snd (register_all ps (?rt, ?rec))) = prefix_handler_list ?rec @ new"
        "url_response_list (snd (register_all ps (?rt, ?rec))) = url_response_list ?rec"
      using Cons.IH by blast
    then show ?thesis
      using None
      by (intro exI [of _ "(u, h) # new"])
        (simp add: p register_route_def umap_insert_simps prefix_recorder_def)
  next
    case (Some h')
    then show ?thesis
      using Cons.IH [of rt rec] by (simp add: p register_route_def umap_insert_simps)
  qed
qed simp

text \<open>The router and recorder after registering all routes of a configuration.\<close>

definition registered :: "block \<Rightarrow> string \<Rightarrow> recorder \<Rightarrow> router \<Rightarrow> recorder \<Rightarrow> bool" where
  "registered config root rec rt rec' \<longleftrightarrow>
     register_routes_from_config (new_router config root, rec) = Inr (True, rt, rec')"

lemma registered_iff:
  "registered config root rec rt rec' \<longleftrightarrow>
     all_locations_named config
     \<and> (rt, rec') = register_all (config_locations config) (new_router config root, rec)"
  unfolding registered_def register_routes_from_config_def
  by (auto simp: register_statements_eq new_router_def)

lemma registered_router:
  assumes "registered config root rec rt rec'"
  shows "rt_config rt = config" "server_root rt = root" "rt_headers rt = []"
    "umap_find (route_map rt) = map_of (config_locations config)"
    "umap_wf (route_map rt)"
    "route_map rt = fold umap_insert (config_locations config) []"
proof -
  have "rt = fst (register_all (config_locations config) (new_router config root, rec))"
    using assms unfolding registered_iff by (metis fst_conv)
  then have rt: "rt = (new_router config root)\<lparr>route_map :=
      fold umap_insert (config_locations config) []\<rparr>"
    by (simp add: register_all_router new_router_def)
  then show "rt_config rt = config" "server_root rt = root" "rt_headers rt = []"
      "route_map rt = fold umap_insert (config_locations config) []"
    by (simp_all add: new_router_def)
  show "umap_find (route_map rt) = map_of (config_locations config)"
    unfolding rt using umap.find_fold_ins [OF umap_wf_Nil]
    by (simp add: new_router_def)
  show "umap_wf (route_map rt)"
    unfolding rt using umap.wf_fold_ins [OF umap_wf_Nil] by (simp add: new_router_def)
qed

section \<open>The configuration of a handler\<close>

definition handler_blocks :: "string \<Rightarrow> block \<Rightarrow> block list" where
  "handler_blocks name b =
     map (\<lambda>s. the (child_block s)) (filter (\<lambda>s. is_handler s \<and> tokens s ! 1 = name) b)"

definition last_block :: "block option \<Rightarrow> block list \<Rightarrow> block option" where
  "last_block found bs = (if bs = [] then found else Some (last bs))"

lemma handler_config_loop_eq:
  assumes "list_all tokens_ok b"
  shows "handler_config_loop name b found = Inr (last_block found (handler_blocks name b))"
  using assms
proof (induction b arbitrary: found)
  case (Cons s b)
  obtain ts child where s: "s = Statement ts child" by (cases s)
  with Cons.prems have "0 < length ts" by simp
  then show ?case
    using Cons
    by (cases child) (auto simp: s handler_blocks_def is_handler_def last_block_def)
qed (simp add: handler_blocks_def last_block_def)

lemma handler_blocks_registered:
  assumes "(u, h) \<in> set (config_locations b)"
  shows "handler_blocks h b \<noteq> []"
  using assms
  by (auto simp: config_locations_def block_locations_def handler_blocks_def filter_empty_conv)

lemma block_location_registered:
  assumes "c \<in> set (handler_blocks h b)" and "s \<in> set c"
    and "tokens s \<noteq> []" and "tokens s ! 0 = ''location''"
  shows "(tokens s ! 1, h) \<in> set (config_locations b)"
  using assms
  by (fastforce simp: handler_blocks_def config_locations_def block_locations_def)

lemma tokens_ok_nonempty: "tokens_ok s \<Longrightarrow> 0 < length (tokens s)"
  by (cases s) simp

lemma tokens_ok_child: "tokens_ok s \<Longrightarrow> child_block s = Some c \<Longrightarrow> list_all tokens_ok c"
  by (cases s) simp

lemma handler_block_tokens:
  assumes "list_all tokens_ok b" and "c \<in> set (handler_blocks h b)"
  shows "list_all tokens_ok c"
proof -
  obtain s where "s \<in> set b" "child_block s = Some c"
    using assms(2) by (auto simp: handler_blocks_def is_handler_def)
  then show ?thesis
    using assms(1) tokens_ok_child [of s c] by (simp add: list_all_iff)
qed

lemma handler_block_locations:
  assumes "all_locations_named b" and "c \<in> set (handler_blocks h b)"
  shows "locations_named c"
  using assms by (auto simp: all_locations_named_def handler_blocks_def list_all_iff)

lemma validProxy_eq:
  assumes "list_all tokens_ok c" and "locations_named c"
  shows "validProxy c name =
    Inr (\<exists>s \<in> set c. tokens s ! 0 = ''location'' \<and> tokens s ! 1 = name)"
  using assms
proof (induction c)
  case (Cons s c)
  then have "tokens s \<noteq> []" using tokens_ok_nonempty [of s] by simp
  then show ?case using Cons by (auto simp: locations_named_def)
qed simp

text \<open>The lookup of a route: the fallback to the proxy never finds what registration missed.\<close>

lemma get_handler_config_eq:
  assumes "list_all tokens_ok (rt_config rt)"
  shows "get_handler_config rt name = Inr (last_block None (handler_blocks name (rt_config rt)))"
  using assms by (simp add: get_handler_config_def handler_config_loop_eq)

lemma last_block_Some: "last_block None bs = Some c \<Longrightarrow> c \<in> set bs"
  by (auto simp: last_block_def split: if_splits)

lemma proxy_fallback:
  assumes ok: "list_all tokens_ok (rt_config rt)" and named: "all_locations_named (rt_config rt)"
    and routes: "umap_find (route_map rt) = map_of (config_locations (rt_config rt))"
    and c: "last_block None (handler_blocks h (rt_config rt)) = Some c"
    and none: "umap_find (route_map rt) uri = None"
  shows "validProxy c uri = Inr False"
proof -
  have c: "c \<in> set (handler_blocks h (rt_config rt))" using c by (rule last_block_Some)
  have toks: "list_all tokens_ok c" using ok c by (rule handler_block_tokens)
  have "\<not> (tokens s ! 0 = ''location'' \<and> tokens s ! 1 = uri)" if s: "s \<in> set c" for s
  proof
    assume loc: "tokens s ! 0 = ''location'' \<and> tokens s ! 1 = uri"
    have "tokens s \<noteq> []"
      using toks s tokens_ok_nonempty [of s] by (simp add: list_all_iff)
    then have "(uri, h) \<in> set (config_locations (rt_config rt))"
      using block_location_registered [OF c s] loc by simp
    then have "umap_find (route_map rt) uri \<noteq> None"
      unfolding routes by (metis weak_map_of_SomeI option.distinct(1))
    then show False using none by simp
  qed
  then show ?thesis
    using validProxy_eq [OF toks handler_block_locations [OF named c]] by simp
qed

section \<open>Matching\<close>

lemma zip_prefix:
  "length p \<le> length u \<Longrightarrow> list_all (\<lambda>(a, b). a = b) (zip p u) \<longleftrightarrow> prefix p u"
proof (induction p arbitrary: u)
  case (Cons a p)
  then show ?case by (cases u) auto
qed simp

lemma match_step_eq:
  "match_step uri m longest =
     (if prefix (fst m) uri \<and> length longest < length (fst m) then fst m else longest)"
proof (cases "length uri < length (fst m)")
  case True
  then have "\<not> prefix (fst m) uri" by (auto dest: prefix_length_le)
  then show ?thesis using True by (simp add: match_step_def)
next
  case False
  then show ?thesis using zip_prefix [of "fst m" uri] by (simp add: match_step_def)
qed

lemma fold_match:
  assumes "prefix longest uri"
  shows "prefix (fold (match_step uri) ms longest) uri
    \<and> (fold (match_step uri) ms longest = longest
        \<or> fold (match_step uri) ms longest \<in> fst ` set ms)
    \<and> (\<forall>p \<in> insert longest (fst ` set ms). prefix p uri \<longrightarrow>
         length p \<le> length (fold (match_step uri) ms longest))"
  using assms
proof (induction ms arbitrary: longest)
  case (Cons m ms)
  show ?case
  proof (cases "prefix (fst m) uri \<and> length longest < length (fst m)")
    case True
    then show ?thesis using Cons.IH [of "fst m"] by (auto simp: match_step_eq)
  next
    case False
    then show ?thesis using Cons.IH [of longest] Cons.prems by (auto simp: match_step_eq)
  qed
qed simp

lemma match_spec:
  assumes "enumerates ord"
  shows "prefix (longest_prefix_match ord rt uri) uri"
    and "longest_prefix_match ord rt uri = []
      \<or> longest_prefix_match ord rt uri \<in> dom (umap_find (route_map rt))"
    and "p \<in> dom (umap_find (route_map rt)) \<Longrightarrow> prefix p uri \<Longrightarrow>
      prefix p (longest_prefix_match ord rt uri)"
proof -
  have keys: "fst ` set (ord (route_map rt)) = dom (umap_find (route_map rt))"
    using enumerates_set [OF assms] by (simp add: umap_find_map_of dom_map_of_conv_image_fst)
  note spec = fold_match [of "[]" uri "ord (route_map rt)", folded longest_prefix_match_def]
  show m: "prefix (longest_prefix_match ord rt uri) uri"
    and "longest_prefix_match ord rt uri = []
      \<or> longest_prefix_match ord rt uri \<in> dom (umap_find (route_map rt))"
    using spec by (simp_all add: keys)
  assume "p \<in> dom (umap_find (route_map rt))" and p: "prefix p uri"
  then have "length p \<le> length (longest_prefix_match ord rt uri)"
    using spec by (simp add: keys)
  then show "prefix p (longest_prefix_match ord rt uri)"
    using p m prefix_length_prefix by blast
qed

text \<open>A route is looked up in the registered locations; the fallback to the proxy finds nothing.\<close>

lemma route_lookup:
  assumes "list_all tokens_ok config" and "registered config root rec rt rec'"
  shows "get_route_handler rt uri =
    Inr (case map_of (config_locations config) uri of Some h \<Rightarrow> h | None \<Rightarrow> ''default'')"
proof -
  note rt = registered_router(1,4) [OF assms(2)]
  have named: "all_locations_named config" using assms(2) by (simp add: registered_iff)
  show ?thesis
  proof (cases "umap_find (route_map rt) uri")
    case None
    then have "last_block None (handler_blocks ''proxy'' config) = Some c \<Longrightarrow>
        validProxy c uri = Inr False" for c
      using proxy_fallback [of rt "''proxy''" c uri] assms(1) named rt by simp
    then show ?thesis
      using None get_handler_config_eq [of rt "''proxy''"] assms(1) rt
      by (auto simp: get_route_handler_def split: option.split)
  qed (use rt in \<open>auto simp: get_route_handler_def\<close>)
qed

section \<open>The interface of the dispatcher\<close>

text \<open>
  What \<open>route_request\<close> relies on: whatever class it picks, the handler made for it keeps the
  promises of a route handler, and no handler writes to the recorder.
\<close>

locale request_dispatcher =
  fixes dispatch ::
    "handler_class \<Rightarrow> block option \<Rightarrow> string \<Rightarrow> request \<Rightarrow> recorder \<times> 'e \<Rightarrow>
       response result \<times> recorder \<times> 'e"
  assumes is_handler: "route_handler (dispatch cls config root)"
    and keeps_recorder: "fst (snd (dispatch cls config root req s)) = fst s"
begin

lemma route_request_served: "returns served_ok (fst (route_request ord hord dispatch rt req s))"
proof (cases "select_handler ord rt (req_uri req)")
  case (Inr cc)
  obtain cls config where cc: "cc = (cls, config)" by fastforce
  obtain r rec w where d: "dispatch cls config (server_root rt) req s = (r, rec, w)"
    by (metis surj_pair)
  show ?thesis
  proof (cases r)
    case (Inr resp)
    have "served_ok (fold (\<lambda>h. set_header (fst h) (snd h)) (hord (rt_headers rt)) resp)"
      using route_handler.served_with_headers [OF is_handler d [unfolded Inr]] .
    then show ?thesis
      using d Inr \<open>select_handler ord rt (req_uri req) = Inr cc\<close>
      by (simp add: cc route_request_def apply_default_headers_def Let_def split: sum.split)
  qed (use d \<open>select_handler ord rt (req_uri req) = Inr cc\<close> in \<open>simp add: cc route_request_def\<close>)
qed (simp add: route_request_def)

text \<open>An answered request is one more line on the status page, with the status of its response.\<close>

lemma route_request_records:
  assumes "route_request ord hord dispatch rt req (rec, w) = (Inr resp, rec', w')"
  shows "rec' = request_recorder (req_uri req) (status_code resp) rec"
proof -
  have keep: "status_code (fold (\<lambda>h. set_header (fst h) (snd h)) hs r) = status_code r" for hs r
    by (induction hs arbitrary: r) simp_all
  obtain cls config where sel: "select_handler ord rt (req_uri req) = Inr (cls, config)"
    using assms by (auto simp: route_request_def split: sum.splits)
  obtain r rec2 w2 where d: "dispatch cls config (server_root rt) req (rec, w) = (r, rec2, w2)"
    by (metis surj_pair)
  then have "rec2 = rec" using keeps_recorder by (metis fst_conv snd_conv)
  then show ?thesis
    using assms sel d keep
    by (auto simp: route_request_def apply_default_headers_def Let_def split: sum.splits)
qed

text \<open>Answered or not, a request adds at most one line.\<close>

lemma route_request_recorder:
  "fst (snd (route_request ord hord dispatch rt req (rec, w))) = rec
   \<or> (\<exists>code. fst (snd (route_request ord hord dispatch rt req (rec, w)))
        = request_recorder (req_uri req) code rec)"
proof (cases "select_handler ord rt (req_uri req)")
  case (Inr cc)
  obtain cls config where cc: "cc = (cls, config)" by fastforce
  obtain r rec2 w2 where d: "dispatch cls config (server_root rt) req (rec, w) = (r, rec2, w2)"
    by (metis surj_pair)
  then have "rec2 = rec" using keeps_recorder by (metis fst_conv snd_conv)
  then show ?thesis
    using d Inr by (cases r) (auto simp: cc route_request_def Let_def split: sum.split)
qed (simp add: route_request_def)

end

section \<open>Properties\<close>

text \<open>
  C15. The longest registered prefix is found, whatever the order in which the hash map is
  enumerated: the match is a prefix of the URI, it is empty or registered, and every
  registered prefix of the URI is a prefix of it.
\<close>

theorem longest_prefix_match_spec:
  assumes "enumerates ord"
  shows "prefix (longest_prefix_match ord rt uri) uri
    \<and> (longest_prefix_match ord rt uri = []
        \<or> umap_find (route_map rt) (longest_prefix_match ord rt uri) \<noteq> None)
    \<and> (\<forall>p. umap_find (route_map rt) p \<noteq> None \<and> prefix p uri \<longrightarrow>
          prefix p (longest_prefix_match ord rt uri))"
  using match_spec [OF assms, where rt = rt and uri = uri] by (auto simp: domIff)

definition two_routes :: router where
  "two_routes = fst (snd (register_route ''/static/img'' ''static2''
     (snd (register_route ''/static'' ''static1'' (new_router [] [], new_recorder)))))"

lemma longest_prefix_match_spec_witness:
  "prefix ''/static/img'' (longest_prefix_match rev two_routes ''/static/img/a.jpg'')"
  using longest_prefix_match_spec [OF enumerates_rev, of two_routes "''/static/img/a.jpg''"]
  by (simp add: two_routes_def register_route_def umap_insert_simps new_router_def umap_find_map_of)

text \<open>
  Dispatch is deterministic: two enumeration orders of the route map lead to the same
  handler class with the same configuration, for every URI.
\<close>

theorem select_handler_order:
  assumes "enumerates ord" and "enumerates ord'"
  shows "select_handler ord rt uri = select_handler ord' rt uri"
proof -
  let ?m = "longest_prefix_match ord rt uri" and ?m' = "longest_prefix_match ord' rt uri"
  have "prefix ?m ?m'"
    using match_spec(1,2) [OF assms(1), of rt uri] match_spec(3) [OF assms(2), where p = ?m and rt = rt and uri = uri] by auto
  moreover have "prefix ?m' ?m"
    using match_spec(1,2) [OF assms(2), of rt uri] match_spec(3) [OF assms(1), where p = ?m' and rt = rt and uri = uri] by auto
  ultimately have "?m = ?m'" by (rule prefix_order.antisym)
  then show ?thesis by (simp add: select_handler_def)
qed

lemma select_handler_order_witness:
  "select_handler rev two_routes ''/static/a'' = select_handler (\<lambda>m. m) two_routes ''/static/a''"
  by (rule select_handler_order) (rule enumerates_rev enumerates_id)+

text \<open>
  C34. Registration from the configuration: if every \<open>location\<close> statement of the handler blocks
  names a location, a fresh router ends up with exactly the listed locations, each under the
  handler that listed it first, and the recorder is told of each of them once; if one does
  not, the code reads past the end of a token vector.
\<close>

theorem routes_from_config:
  "if all_locations_named config
   then \<exists>rt rec'. register_routes_from_config (new_router config root, rec) = Inr (True, rt, rec')
     \<and> umap_find (route_map rt) = map_of (config_locations config)
     \<and> (\<exists>new. prefix_handler_list rec' = prefix_handler_list rec @ new
          \<and> umap_wf new \<and> map_of new = map_of (config_locations config))
   else register_routes_from_config (new_router config root, rec) = Inl Undefined_behaviour"
proof (cases "all_locations_named config")
  case True
  obtain rt rec' where r: "registered config root rec rt rec'"
    using True unfolding registered_iff by (metis surj_pair)
  let ?map = "fold umap_insert (config_locations config) []"
  obtain new where new: "?map = [] @ new"
      "prefix_handler_list (snd (register_all (config_locations config)
         (new_router config root, rec))) = prefix_handler_list rec @ new"
    using register_all_recorder [of "config_locations config" "new_router config root" rec]
    by (auto simp: new_router_def)
  have "rec' = snd (register_all (config_locations config) (new_router config root, rec))"
    using r unfolding registered_iff by (metis snd_conv)
  then have "prefix_handler_list rec' = prefix_handler_list rec @ ?map" using new by simp
  moreover have "umap_wf ?map" and "map_of ?map = map_of (config_locations config)"
    using registered_router(4,5,6) [OF r] by (simp_all add: umap_find_map_of)
  ultimately show ?thesis
    using True r registered_router(4) [OF r] unfolding registered_def by auto
next
  case False
  then show ?thesis
    by (simp add: register_routes_from_config_def register_statements_eq new_router_def)
qed

text \<open>
  After registration a route is looked up in the registered locations alone: the fallback
  of \<open>get_route_handler\<close> that searches the proxy's block never answers \<open>proxy\<close>.
\<close>

theorem lookup_after_registration:
  assumes "list_all tokens_ok config"
    and "register_routes_from_config (new_router config root, rec) = Inr (True, rt, rec')"
  shows "get_route_handler rt uri =
    Inr (case map_of (config_locations config) uri of Some h \<Rightarrow> h | None \<Rightarrow> ''default'')"
  using route_lookup [OF assms(1)] assms(2) by (simp add: registered_def)

definition sample_config :: block where
  "sample_config =
     [Statement [''handler'', ''static1'']
        (Some [Statement [''location'', ''/a''] None, Statement [''root'', ''/x''] None]),
      Statement [''handler'', ''echo''] (Some [Statement [''location'', ''/echo''] None])]"

lemma sample_config_ok: "list_all tokens_ok sample_config"
  by (simp add: sample_config_def good_token_def plain_token_def initial_whitespace_def normal_end_def)

lemma sample_config_registered:
  "register_routes_from_config (new_router sample_config [], new_recorder) =
     Inr (True, fst (register_all (config_locations sample_config)
                  (new_router sample_config [], new_recorder)),
          snd (register_all (config_locations sample_config)
                  (new_router sample_config [], new_recorder)))"
  by (simp add: register_routes_from_config_def register_statements_eq new_router_def
      all_locations_named_def locations_named_def is_handler_def sample_config_def)

lemma lookup_after_registration_witness:
  "get_route_handler (fst (register_all (config_locations sample_config)
      (new_router sample_config [], new_recorder))) ''/echo'' = Inr ''echo''"
  using lookup_after_registration [OF sample_config_ok sample_config_registered, of "''/echo''"]
  by (simp add: config_locations_def block_locations_def is_handler_def sample_config_def)

text \<open>
  No handler is made without the configuration it needs: for a parsed configuration whose
  routes have been registered, a handler is selected for every URI without a fault, and a
  static, proxy or meme handler, whose constructors dereference their configuration, gets one.
\<close>

theorem selected_handler_has_config:
  assumes "list_all tokens_ok config"
    and "register_routes_from_config (new_router config root, rec) = Inr (True, rt, rec')"
  shows "\<exists>cls c. select_handler ord rt uri = Inr (cls, c)
    \<and> (cls \<in> {Static_file_handler, Reverse_proxy_handler, Meme_handler} \<longrightarrow> c \<noteq> None)"
proof -
  have r: "registered config root rec rt rec'" using assms(2) by (simp add: registered_def)
  let ?m = "longest_prefix_match ord rt uri"
  obtain h where h: "get_route_handler rt ?m = Inr h"
    and listed: "map_of (config_locations config) ?m = Some h \<or> h = ''default''"
    using route_lookup [OF assms(1) r, of ?m] by (auto split: option.split)
  obtain cls name where cn: "handler_class_of h = (cls, name)" by fastforce
  have cfg: "get_handler_config rt name = Inr (last_block None (handler_blocks name config))"
    using get_handler_config_eq [of rt name] assms(1) registered_router(1) [OF r] by simp
  have "last_block None (handler_blocks name config) \<noteq> None"
    if "cls \<in> {Static_file_handler, Reverse_proxy_handler, Meme_handler}"
  proof -
    have "h \<noteq> ''default''" and "name = h"
      using that cn by (auto simp: handler_class_of_def split: if_splits)
    then have "handler_blocks name config \<noteq> []"
      using listed handler_blocks_registered map_of_SomeD by metis
    then show ?thesis by (simp add: last_block_def)
  qed
  then show ?thesis using h cn cfg by (simp add: select_handler_def)
qed

lemma selected_handler_has_config_witness:
  "\<exists>cls c. select_handler rev (fst (register_all (config_locations sample_config)
        (new_router sample_config [], new_recorder))) ''/a/b.txt'' = Inr (cls, c)
    \<and> (cls \<in> {Static_file_handler, Reverse_proxy_handler, Meme_handler} \<longrightarrow> c \<noteq> None)"
  by (rule selected_handler_has_config [OF sample_config_ok sample_config_registered])

text \<open>
  The last handler block of a name is the one used: whichever block a route was registered
  from, the configuration found for a handler is its last block.
\<close>

theorem handler_config_last:
  assumes "list_all tokens_ok (b1 @ Statement [''handler'', name] (Some c) # b2)"
    and "\<forall>s \<in> set b2. \<not> (is_handler s \<and> tokens s ! 1 = name)"
  shows "get_handler_config
      (new_router (b1 @ Statement [''handler'', name] (Some c) # b2) root) name = Inr (Some c)"
proof -
  have "filter (\<lambda>s. is_handler s \<and> tokens s ! 1 = name) b2 = []"
    using assms(2) by (simp add: filter_empty_conv)
  then have "last_block None
      (handler_blocks name (b1 @ Statement [''handler'', name] (Some c) # b2)) = Some c"
    by (simp add: handler_blocks_def last_block_def is_handler_def)
  then show ?thesis
    using get_handler_config_eq
        [of "new_router (b1 @ Statement [''handler'', name] (Some c) # b2) root" name] assms(1)
    by (simp add: new_router_def)
qed

lemma handler_config_last_witness:
  "get_handler_config
     (new_router ([Statement [''handler'', ''static1''] (Some [Statement [''root'', ''/x''] None])]
        @ Statement [''handler'', ''static1''] (Some [Statement [''root'', ''/y''] None]) # []) [])
     ''static1'' = Inr (Some [Statement [''root'', ''/y''] None])"
  by (rule handler_config_last)
    (simp_all add: good_token_def plain_token_def initial_whitespace_def normal_end_def)

text \<open>
  Default headers: whatever the enumeration order, after the router has applied its
  default headers a name has its default value if there is one, and the handler's otherwise.
\<close>

theorem default_headers_applied:
  assumes "enumerates ord" and "umap_wf (rt_headers rt)" and "umap_wf (response_headers res)"
  shows "umap_find (response_headers (apply_default_headers ord rt res))
    = umap_find (response_headers res) ++ umap_find (rt_headers rt)"
proof -
  have "distinct (map fst (ord (rt_headers rt)))"
    using enumerates_wf [OF assms(1,2)] by (simp add: umap_wf_def)
  then show ?thesis
    using assms(3)
      umap.find_fold_asg_distinct [of "response_headers res" "ord (rt_headers rt)"]
      enumerates_map_of [OF assms(1,2)]
    by (simp add: apply_default_headers_def fold_set_header umap_find_map_of)
qed

lemma default_headers_applied_witness:
  "umap_find (response_headers (apply_default_headers rev
        (snd (register_default_header ''Server'' ''x'' (new_router [] [])))
        (typed_response 200 ''OK'' ''text/plain'')))
     = umap_find (response_headers (typed_response 200 ''OK'' ''text/plain''))
       ++ umap_find (rt_headers (snd (register_default_header ''Server'' ''x'' (new_router [] []))))"
  by (rule default_headers_applied)
    (simp_all add: enumerates_rev register_default_header_def new_router_def umap_insert_simps)

end
