(* ===== verification/Basic_Handlers.thy ===== *)
theory Basic_Handlers
  imports Route_Handler Recorder
begin

text \<open>
  The handlers without a state of their own: \<open>src/default_handler.cc\<close>, \<open>src/echo_handler.cc\<close>,
  \<open>src/health_handler.cc\<close> and \<open>src/status_handler.cc\<close>. The echo handler turns the raw request,
  which has no terminator, into a string, so its definition takes the memory behind the buffer
  (\<open>raw_c_string\<close>); its pause of five seconds under a \<open>Thread-Sleep\<close> header has no result and
  is left out. The status handler takes the state of the recorder at each of its three reads.
\<close>

section \<open>Default, echo and health\<close>

definition generate_404_response :: "request \<Rightarrow> response" where
  "generate_404_response req =
     typed_response 404
       (''The requested resource at '' @ req_uri req @ '' could not be found!'') ''text/plain''"

definition default_handle_request :: "request \<Rightarrow> response" where
  "default_handle_request req = generate_404_response req"

definition generate_echo_response :: "string \<Rightarrow> request \<Rightarrow> response result" where
  "generate_echo_response behind req =
     result_bind (raw_c_string req behind) (\<lambda>body. Inr (typed_response 200 body ''text/plain''))"

definition echo_handle_request :: "string \<Rightarrow> request \<Rightarrow> response result" where
  "echo_handle_request behind req = generate_echo_response behind req"

definition generate_200_response :: "request \<Rightarrow> response" where
  "generate_200_response req = typed_response 200 ''OK'' ''text/plain''"

definition health_handle_request :: "request \<Rightarrow> response" where
  "health_handle_request req =
     (if req_uri req = ''/health'' then generate_200_response req
      else typed_response 400 (''Requested file was not found!'' @ [lf]) ''text/plain'')"

interpretation default_handler: route_handler "\<lambda>req s. (Inr (default_handle_request req), s)"
  by unfold_locales (simp add: default_handle_request_def generate_404_response_def)

interpretation echo_handler: route_handler "\<lambda>req s. (echo_handle_request behind req, s)"
  by unfold_locales
    (auto simp: echo_handle_request_def generate_echo_response_def intro!: returns_bind)

interpretation health_handler: route_handler "\<lambda>req s. (Inr (health_handle_request req), s)"
  by unfold_locales (simp add: health_handle_request_def generate_200_response_def)

section \<open>Status\<close>

definition status_row :: "string \<Rightarrow> string \<Rightarrow> string" where
  "status_row a b = ''<tr><td>'' @ a @ ''</td><td>'' @ b @ ''</td></tr>''"

definition status_page_start :: string where
  "status_page_start =
     ''<!DOCTYPE html><html><head></head><body><h1>Server Status</h1><p>Number of request: ''"

definition status_page ::
  "int \<Rightarrow> (string \<times> nat) list \<Rightarrow> (string \<times> string) list \<Rightarrow> string" where
  "status_page num_request urls handlers =
     status_page_start @ int_string num_request
     @ ''</p><table><tr><th>URL</th><th>Response Code</th></tr>''
     @ (if num_request = 0 then ''</tr><td colspan='' @ [CHR 0x27] @ ''2'' @ [CHR 0x27]
             @ ''>No Request</td><tr>''
        else concat (map (\<lambda>(url, code). status_row url (nat_string code)) urls))
     @ ''</table><p>URL Prefix and Handler Matching</p><table><tr><th>Prefix</th>''
     @ ''<th>Handler</th></tr>''
     @ (if handlers = [] then ''</tr><td colspan= '' @ [CHR 0x27] @ ''2'' @ [CHR 0x27]
             @ ''>Empty</td><tr>''
        else concat (map (\<lambda>(pre, handler). status_row pre handler) handlers))
     @ ''</table></body></html>''"

definition generate_status_response :: "request \<Rightarrow> string \<Rightarrow> response" where
  "generate_status_response req body =
     set_body body (typed_response 200 ''Status message goes here.'' ''text/html'')"

definition status_handle_request ::
  "recorder \<Rightarrow> recorder \<Rightarrow> recorder \<Rightarrow> request \<Rightarrow> response result" where
  "status_handle_request r1 r2 r3 req =
     (let num_request = get_url_response_list_size r1
      in if num_request < 0 then Inl (Exit_process 1)
         else Inr (generate_status_response req
                     (status_page num_request (get_url_response_list r2)
                        (get_prefix_handler_list r3))))"

interpretation status_handler:
  route_handler "\<lambda>req s. (status_handle_request (r1 s) (r2 s) (r3 s) req, s)"
  by unfold_locales (simp add: status_handle_request_def generate_status_response_def Let_def)

section \<open>Lemmas\<close>

lemma c_string_of_text:
  assumes "nul \<notin> set (raw_request req)"
  shows "raw_c_string req behind =
    (if nul \<in> set behind
     then Inr (raw_request req @ takeWhile (\<lambda>c. c \<noteq> nul) behind) else Inl Undefined_behaviour)"
proof -
  have "takeWhile (\<lambda>c. c \<noteq> nul) (raw_request req @ behind)
      = raw_request req @ takeWhile (\<lambda>c. c \<noteq> nul) behind"
    using assms by (intro takeWhile_append2) auto
  then show ?thesis using assms by (simp add: raw_c_string_def)
qed

lemma int_string_nonneg: "0 \<le> i \<Longrightarrow> int_string i = nat_string (nat i)"
  by (simp add: int_string_def)

lemma sublist_behind: "sublist x y \<Longrightarrow> sublist x (a @ y)"
  using sublist_order.order_trans sublist_append_leftI by blast

lemma status_rows_in_page:
  "n \<noteq> 0 \<Longrightarrow> sublist (concat (map (\<lambda>(url, code). status_row url (nat_string code)) urls))
     (status_page n urls handlers)"
  unfolding status_page_def
  by (simp only: if_False) (rule sublist_append_rightI | rule sublist_behind)+

section \<open>Properties\<close>

text \<open>
  The echo handler returns the request and nothing else only by luck: for a request
  without zero bytes, its body is exactly the request if and only if the byte of memory behind
  the request's buffer happens to be zero; otherwise it is longer, or there is no defined
  behaviour at all.
\<close>

theorem echo_exact_iff:
  assumes "nul \<notin> set bytes"
  shows "(\<exists>resp. echo_handle_request behind (new_request bytes) = Inr resp
            \<and> response_body resp = bytes)
     \<longleftrightarrow> behind \<noteq> [] \<and> hd behind = nul"
proof -
  have "raw_request (new_request bytes) = bytes" by (rule new_request_raw)
  then have "echo_handle_request behind (new_request bytes) =
      (if nul \<in> set behind
       then Inr (typed_response 200 (bytes @ takeWhile (\<lambda>c. c \<noteq> nul) behind) ''text/plain'')
       else Inl Undefined_behaviour)"
    using assms by (simp add: echo_handle_request_def generate_echo_response_def c_string_of_text)
  then show ?thesis by (cases behind) auto
qed

lemma echo_exact_iff_witness:
  "\<not> (\<exists>resp. echo_handle_request (''secret'' @ [nul]) (new_request ''GET /echo'') = Inr resp
        \<and> response_body resp = ''GET /echo'')"
  using echo_exact_iff [of "''GET /echo''" "''secret'' @ [nul]"] by simp

text \<open>
  The status page counts right: as long as fewer than 2147483648 requests have been
  recorded and none is recorded while the page is made, the handler answers with status 200,
  and the number read from the page behind \<open>Number of request: \<close> is the number of requests
  recorded.
\<close>

theorem status_page_counts:
  assumes "length (url_response_list r) < 2147483648"
  shows "\<exists>resp. status_handle_request r r r req = Inr resp \<and> status_code resp = 200
    \<and> stoi (drop (length status_page_start) (response_body resp))
        = Inr (int (length (url_response_list r)))"
proof -
  have "stoi (nat_string (length (url_response_list r)) @ CHR ''<'' # t)
      = Inr (int (length (url_response_list r)))" for t
    using assms
    by (intro stoi_nat_string)
      (simp_all add: int_max_def is_digit_def less_eq_char_def)
  then show ?thesis
    using assms
    by (simp add: status_handle_request_def size_small generate_status_response_def
        status_page_def int_string_nonneg)
qed

lemma status_page_counts_witness:
  "\<exists>resp. status_handle_request
        \<lparr>url_response_list = [(''/a'', 200), (''/b'', 404)], prefix_handler_list = []\<rparr>
        \<lparr>url_response_list = [(''/a'', 200), (''/b'', 404)], prefix_handler_list = []\<rparr>
        \<lparr>url_response_list = [(''/a'', 200), (''/b'', 404)], prefix_handler_list = []\<rparr>
        (new_request []) = Inr resp \<and> status_code resp = 200
    \<and> stoi (drop (length status_page_start) (response_body resp)) = Inr 2"
  using status_page_counts
    [of "\<lparr>url_response_list = [(''/a'', 200), (''/b'', 404)], prefix_handler_list = []\<rparr>"
      "new_request []"] by simp

text \<open>
  The status page shows what clients sent, unescaped: whenever the handler answers and
  the count it read is not zero, every URI in the list it read stands in the page between the
  tags of a table cell, as it was sent.
\<close>

theorem status_page_verbatim:
  assumes "status_handle_request r1 r2 r3 req = Inr resp"
    and "get_url_response_list_size r1 \<noteq> 0"
    and "(url, code) \<in> set (url_response_list r2)"
  shows "sublist (''<tr><td>'' @ url @ ''</td><td>'') (response_body resp)"
proof -
  let ?rows = "concat (map (\<lambda>(url, code). status_row url (nat_string code)) (url_response_list r2))"
  have "sublist (''<tr><td>'' @ url @ ''</td><td>'') (status_row url (nat_string code))"
    unfolding status_row_def
    using sublist_appendI [of "''<tr><td>'' @ url @ ''</td><td>''" "[]"]
    by (simp only: append_Nil append.assoc)
  moreover have "sublist (status_row url (nat_string code)) ?rows"
    using assms(3) by (auto simp: in_set_conv_decomp)
  moreover have "sublist ?rows (response_body resp)"
    using assms(1,2) status_rows_in_page
    by (auto simp: status_handle_request_def generate_status_response_def Let_def
        get_url_response_list_def split: if_splits)
  ultimately show ?thesis by (meson sublist_order.order_trans)
qed

lemma status_page_verbatim_witness:
  "sublist (''<tr><td>'' @ ''/<b>'' @ ''</td><td>'')
     (response_body (generate_status_response (new_request [])
        (status_page 1 [(''/<b>'', 404)] [])))"
  by (rule status_page_verbatim [where
        ?r1.0 = "\<lparr>url_response_list = [(''/<b>'', 404)], prefix_handler_list = []\<rparr>" and
        ?r2.0 = "\<lparr>url_response_list = [(''/<b>'', 404)], prefix_handler_list = []\<rparr>" and
        ?r3.0 = new_recorder and req = "new_request []" and code = 404])
    (simp_all add: status_handle_request_def get_url_response_list_size_def to_int_range
      get_url_response_list_def get_prefix_handler_list_def new_recorder_def)

text \<open>
  The status page ends the server: with between 2147483648 and 4294967295 recorded
  requests the count is a negative number and the handler exits the process.
\<close>

theorem status_exit:
  assumes "2147483648 \<le> length (url_response_list r1)"
    and "length (url_response_list r1) < 4294967296"
  shows "status_handle_request r1 r2 r3 req = Inl (Exit_process 1)"
  using size_negative [OF assms] by (simp add: status_handle_request_def)

lemma status_exit_witness:
  "status_handle_request
     \<lparr>url_response_list = replicate 2147483648 (''/'', 200), prefix_handler_list = []\<rparr>
     new_recorder new_recorder (new_request []) = Inl (Exit_process 1)"
  by (rule status_exit) simp_all

end
