(* ===== verification/Reverse_Proxy_Handler.thy ===== *)
theory Reverse_Proxy_Handler
  imports Route_Handler Sql_Lib
begin

text \<open>
  \<open>src/reverse_proxy_handler.cc\<close>: a GET request for the URI's path is sent to the host the
  configuration names for the URI's first segment, and the body that comes back is relayed.

  The network is a parameter: for a host, a port and the bytes sent it either fails (resolving,
  connecting, writing or reading, all of which throw \<open>boost::system::system_error\<close>) or gives
  the bytes up to the end of the connection and how many of them were in the buffer when the
  status line was parsed, which depends on how the bytes arrive. \<open>istream\<close> extractions are
  functions on the stream, a flag for \<open>good()\<close> and what is left; the log lines are left out, and
  with them the content length the headers announce, which only they use.
\<close>

section \<open>State\<close>

record reverse_proxy_handler = route_handler_base +
  location2proxy :: "(string, string) umap"
  mime_type :: string
  port_num :: "int option"
  redirect :: bool

datatype net_reply = Net_error | Net_data string nat

type_synonym network = "string \<Rightarrow> string \<Rightarrow> string \<Rightarrow> net_reply"

section \<open>Constructor\<close>

text \<open>\<open>atoi\<close>: no digit gives 0; a value outside \<open>int\<close> has no defined behaviour.\<close>

definition atoi :: "string \<Rightarrow> int result" where
  "atoi s =
     (case stoi s of
        Inr v \<Rightarrow> Inr v
      | Inl (Throw Invalid_argument) \<Rightarrow> Inr 0
      | Inl _ \<Rightarrow> Inl Undefined_behaviour)"

fun read_proxy_config ::
  "block \<Rightarrow> string \<Rightarrow> reverse_proxy_handler \<Rightarrow> reverse_proxy_handler result" where
  "read_proxy_config [] location h = Inr h"
| "read_proxy_config (s # b) location h =
     result_bind (nth_res (tokens s) 0) (\<lambda>t0.
       if t0 = ''location'' then
         result_bind (nth_res (tokens s) 1) (\<lambda>l. read_proxy_config b l h)
       else if t0 = ''root'' then
         result_bind (nth_res (tokens s) 1) (\<lambda>r.
           read_proxy_config b location
             (h\<lparr>location2proxy := umap_insert (location, r) (location2proxy h)\<rparr>))
       else if t0 = ''port'' then
         result_bind (nth_res (tokens s) 1) (\<lambda>p.
         result_bind (atoi (c_string p)) (\<lambda>n. read_proxy_config b location (h\<lparr>port_num := Some n\<rparr>)))
       else read_proxy_config b location h)"

definition create_proxy_handler :: "block option \<Rightarrow> string \<Rightarrow> reverse_proxy_handler result" where
  "create_proxy_handler config root =
     result_bind (config_statements config) (\<lambda>b.
       read_proxy_config b []
         \<lparr>config_ptr = config, root_path = root, location2proxy = [], mime_type = [],
          port_num = None, redirect = False\<rparr>)"

section \<open>Extraction from a stream\<close>

type_synonym stream = "bool \<times> string"

text \<open>\<open>stream >> word\<close>\<close>

fun read_word :: "stream \<Rightarrow> string \<times> stream" where
  "read_word (False, s) = ([], False, s)"
| "read_word (True, s) =
     (let u = dropWhile is_space s;
          w = takeWhile (\<lambda>c. \<not> is_space c) u;
          t = dropWhile (\<lambda>c. \<not> is_space c) u
      in (w, t \<noteq> [], t))"

text \<open>
  \<open>stream >> n\<close> for an \<open>unsigned int\<close>: a stream that is not good, or has nothing but white space
  left, leaves \<open>n\<close> as it was (\<open>None\<close>); no digit gives 0, a value that is too large the largest
  one, and both fail; a minus sign negates modulo 2 to the 32.
\<close>

fun read_unsigned :: "stream \<Rightarrow> nat option \<times> stream" where
  "read_unsigned (False, s) = (None, False, s)"
| "read_unsigned (True, s) =
     (let u = dropWhile is_space s;
          (neg, w) = split_sign u;
          ds = takeWhile is_digit w;
          t = dropWhile is_digit w
      in if u = [] then (None, False, [])
         else if ds = [] then (Some 0, False, w)
         else if 4294967295 < digits_value ds then (Some 4294967295, False, t)
         else (Some (if neg then nat ((- int (digits_value ds)) mod 4294967296)
                     else digits_value ds), t \<noteq> [], t))"

text \<open>\<open>getline\<close>: \<open>None\<close> when nothing can be extracted.\<close>

fun getline :: "stream \<Rightarrow> string option \<times> stream" where
  "getline (False, s) = (None, False, s)"
| "getline (True, s) =
     (if s = [] then (None, False, [])
      else let t = dropWhile (\<lambda>c. c \<noteq> lf) s
           in (Some (takeWhile (\<lambda>c. c \<noteq> lf) s), t \<noteq> [], tl t))"

lemma getline_shrinks: "getline st = (Some l, st') \<Longrightarrow> length (snd st') < length (snd st)"
proof (induction st rule: getline.induct)
  case (2 s)
  have "length (dropWhile (\<lambda>c. c \<noteq> lf) s) \<le> length s" by (rule length_dropWhile_le)
  moreover have "s \<noteq> []" and "snd st' = tl (dropWhile (\<lambda>c. c \<noteq> lf) s)"
    using 2 by (auto simp: Let_def split: if_splits)
  ultimately show ?case by (cases s) auto
qed simp

text \<open>The loop over the header lines; the type goes up to the first semicolon or the end of the line.\<close>

definition content_type_prefix :: string where
  "content_type_prefix = ''Content-Type: ''"

definition header_mime :: "string \<Rightarrow> string \<Rightarrow> string" where
  "header_mime header mime =
     (if take 16 header = ''Content-Length: '' then mime
      else if take 14 header = content_type_prefix then
        (if CHR '';'' \<in> set header
         then drop 14 (takeWhile (\<lambda>c. c \<noteq> CHR '';'') header) else drop 14 header)
      else mime)"

function read_headers :: "stream \<Rightarrow> string \<Rightarrow> string \<times> stream" where
  "read_headers st mime =
     (case getline st of
        (None, st') \<Rightarrow> (mime, st')
      | (Some header, st') \<Rightarrow>
          if header = [cr] then (mime, st') else read_headers st' (header_mime header mime))"
  by pat_completeness auto
termination
  by (relation "measure (\<lambda>(st, mime). length (snd st))") (auto dest: getline_shrinks [OF sym])

declare read_headers.simps [simp del]

section \<open>One exchange with a host\<close>

fun has_substring :: "string \<Rightarrow> string \<Rightarrow> bool" where
  "has_substring p [] = (p = [])"
| "has_substring p (c # s) = (take (length p) (c # s) = p \<or> has_substring p s)"

text \<open>
  Reading a reply: the status line out of what has arrived, then the headers, then all that is
  left. \<open>read_until\<close> throws when the connection ends before its delimiter. The result is the
  status, the type and the rest.
\<close>

definition read_reply :: "string \<Rightarrow> nat \<Rightarrow> string \<Rightarrow> (nat \<times> string \<times> string) result" where
  "read_reply bytes seen mime =
     (if \<not> has_substring crlf bytes then Inl (Throw System_error)
      else
        (let (http_version, st1) = read_word (True, take seen bytes);
             (status_code, st2) = read_unsigned st1;
             (status_message, st3) = getline st2;
             left = snd st3 @ drop seen bytes
         in case status_code of
              None \<Rightarrow> Inl Undefined_behaviour
            | Some sc \<Rightarrow>
                if \<not> has_substring (crlf @ crlf) left then Inl (Throw System_error)
                else (let (mime', st4) = read_headers (fst st3, left) mime
                      in Inr (sc, mime', snd st4))))"

definition fetch ::
  "network \<Rightarrow> reverse_proxy_handler \<Rightarrow> string \<Rightarrow> string \<Rightarrow>
     (nat \<times> string \<times> reverse_proxy_handler) result" where
  "fetch net h host text =
     (case port_num h of
        None \<Rightarrow> Inl Undefined_behaviour
      | Some port \<Rightarrow>
          (case net host (int_string port) text of
             Net_error \<Rightarrow> Inl (Throw System_error)
           | Net_data bytes seen \<Rightarrow>
               result_bind (read_reply bytes seen (mime_type h)) (\<lambda>(sc, mime, body).
                 Inr (sc, body, h\<lparr>mime_type := mime\<rparr>))))"

definition proxy_request_text :: "string \<Rightarrow> string \<Rightarrow> string" where
  "proxy_request_text host path =
     ''GET '' @ path @ '' HTTP/1.1'' @ crlf @ ''Host: '' @ host @ crlf @ ''Accept: */*'' @ crlf
       @ ''Content-Base: '' @ host @ crlf @ ''Connection: close'' @ crlf @ crlf"

definition sendGetRequest ::
  "network \<Rightarrow> string \<Rightarrow> string \<Rightarrow> reverse_proxy_handler \<Rightarrow>
     (string \<times> reverse_proxy_handler) result" where
  "sendGetRequest net host path h =
     result_bind (fetch net h host (proxy_request_text host path)) (\<lambda>(sc, body, h').
       Inr (body, if sc = 301 \<or> sc = 302 then h'\<lparr>redirect := True\<rparr> else h'))"

text \<open>Host and path of a URI; \<open>iter->second\<close> of an end iterator has no defined behaviour.\<close>

definition host_and_path :: "reverse_proxy_handler \<Rightarrow> string \<Rightarrow> (string \<times> string) result" where
  "host_and_path h uri0 =
     (if uri0 = [] then Inl (Throw Out_of_range)
      else let uri = tl uri0
           in if uri = [] then Inl Undefined_behaviour
              else let uri' = (if last uri \<noteq> CHR ''/'' then uri @ ''/'' else uri);
                       segment = takeWhile (\<lambda>c. c \<noteq> CHR ''/'') uri';
                       path = dropWhile (\<lambda>c. c \<noteq> CHR ''/'') uri'
                   in case umap_find (location2proxy h) (CHR ''/'' # segment) of
                        None \<Rightarrow> Inl Undefined_behaviour
                      | Some host \<Rightarrow> Inr (c_string host, c_string path))"

definition constructGetRequest ::
  "network \<Rightarrow> string \<Rightarrow> reverse_proxy_handler \<Rightarrow> (string \<times> reverse_proxy_handler) result" where
  "constructGetRequest net uri h =
     result_bind (host_and_path h uri) (\<lambda>(host, path). sendGetRequest net host path h)"

section \<open>The handler\<close>

definition with_length :: "response \<Rightarrow> response" where
  "with_length resp = set_header ''Content-Length'' (nat_string (length (response_body resp))) resp"

definition proxy_handle_request ::
  "network \<Rightarrow> string \<Rightarrow> reverse_proxy_handler \<Rightarrow> request \<Rightarrow> response result" where
  "proxy_handle_request net behind h req =
     result_bind (constructGetRequest net (req_uri req) h) (\<lambda>(response_str, h').
       if redirect h' then
         result_bind (raw_c_string req behind) (\<lambda>body.
           Inr (with_length (typed_response 200 body ''text/plain'')))
       else Inr (with_length (typed_response 200 response_str (mime_type h'))))"

definition proxy_request ::
  "network \<Rightarrow> string \<Rightarrow> block option \<Rightarrow> string \<Rightarrow> request \<Rightarrow> response result" where
  "proxy_request net behind config root req =
     result_bind (create_proxy_handler config root) (\<lambda>h. proxy_handle_request net behind h req)"

text \<open>Two methods no one calls: the host of a redirection, and the request to it.\<close>

fun find_from :: "nat \<Rightarrow> string \<Rightarrow> string \<Rightarrow> int" where
  "find_from i p [] = (if p = [] then int i else - 1)"
| "find_from i p (c # s) = (if take (length p) (c # s) = p then int i else find_from (Suc i) p s)"

definition extractRedirectedHost :: "string \<Rightarrow> string result" where
  "extractRedirectedHost res =
     (let start = nat (find_from 0 ''http://'' res + 7)
      in if length res < start then Inl (Throw Out_of_range)
         else Inr (c_string
                (takeWhile (\<lambda>c. c \<noteq> CHR ''/'' \<and> c \<noteq> CHR 0x22) (drop start res))))"

definition redirected_text :: "string \<Rightarrow> string \<Rightarrow> string" where
  "redirected_text host path =
     ''GET '' @ path @ '' HTTP/1.1'' @ crlf @ ''Host: '' @ host @ crlf @ ''Accept: */*'' @ crlf
       @ ''Connection: close'' @ crlf @ crlf"

definition sendGetRequestToRedirectedSite ::
  "network \<Rightarrow> string \<Rightarrow> string \<Rightarrow> reverse_proxy_handler \<Rightarrow>
     (string \<times> reverse_proxy_handler) result" where
  "sendGetRequestToRedirectedSite net host path h =
     result_bind (fetch net h host (redirected_text host path)) (\<lambda>(sc, body, h'). Inr (body, h'))"

lemma with_length_served [simp]: "served_ok r \<Longrightarrow> served_ok (with_length r)"
  by (simp add: with_length_def)

interpretation proxy_handler: route_handler
  "\<lambda>req s. (proxy_request net behind config root req, s)"
  by unfold_locales
    (auto simp: proxy_request_def proxy_handle_request_def intro!: returns_bind)

section \<open>Which URIs name a host\<close>

definition first_segment :: "string \<Rightarrow> string" where
  "first_segment uri = CHR ''/'' # takeWhile (\<lambda>c. c \<noteq> CHR ''/'') (tl uri)"

lemma takeWhile_add_slash:
  "takeWhile (\<lambda>c. c \<noteq> CHR ''/'') (s @ ''/'') = takeWhile (\<lambda>c. c \<noteq> CHR ''/'') s"
  by (induction s) simp_all

lemma host_and_path_lookup:
  assumes "2 \<le> length uri"
  shows "host_and_path h uri =
    (case umap_find (location2proxy h) (first_segment uri) of
       None \<Rightarrow> Inl Undefined_behaviour
     | Some host \<Rightarrow>
         Inr (c_string host, c_string (dropWhile (\<lambda>c. c \<noteq> CHR ''/'')
                (if last (tl uri) \<noteq> CHR ''/'' then tl uri @ ''/'' else tl uri))))"
  using assms
  by (cases uri) (auto simp: host_and_path_def first_segment_def takeWhile_add_slash Let_def
      split: option.split)

text \<open>The lookup table the constructor builds: pairs of location and root, in their order.\<close>

fun proxy_pairs :: "block \<Rightarrow> string \<Rightarrow> (string \<times> string) list" where
  "proxy_pairs [] l = []"
| "proxy_pairs (s # b) l =
     (if tokens s ! 0 = ''location'' then proxy_pairs b (tokens s ! 1)
      else if tokens s ! 0 = ''root'' then (l, tokens s ! 1) # proxy_pairs b l
      else proxy_pairs b l)"

lemma read_proxy_config_pairs:
  "read_proxy_config b l h = Inr h' \<Longrightarrow>
     location2proxy h' = fold umap_insert (proxy_pairs b l) (location2proxy h)
     \<and> mime_type h' = mime_type h \<and> redirect h' = redirect h"
proof (induction b l h rule: read_proxy_config.induct)
  case (2 s b l h)
  then show ?case
    by (auto simp: result_bind_eq_Inr nth_res_def split: if_splits)
qed simp

lemma created_proxy:
  assumes "create_proxy_handler (Some b) root = Inr h"
  shows "umap_find (location2proxy h) = map_of (proxy_pairs b [])" "mime_type h = []" "\<not> redirect h"
proof -
  have "read_proxy_config b []
      \<lparr>config_ptr = Some b, root_path = root, location2proxy = [], mime_type = [],
       port_num = None, redirect = False\<rparr> = Inr h"
    using assms by (simp add: create_proxy_handler_def config_statements_def)
  then have h: "location2proxy h = fold umap_insert (proxy_pairs b []) []"
      "mime_type h = []" "\<not> redirect h"
    by (auto dest: read_proxy_config_pairs)
  show "umap_find (location2proxy h) = map_of (proxy_pairs b [])"
    unfolding h(1) using umap.find_fold_ins [OF umap_wf_Nil] by simp
  show "mime_type h = []" "\<not> redirect h" using h(2,3) .
qed

section \<open>Reading a reply\<close>

lemma has_substring_iff: "has_substring p s \<longleftrightarrow> (\<exists>x y. s = x @ p @ y)"
proof (induction s)
  case (Cons c s)
  have "take (length p) (c # s) = p \<longleftrightarrow> (\<exists>y. c # s = p @ y)"
    by (metis append_eq_conv_conj)
  then show ?case
    unfolding has_substring.simps Cons.IH
    by (metis append_Cons append_Nil neq_Nil_conv list.inject)
qed auto

text \<open>The lines of a well-formed header, none of which is empty, then the blank line.\<close>

lemma getline_line:
  "lf \<notin> set l \<Longrightarrow> getline (True, l @ lf # t) = (Some l, True, t)"
proof -
  assume "lf \<notin> set l"
  then have "takeWhile (\<lambda>c. c \<noteq> lf) (l @ lf # t) = l \<and> dropWhile (\<lambda>c. c \<noteq> lf) (l @ lf # t) = lf # t"
    by (induction l) auto
  then show ?thesis by (simp add: Let_def)
qed

lemma read_headers_blank: "read_headers (True, cr # lf # t) mime = (mime, True, t)"
proof -
  have "getline (True, cr # lf # t) = (Some [cr], True, t)"
    using getline_line [of "[cr]" t] by simp
  then show ?thesis by (subst read_headers.simps) simp
qed

lemma read_headers_line:
  assumes "lf \<notin> set l" and "l \<noteq> [cr]"
  shows "read_headers (True, l @ lf # t) mime = read_headers (True, t) (header_mime l mime)"
  using getline_line [OF assms(1)] assms(2) by (subst read_headers.simps) simp

definition header_text :: "string \<times> string \<Rightarrow> string" where
  "header_text h = fst h @ '': '' @ snd h @ [cr]"

lemma read_headers_lines:
  assumes "\<forall>h \<in> set hs. header_ok h"
  shows "read_headers (True, concat (map header_line hs) @ crlf @ body) mime
    = (fold (\<lambda>h. header_mime (header_text h)) hs mime, True, body)"
  using assms
proof (induction hs arbitrary: mime)
  case Nil
  then show ?case by (simp add: read_headers_blank)
next
  case (Cons h hs)
  have "lf \<notin> set (header_text h)" and "header_text h \<noteq> [cr]"
    using Cons.prems by (auto simp: header_text_def header_ok_def line_text_def)
  then have "read_headers (True, header_text h @ lf # concat (map header_line hs) @ crlf @ body) mime
      = read_headers (True, concat (map header_line hs) @ crlf @ body)
          (header_mime (header_text h) mime)"
    by (rule read_headers_line)
  moreover have "concat (map header_line (h # hs)) @ crlf @ body
      = header_text h @ lf # concat (map header_line hs) @ crlf @ body"
    by (simp add: header_line_def header_text_def)
  ultimately show ?case using Cons by simp
qed

text \<open>
  A status line: a word, a number, and whatever follows that is no digit and no line feed. This
  server writes such a line.
\<close>

definition reply_line :: "string \<Rightarrow> nat \<Rightarrow> string \<Rightarrow> string" where
  "reply_line version code reason = version @ '' '' @ nat_string code @ reason @ [lf]"

definition reply_line_ok :: "string \<Rightarrow> nat \<Rightarrow> string \<Rightarrow> bool" where
  "reply_line_ok version code reason \<longleftrightarrow>
     version \<noteq> [] \<and> (\<forall>c \<in> set version. \<not> is_space c) \<and> code \<le> 4294967295
     \<and> lf \<notin> set reason \<and> (reason = [] \<or> \<not> is_digit (hd reason))"

definition reply_text :: "string \<Rightarrow> nat \<Rightarrow> string \<Rightarrow> (string \<times> string) list \<Rightarrow> string \<Rightarrow> string" where
  "reply_text version code reason hs body =
     reply_line version code reason @ concat (map header_line hs) @ crlf @ body"

lemma read_status_line:
  assumes "reply_line_ok v code w"
  shows "\<exists>st1 st2 m. read_word (True, reply_line v code w @ t) = (v, st1)
    \<and> read_unsigned st1 = (Some code, st2) \<and> getline st2 = (m, True, t)"
proof -
  let ?rest = "w @ lf # t"
  obtain c ds where ds: "nat_string code = c # ds" using nat_string_nonempty by (metis neq_Nil_conv)
  have digits: "\<forall>x \<in> set (nat_string code). is_digit x" using nat_string_digits by blast
  have c: "\<not> is_space c" "c \<noteq> CHR ''-''" "c \<noteq> CHR ''+''"
    using digits is_digit_not_space [of c] by (auto simp: ds is_digit_def less_eq_char_def)
  have sp: "is_space (CHR '' '')" by (simp add: is_space_def)
  obtain d r where r: "?rest = d # r" "\<not> is_digit d"
    using assms by (cases w) (auto simp: reply_line_ok_def is_digit_def less_eq_char_def)
  obtain v0 v' where v: "v = v0 # v'" "\<not> is_space v0"
    using assms by (cases v) (auto simp: reply_line_ok_def)
  have "takeWhile (\<lambda>c. \<not> is_space c) (v @ CHR '' '' # nat_string code @ ?rest) = v"
      "dropWhile (\<lambda>c. \<not> is_space c) (v @ CHR '' '' # nat_string code @ ?rest)
        = CHR '' '' # nat_string code @ ?rest"
    using assms sp by (simp_all add: reply_line_ok_def takeWhile_append2 dropWhile_append2)
  moreover have "dropWhile is_space (v @ CHR '' '' # nat_string code @ ?rest)
      = v @ CHR '' '' # nat_string code @ ?rest"
    using v by simp
  ultimately have "read_word (True, reply_line v code w @ t)
      = (v, True, CHR '' '' # nat_string code @ ?rest)"
    by (simp add: reply_line_def Let_def del: dropWhile_eq_Nil_conv)
  moreover have "read_unsigned (True, CHR '' '' # nat_string code @ ?rest)
      = (Some code, True, ?rest)"
  proof -
    have "dropWhile is_space (CHR '' '' # nat_string code @ ?rest) = nat_string code @ ?rest"
      using sp c(1) by (simp add: ds)
    moreover have "split_sign (nat_string code @ ?rest) = (False, nat_string code @ ?rest)"
      using c(2,3) by (simp add: ds)
    moreover have "takeWhile is_digit (nat_string code @ ?rest) = nat_string code"
        "dropWhile is_digit (nat_string code @ ?rest) = ?rest"
      using digits r by (simp_all add: takeWhile_append2 dropWhile_append2)
    ultimately show ?thesis using assms by (simp add: Let_def reply_line_ok_def)
  qed
  moreover have "getline (True, ?rest) = (Some w, True, t)"
    using assms by (intro getline_line) (simp add: reply_line_ok_def)
  ultimately show ?thesis by blast
qed

lemma read_reply_text:
  assumes "reply_line_ok v code w" and "\<forall>h \<in> set hs. header_ok h" and "hs \<noteq> []"
    and "length (reply_line v code w) \<le> seen"
  shows "read_reply (reply_text v code w hs body) seen mime
    = Inr (code, fold (\<lambda>h. header_mime (header_text h)) hs mime, body)"
proof -
  let ?rest = "concat (map header_line hs) @ crlf @ body"
  define n where "n = seen - length (reply_line v code w)"
  define a b where "a = take n ?rest" and "b = drop n ?rest"
  have ab: "a @ b = ?rest" by (simp only: a_def b_def append_take_drop_id)
  have bytes: "reply_text v code w hs body = reply_line v code w @ ?rest"
    by (simp add: reply_text_def)
  have seen: "take seen (reply_line v code w @ ?rest) = reply_line v code w @ a"
      "drop seen (reply_line v code w @ ?rest) = b"
    using assms(4) by (simp_all add: n_def a_def b_def)
  obtain st1 st2 m where st: "read_word (True, reply_line v code w @ a) = (v, st1)"
      "read_unsigned st1 = (Some code, st2)" "getline st2 = (m, True, a)"
    using read_status_line [OF assms(1)] by blast
  obtain hs' h where "hs = hs' @ [h]" using assms(3) by (metis rev_exhaust)
  then have rest: "?rest = (concat (map header_line hs') @ fst h @ '': '' @ snd h)
      @ (crlf @ crlf) @ body"
    by (simp add: header_line_def)
  then have blank: "has_substring (crlf @ crlf) ?rest" unfolding has_substring_iff by blast
  have "\<exists>x y. reply_line v code w @ ?rest = x @ crlf @ y"
    unfolding rest by (metis append.assoc)
  then have crlf: "has_substring crlf (reply_line v code w @ ?rest)"
    unfolding has_substring_iff .
  show ?thesis
    using st crlf blank read_headers_lines [OF assms(2), of body mime]
    unfolding read_reply_def bytes seen by (simp add: ab del: read_word.simps)
qed

lemma own_reply:
  "fst (generate_response ord r) = reply_text ''HTTP/1.1'' (status_code r)
     ('' '' @ get_status_word (status_code r) @ [cr]) (ord (response_headers r)) (response_body r)"
  "generate_status_line r = reply_line ''HTTP/1.1'' (status_code r)
     ('' '' @ get_status_word (status_code r) @ [cr])"
  by (simp_all add: generate_response_shape reply_text_def reply_line_def generate_status_line_def)

lemma own_reply_ok:
  "status_code r \<le> 4294967295 \<Longrightarrow>
     reply_line_ok ''HTTP/1.1'' (status_code r) ('' '' @ get_status_word (status_code r) @ [cr])"
  using get_status_word_line [of "status_code r"]
  by (auto simp: reply_line_ok_def is_space_def is_digit_def less_eq_char_def)

lemma read_reply_own:
  assumes "enumerates ord" and "\<forall>h \<in> set (response_headers r). header_ok h"
    and "response_headers r \<noteq> []" and "status_code r \<le> 4294967295"
    and "length (generate_status_line r) \<le> seen"
  shows "read_reply (fst (generate_response ord r)) seen mime
    = Inr (status_code r, fold (\<lambda>h. header_mime (header_text h)) (ord (response_headers r)) mime,
           response_body r)"
proof -
  have "set (ord (response_headers r)) = set (response_headers r)"
    by (rule enumerates_set [OF assms(1)])
  then have "\<forall>h \<in> set (ord (response_headers r)). header_ok h" "ord (response_headers r) \<noteq> []"
    using assms(2,3) by (auto simp flip: set_empty)
  then show ?thesis
    using read_reply_text [OF own_reply_ok [OF assms(4)]] assms(5) unfolding own_reply by blast
qed

end
