(* ===== verification/Proxy_Claims.thy ===== *)
theory Proxy_Claims
  imports Reverse_Proxy_Handler
begin

text \<open>
  What the reverse proxy promises: which URIs it has a host for, and what becomes of the host's
  reply, a status line, header lines and a body, of which the responses this server's own code
  writes are examples.
\<close>

section \<open>The type of a reply\<close>

lemma before_colon:
  assumes "CHR '':'' \<notin> set n"
  shows "takeWhile (\<lambda>c. c \<noteq> CHR '':'') (n @ CHR '':'' # t) = n"
  using assms by (induction n) auto

lemma header_text_starts:
  assumes "CHR '':'' \<notin> set (fst h)" and "CHR '':'' \<notin> set n"
  shows "take (Suc (Suc (length n))) (header_text h) = n @ '': '' \<longleftrightarrow> fst h = n"
proof
  assume "take (Suc (Suc (length n))) (header_text h) = n @ '': ''"
  then have "header_text h = n @ CHR '':'' # CHR '' '' # drop (Suc (Suc (length n))) (header_text h)"
    by (metis append.assoc append_Cons append_Nil append_take_drop_id)
  moreover have "header_text h = fst h @ CHR '':'' # CHR '' '' # snd h @ [cr]"
    by (simp add: header_text_def)
  ultimately show "fst h = n" using before_colon assms by metis
qed (simp add: header_text_def)

definition relayed_type :: "string \<Rightarrow> string" where
  "relayed_type v = (if CHR '';'' \<in> set v then takeWhile (\<lambda>c. c \<noteq> CHR '';'') v else v @ [cr])"

lemma takeWhile_semicolon:
  assumes "CHR '';'' \<in> set v"
  shows "takeWhile (\<lambda>c. c \<noteq> CHR '';'') (v @ w) = takeWhile (\<lambda>c. c \<noteq> CHR '';'') v"
  using assms by (induction v) auto

lemma header_mime_text:
  assumes "CHR '':'' \<notin> set (fst h)"
  shows "header_mime (header_text h) mime
    = (if fst h = ''Content-Type'' then relayed_type (snd h) else mime)"
proof -
  have len: "take 16 (header_text h) = ''Content-Length: '' \<longleftrightarrow> fst h = ''Content-Length''"
    using header_text_starts [OF assms, of "''Content-Length''"] by (simp add: eval_nat_numeral)
  have ct: "take 14 (header_text h) = content_type_prefix \<longleftrightarrow> fst h = ''Content-Type''"
    using header_text_starts [OF assms, of "''Content-Type''"]
    by (simp add: eval_nat_numeral content_type_prefix_def)
  show ?thesis
  proof (cases "fst h = ''Content-Type''")
    case True
    have no: "take 16 (header_text h) \<noteq> ''Content-Length: ''" and yes: "take 14 (header_text h) = content_type_prefix"
      using True len ct by simp_all
    have line: "header_text h = CHR ''C'' # CHR ''o'' # CHR ''n'' # CHR ''t'' # CHR ''e'' # CHR ''n'' # CHR ''t''
        # CHR ''-'' # CHR ''T'' # CHR ''y'' # CHR ''p'' # CHR ''e'' # CHR '':'' # CHR '' '' # snd h @ [cr]"
      using True by (simp add: header_text_def)
    have "header_mime (header_text h) mime = relayed_type (snd h)"
      using takeWhile_semicolon [of "snd h" "[cr]"]
      unfolding header_mime_def if_not_P [OF no] if_P [OF yes]
      by (simp add: line relayed_type_def)
    then show ?thesis using True by simp
  qed (use len ct in \<open>simp add: header_mime_def\<close>)
qed

text \<open>Of several lines of that name the last one counts.\<close>

definition reply_type :: "(string \<times> string) list \<Rightarrow> string" where
  "reply_type hs =
     (case map_of (rev hs) ''Content-Type'' of None \<Rightarrow> [] | Some v \<Rightarrow> relayed_type v)"

lemma fold_header_mime:
  assumes "\<forall>h \<in> set hs. CHR '':'' \<notin> set (fst h)"
  shows "fold (\<lambda>h. header_mime (header_text h)) hs [] = reply_type hs"
  using assms
proof (induction hs rule: rev_induct)
  case (snoc h hs)
  then show ?case by (cases h) (simp add: header_mime_text reply_type_def)
qed (simp add: reply_type_def)

text \<open>What a response with a body and a type is.\<close>

definition carries :: "response \<Rightarrow> string \<Rightarrow> string \<Rightarrow> bool" where
  "carries resp body mime \<longleftrightarrow> status_code resp = 200 \<and> response_body resp = body
     \<and> umap_find (response_headers resp) ''Content-Length'' = Some (nat_string (length body))
     \<and> umap_find (response_headers resp) ''Content-Type'' = Some mime"

lemma with_length_carries: "carries (with_length (typed_response 200 body mime)) body mime"
  by (simp add: carries_def with_length_def typed_response_def set_header_find)

text \<open>One exchange with a host that answers with a well-formed reply.\<close>

lemma relayed:
  assumes "create_proxy_handler (Some b) root = Inr h" and "port_num h = Some p"
    and "host_and_path h (req_uri req) = Inr (host, path)"
    and "net host (int_string p) (proxy_request_text host path)
      = Net_data (reply_text version code reason hs body) seen"
    and "length (reply_line version code reason) \<le> seen" and "reply_line_ok version code reason"
    and "hs \<noteq> []" and "\<forall>x \<in> set hs. header_ok x \<and> CHR '':'' \<notin> set (fst x)"
  shows "proxy_request net behind (Some b) root req =
    (if code = 301 \<or> code = 302
     then result_bind (raw_c_string req behind) (\<lambda>text.
       Inr (with_length (typed_response 200 text ''text/plain'')))
     else Inr (with_length (typed_response 200 body (reply_type hs))))"
proof -
  have "mime_type h = []" "\<not> redirect h" using created_proxy [OF assms(1)] by simp_all
  moreover have "read_reply (reply_text version code reason hs body) seen []
      = Inr (code, reply_type hs, body)"
    using read_reply_text [OF assms(6) _ assms(7,5), of body "[]"] assms(8)
    by (simp add: fold_header_mime)
  ultimately show ?thesis
    using assms(1-4)
    by (simp add: proxy_request_def proxy_handle_request_def constructGetRequest_def
        sendGetRequest_def fetch_def)
qed

lemma relayed_own:
  assumes "create_proxy_handler (Some b) root = Inr h" and "port_num h = Some p"
    and "host_and_path h (req_uri req) = Inr (host, path)"
    and "net host (int_string p) (proxy_request_text host path)
      = Net_data (fst (generate_response ord r)) seen"
    and "length (generate_status_line r) \<le> seen"
    and "enumerates ord" and "response_headers r \<noteq> []"
    and "\<forall>x \<in> set (response_headers r). header_ok x \<and> CHR '':'' \<notin> set (fst x)"
    and "status_code r \<le> 4294967295" and "status_code r \<notin> {301, 302}"
  shows "\<exists>resp. proxy_request net behind (Some b) root req = Inr resp
    \<and> status_code resp = 200 \<and> response_body resp = response_body r"
proof -
  have "set (ord (response_headers r)) = set (response_headers r)"
    by (rule enumerates_set [OF assms(6)])
  then have "ord (response_headers r) \<noteq> []"
      "\<forall>x \<in> set (ord (response_headers r)). header_ok x \<and> CHR '':'' \<notin> set (fst x)"
    using assms(7,8) by (auto simp flip: set_empty)
  from relayed [where net = net and behind = behind, OF assms(1-3) assms(4) [unfolded own_reply]
      assms(5) [unfolded own_reply] own_reply_ok [OF assms(9)] this]
  show ?thesis using assms(10) by (simp add: with_length_def)
qed

section \<open>Properties\<close>

text \<open>
  C32. What the proxy makes of a reply. The host answers with a status line, header lines that are
  well formed and whose names are free of colons, an empty line and a body; the status line is
  among the bytes that arrive first. Unless the status is 301 or 302, the client gets status 200
  whatever the status of the reply, the reply's body, a Content-Length that is the length of that
  body, and the reply's last Content-Type up to its first semicolon; a type without a semicolon
  keeps the carriage return that ends its header line, a reply without a type gives an empty
  one. When the status is 301 or 302, nothing of the reply is relayed: the client gets the text
  of its own request, with status 200, read on into the memory behind it up to a zero byte.
\<close>

theorem proxy_relays_reply:
  assumes "create_proxy_handler (Some b) root = Inr h" and "port_num h = Some p"
    and "host_and_path h (req_uri req) = Inr (host, path)"
    and "net host (int_string p) (proxy_request_text host path)
      = Net_data (reply_text version code reason hs body) seen"
    and "length (reply_line version code reason) \<le> seen" and "reply_line_ok version code reason"
    and "hs \<noteq> []" and "\<forall>x \<in> set hs. header_ok x \<and> CHR '':'' \<notin> set (fst x)"
  shows "if code = 301 \<or> code = 302
    then (case raw_c_string req behind of
        Inl e \<Rightarrow> proxy_request net behind (Some b) root req = Inl e
      | Inr text \<Rightarrow> \<exists>resp. proxy_request net behind (Some b) root req = Inr resp
          \<and> carries resp text ''text/plain'')
    else (\<exists>resp. proxy_request net behind (Some b) root req = Inr resp
      \<and> carries resp body (case map_of (rev hs) ''Content-Type'' of
          None \<Rightarrow> [] | Some v \<Rightarrow> relayed_type v))"
  using relayed [where net = net and behind = behind, OF assms] with_length_carries
  by (auto simp: reply_type_def split: sum.split)

definition ucla_config :: block where
  "ucla_config =
     [Statement [''location'', ''/ucla''] None, Statement [''root'', ''ucla.edu''] None,
      Statement [''port'', ''80''] None]"

definition ucla_handler :: reverse_proxy_handler where
  "ucla_handler =
     \<lparr>config_ptr = Some ucla_config, root_path = [], location2proxy = [(''/ucla'', ''ucla.edu'')],
      mime_type = [], port_num = Some 80, redirect = False\<rparr>"

lemma small_numbers: "nat_string 404 = ''404''" "nat_string (Suc (Suc (Suc (Suc 0)))) = ''4''"
  by code_simp+

lemma atoi_80: "atoi ''80'' = Inr 80"
  by code_simp

lemma ucla_created: "create_proxy_handler (Some ucla_config) [] = Inr ucla_handler"
  by (simp add: create_proxy_handler_def config_statements_def ucla_config_def ucla_handler_def
      umap_insert_def umap_find_def c_string_def atoi_80)

definition ucla_request :: request where
  "ucla_request = (new_request [])\<lparr>req_uri := ''/ucla/a''\<rparr>"

lemma ucla_host: "host_and_path ucla_handler (req_uri ucla_request) = Inr (''ucla.edu'', ''/a/'')"
  by (simp add: ucla_request_def host_and_path_def ucla_handler_def umap_find_def c_string_def)

definition gone_headers :: "(string \<times> string) list" where
  "gone_headers = [(''Server'', ''x''), (''Content-Type'', ''text/html'')]"

lemma gone_reply_ok:
  "reply_line_ok ''HTTP/1.0'' 404 '' gone'' \<and> gone_headers \<noteq> []
     \<and> (\<forall>x \<in> set gone_headers. header_ok x \<and> CHR '':'' \<notin> set (fst x))"
  "length (reply_line ''HTTP/1.0'' 404 '' gone'') \<le> 1000"
  by (simp_all add: reply_line_ok_def reply_line_def gone_headers_def is_space_def is_digit_def
      less_eq_char_def header_ok_def line_text_def no_separator_def sublist_Cons_right small_numbers)

lemma proxy_relays_reply_witness:
  "\<exists>resp. proxy_request
        (\<lambda>host port text. Net_data (reply_text ''HTTP/1.0'' 404 '' gone'' gone_headers ''gone'') 1000)
        [] (Some ucla_config) [] ucla_request = Inr resp
     \<and> carries resp ''gone'' (''text/html'' @ [cr])"
  using proxy_relays_reply [OF ucla_created _ ucla_host, of 80 "\<lambda>host port text. Net_data
        (reply_text ''HTTP/1.0'' 404 '' gone'' gone_headers ''gone'') 1000" "''HTTP/1.0''" 404
      "'' gone''" gone_headers "''gone''" 1000 "[]"] gone_reply_ok
  by (simp add: ucla_handler_def gone_headers_def relayed_type_def)

lemma ucla_answer:
  "proxy_request (\<lambda>host port text. Net_data (reply_text ''HTTP/1.0'' 404 '' gone'' gone_headers ''gone'') 1000)
     [] (Some ucla_config) [] ucla_request
     = Inr (with_length (typed_response 200 ''gone'' (''text/html'' @ [cr])))"
  using relayed [where net = "\<lambda>host port text. Net_data
        (reply_text ''HTTP/1.0'' 404 '' gone'' gone_headers ''gone'') 1000", OF ucla_created _ ucla_host,
      of 80 "''HTTP/1.0''" 404 "'' gone''" gone_headers "''gone''" 1000 "[]"] gone_reply_ok
  by (simp add: ucla_handler_def gone_headers_def relayed_type_def reply_type_def)

text \<open>
  The proxy needs a host: for a URI of two characters or more, the handler sends its request
  to the host the configuration gives for the URI's first segment, the first root that follows a
  location of that name; for a segment without one it dereferences the end of the map, and the
  request has no defined outcome, whatever the network does.
\<close>

theorem proxy_host_missing:
  assumes "create_proxy_handler (Some b) root = Inr h" and "2 \<le> length (req_uri req)"
  shows "case map_of (proxy_pairs b []) (first_segment (req_uri req)) of
      None \<Rightarrow> proxy_request net behind (Some b) root req = Inl Undefined_behaviour
    | Some host \<Rightarrow> \<exists>path. host_and_path h (req_uri req) = Inr (c_string host, path)"
proof -
  have "proxy_request net behind (Some b) root req = proxy_handle_request net behind h req"
    using assms(1) by (simp add: proxy_request_def)
  then show ?thesis
    using host_and_path_lookup [OF assms(2), of h] created_proxy(1) [OF assms(1)]
    by (simp add: proxy_handle_request_def constructGetRequest_def split: option.split)
qed

lemma proxy_host_missing_witness:
  "proxy_request net behind (Some ucla_config) [] (ucla_request\<lparr>req_uri := ''/uclax''\<rparr>)
     = Inl Undefined_behaviour"
  using proxy_host_missing [OF ucla_created, of "ucla_request\<lparr>req_uri := ''/uclax''\<rparr>" net behind]
  by (simp add: ucla_config_def first_segment_def)

text \<open>
  The proxy's errors are exceptions the session can catch: with a configured port, a request
  whose URI names a host, and a network that fails, or a host that closes the connection before its
  first line ends, the handler throws and gives no response.
\<close>

theorem proxy_failure_throws:
  assumes "create_proxy_handler (Some b) root = Inr h" and "port_num h = Some p"
    and "host_and_path h (req_uri req) = Inr (host, path)"
    and "net host (int_string p) (proxy_request_text host path) = Net_error
      \<or> (\<exists>bytes seen. net host (int_string p) (proxy_request_text host path) = Net_data bytes seen
            \<and> \<not> has_substring crlf bytes)"
  shows "proxy_request net behind (Some b) root req = Inl (Throw System_error)"
  using assms(4)
  by (auto simp: proxy_request_def proxy_handle_request_def constructGetRequest_def
      sendGetRequest_def fetch_def read_reply_def assms(1-3))

lemma proxy_failure_throws_witness:
  "proxy_request (\<lambda>host port text. Net_data ''HTTP/1.1 200 OK'' 15) [] (Some ucla_config) []
     ucla_request = Inl (Throw System_error)"
  by (rule proxy_failure_throws [OF ucla_created _ ucla_host, of 80]) (simp_all add: ucla_handler_def)

text \<open>
  Every response of the proxy carries a Content-Length that is the length of its body, a
  Content-Type and status 200, also when the host redirects and the request is echoed instead.
\<close>

theorem proxy_content_length:
  assumes "proxy_request net behind config root req = Inr resp"
  shows "status_code resp = 200
    \<and> umap_find (response_headers resp) ''Content-Length''
        = Some (nat_string (length (response_body resp)))
    \<and> umap_find (response_headers resp) ''Content-Type'' \<noteq> None"
proof -
  have "\<exists>body mime. resp = with_length (typed_response 200 body mime)"
    using assms by (auto simp: proxy_request_def proxy_handle_request_def result_bind_eq_Inr
        split: if_splits)
  then show ?thesis
    by (auto simp: with_length_def typed_response_def set_header_find)
qed

lemma proxy_content_length_witness:
  "status_code (with_length (typed_response 200 ''gone'' (''text/html'' @ [cr]))) = 200"
  using proxy_content_length [OF ucla_answer] by blast

end
