(* ===== verification/Handlers.thy ===== *)
theory Handlers
  imports Router Basic_Handlers Static_File_Handler Meme_Claims Proxy_Claims
begin

text \<open>
  The handlers put behind the router. A handler object lives for one request: the router calls
  the \<open>create_handler\<close> of the class it has selected and then \<open>handle_request\<close> of what it gets.
  The world outside of the server is an environment: the files, the memory behind the request's
  buffer, the identifier \<open>boost::uuids\<close> would generate, the network and SQLite; the database
  itself is the state the meme handler changes.

  The interface \<open>request_dispatcher\<close> of theory Router is interpreted here on the real handlers,
  and the routing is shown to refine a specification that does not mention hash maps or loops.
\<close>

section \<open>The handlers of the router\<close>

record 'db environment =
  env_files :: file_system
  env_behind :: string
  env_uuid :: string
  env_network :: network
  env_sqlite :: "'db sqlite"

definition run_handler :: "'db environment \<Rightarrow> 'db dispatcher" where
  "run_handler env cls config root req s =
     (case s of (rec, db) \<Rightarrow>
       (case cls of
          Echo_handler \<Rightarrow> (echo_handle_request (env_behind env) req, rec, db)
        | Static_file_handler \<Rightarrow>
            (result_bind (create_static_handler config root) (\<lambda>h.
               Inr (static_handle_request (env_files env) h req)), rec, db)
        | Status_handler \<Rightarrow> (status_handle_request rec rec rec req, rec, db)
        | Reverse_proxy_handler \<Rightarrow>
            (proxy_request (env_network env) (env_behind env) config root req, rec, db)
        | Meme_handler \<Rightarrow>
            (case meme_request (env_sqlite env) (env_uuid env) config root req db of
               (r, db') \<Rightarrow> (r, rec, db'))
        | Health_handler \<Rightarrow> (Inr (health_handle_request req), rec, db)
        | Default_handler \<Rightarrow> (Inr (default_handle_request req), rec, db)))"

text \<open>Every class keeps the promises of the handler interface: from the seven interpretations.\<close>

lemma run_handler_served: "returns served_ok (fst (run_handler env cls config root req s))"
proof -
  obtain rec db where s: "s = (rec, db)" by fastforce
  have "returns served_ok (fst (meme_request (env_sqlite env) (env_uuid env) config root req db))"
    by (rule meme_handler.served)
  then show ?thesis
    using echo_handler.served [of "env_behind env" req s] default_handler.served [of req s]
      health_handler.served [of req s]
      status_handler.served [where ?r1.0 = "\<lambda>_. rec" and ?r2.0 = "\<lambda>_. rec" and ?r3.0 = "\<lambda>_. rec" and req = req]
      proxy_handler.served [of "env_network env" "env_behind env" config root req s]
      static_handler.served [of "env_files env" _ req s]
    by (cases cls)
      (auto simp: s run_handler_def intro!: returns_bind split: prod.split)
qed

lemma run_handler_recorder: "fst (snd (run_handler env cls config root req s)) = fst s"
  by (auto simp: run_handler_def split: prod.split handler_class.split)

interpretation dispatcher: request_dispatcher "run_handler env"
  by unfold_locales (rule run_handler_served run_handler_recorder)+

section \<open>Routing, specified on the configuration\<close>

text \<open>
  The handler of a URI is the one that first lists the longest prefix of the URI that any handler
  lists; the configuration it gets is the last block of its name.
\<close>

definition spec_handler :: "block \<Rightarrow> string \<Rightarrow> string" where
  "spec_handler config uri =
     (case List.find (\<lambda>p. map_of (config_locations config) p \<noteq> None) (rev (prefixes uri)) of
        Some p \<Rightarrow> the (map_of (config_locations config) p)
      | None \<Rightarrow> ''default'')"

definition spec_route :: "block \<Rightarrow> string \<Rightarrow> handler_class \<times> block option" where
  "spec_route config uri =
     (case handler_class_of (spec_handler config uri) of
        (cls, name) \<Rightarrow> (cls, last_block None (handler_blocks name config)))"

lemma find_longest:
  assumes "prefix m uri" and "P m" and "\<And>p. P p \<Longrightarrow> prefix p uri \<Longrightarrow> prefix p m"
  shows "List.find P (rev (prefixes uri)) = Some m"
  using assms
proof (induction uri rule: rev_induct)
  case (snoc c u)
  show ?case
  proof (cases "P (u @ [c])")
    case True
    then have "prefix (u @ [c]) m" using snoc.prems by blast
    then have "m = u @ [c]" using snoc.prems(1) by (simp add: prefix_order.antisym)
    then show ?thesis using True by (simp add: prefixes_snoc)
  next
    case False
    then have "prefix m u" using snoc.prems by auto
    then have "List.find P (rev (prefixes u)) = Some m"
      using snoc.prems by (intro snoc.IH) auto
    then show ?thesis using False by (simp add: prefixes_snoc)
  qed
qed simp

lemma find_no_prefix:
  "(\<And>p. prefix p uri \<Longrightarrow> \<not> P p) \<Longrightarrow> List.find P (rev (prefixes uri)) = None"
  by (auto simp: find_None_iff)

lemma listed_handler:
  assumes "list_all tokens_ok config" and "registered config root rec rt rec'" and "enumerates ord"
  shows "get_route_handler rt (longest_prefix_match ord rt uri) = Inr (spec_handler config uri)"
proof -
  let ?m = "longest_prefix_match ord rt uri" and ?l = "map_of (config_locations config)"
  have find: "umap_find (route_map rt) = ?l" using registered_router(4) [OF assms(2)] .
  note m = match_spec [OF assms(3), where rt = rt and uri = uri]
  have "get_route_handler rt ?m
      = Inr (case ?l ?m of Some h \<Rightarrow> h | None \<Rightarrow> ''default'')"
    using route_lookup [OF assms(1,2)] .
  moreover have "spec_handler config uri = (case ?l ?m of Some h \<Rightarrow> h | None \<Rightarrow> ''default'')"
  proof (cases "?l ?m")
    case (Some h)
    then have "List.find (\<lambda>p. ?l p \<noteq> None) (rev (prefixes uri)) = Some ?m"
      using m find by (intro find_longest) (auto simp: domIff)
    then show ?thesis using Some by (simp add: spec_handler_def)
  next
    case None
    then have "?m = []" using m(2) find by (auto simp: domIff)
    then have "\<not> ?l p \<noteq> None" if "prefix p uri" for p
      using None m(3) [of p] find that by (cases "p = []"; cases "?l p") (auto simp: domIff)
    then have "List.find (\<lambda>p. ?l p \<noteq> None) (rev (prefixes uri)) = None"
      by (intro find_no_prefix)
    then show ?thesis using None by (simp add: spec_handler_def)
  qed
  ultimately show ?thesis by simp
qed

lemma selected:
  assumes "list_all tokens_ok config" and "registered config root rec rt rec'" and "enumerates ord"
  shows "select_handler ord rt uri = Inr (spec_route config uri)"
proof -
  have "get_handler_config rt name = Inr (last_block None (handler_blocks name config))" for name
    using get_handler_config_eq [of rt name] assms(1) registered_router(1) [OF assms(2)] by simp
  then show ?thesis
    using listed_handler [OF assms, of uri]
    by (auto simp: select_handler_def spec_route_def split: prod.split)
qed

lemma routed:
  assumes "list_all tokens_ok config" and "registered config root rec0 rt rec1"
    and "enumerates ord" and "spec_route config (req_uri req) = (cls, c)"
    and "run_handler env cls c root req (rec, db) = (Inr resp, rec, db')"
  shows "route_request ord hord (run_handler env) rt req (rec, db)
    = (Inr (fold (\<lambda>h. set_header (fst h) (snd h)) (hord []) resp),
       request_recorder (req_uri req) (status_code resp) rec, db')"
  using selected [OF assms(1-3), of "req_uri req"] assms(4,5) registered_router(2,3) [OF assms(2)]
    listed_handler [OF assms(1-3), of "req_uri req"]
  by (simp add: route_request_def apply_default_headers_def)

lemma no_defaults [simp]: "enumerates hord \<Longrightarrow> hord [] = []"
  using enumerates_set [of hord "[]"] by simp

lemma routed_static:
  assumes "list_all tokens_ok config"
    and "register_routes_from_config (new_router config root, rec0) = Inr (True, rt, rec1)"
    and "enumerates ord" and "enumerates hord"
    and "spec_handler config (req_uri req) = name"
    and "name \<in> {''static1'', ''static2'', ''webMeme'', ''imageMeme''}"
    and "last_block None (handler_blocks name config) = Some c"
    and "req_method req = ''GET''" and "names_file (req_uri req) n e"
    and "env_files env (root @ root_statement [] c @ ''/'' @ n @ ''.'' @ e) = Some contents"
  shows "route_request ord hord (run_handler env) rt req (rec, db)
    = (Inr (typed_response 200 contents (get_mime_type (''.'' @ e))),
       request_recorder (req_uri req) 200 rec, db)"
proof -
  have reg: "registered config root rec0 rt rec1" using assms(2) by (simp add: registered_def)
  have sel: "spec_route config (req_uri req) = (Static_file_handler, Some c)"
    using assms(5-7) by (auto simp: spec_route_def handler_class_of_def)
  have "run_handler env Static_file_handler (Some c) root req (rec, db)
      = (Inr (typed_response 200 contents (get_mime_type (''.'' @ e))), rec, db)"
    using assms(8,10) parse_file_info_hit [OF assms(9)]
    by (simp add: run_handler_def create_static_handler_def get_static_file_path_def
        config_statements_def static_handle_request_def serve_file_def)
  from routed [OF assms(1) reg assms(3) sel this, where hord = hord] show ?thesis
    using assms(4) by simp
qed

text \<open>A world to run the properties in: one file, no network, an empty table of memes.\<close>

definition sample_env :: "table environment" where
  "sample_env =
     \<lparr>env_files = [''/srv/x/b.txt'' \<mapsto> ''hello''], env_behind = [nul], env_uuid = zero_id,
      env_network = (\<lambda>host port text. Net_error), env_sqlite = engine\<rparr>"

definition sample_router :: router where
  "sample_router = fst (register_all (config_locations sample_config)
     (new_router sample_config ''/srv'', new_recorder))"

lemma sample_router_made:
  "register_routes_from_config (new_router sample_config ''/srv'', new_recorder) =
     Inr (True, sample_router, snd (register_all (config_locations sample_config)
                  (new_router sample_config ''/srv'', new_recorder)))"
  unfolding sample_router_def
  by (simp add: register_routes_from_config_def register_statements_eq new_router_def
      all_locations_named_def locations_named_def is_handler_def sample_config_def)

lemma sample_route:
  "spec_handler sample_config ''/a/b.txt'' = ''static1''"
  "last_block None (handler_blocks ''static1'' sample_config)
     = Some [Statement [''location'', ''/a''] None, Statement [''root'', ''/x''] None]"
  "spec_route sample_config ''/a/b.txt'' = (Static_file_handler,
      Some [Statement [''location'', ''/a''] None, Statement [''root'', ''/x''] None])"
  by code_simp+

section \<open>Properties\<close>

text \<open>
  C9. Routing refines its specification: for a parsed configuration whose routes have been
  registered, and any enumeration order of the route map, the handler class the router selects
  for a URI and the configuration it hands over are those of the specification, which looks for
  the longest prefix of the URI among the locations the configuration lists.
\<close>

theorem routing_refines_spec:
  assumes "list_all tokens_ok config"
    and "register_routes_from_config (new_router config root, rec) = Inr (True, rt, rec')"
    and "enumerates ord"
  shows "select_handler ord rt uri = Inr (spec_route config uri)"
  using selected [OF assms(1) _ assms(3)] assms(2) by (simp add: registered_def)

lemma routing_refines_spec_witness:
  "select_handler rev sample_router ''/a/b.txt'' = Inr (Static_file_handler,
     Some [Statement [''location'', ''/a''] None, Statement [''root'', ''/x''] None])"
  using routing_refines_spec [OF sample_config_ok sample_router_made enumerates_rev,
      of "''/a/b.txt''"] sample_route(3) by simp

text \<open>
  Every response that leaves the router has a status with a reason phrase and a header map
  without duplicate names, whichever handler made it, and leaves exactly one more line on the
  status page: the URI with the status of the response.
\<close>

theorem routed_response:
  assumes "route_request ord hord (run_handler env) rt req (rec, db) = (Inr resp, rec', db')"
  shows "umap_find response_codes (status_code resp) \<noteq> None
    \<and> umap_wf (response_headers resp)
    \<and> url_response_list rec' = url_response_list rec @ [(req_uri req, status_code resp)]
    \<and> prefix_handler_list rec' = prefix_handler_list rec"
proof -
  have "served_ok resp"
    using dispatcher.route_request_served [of ord hord env rt req "(rec, db)"] assms by simp
  moreover have "rec' = request_recorder (req_uri req) (status_code resp) rec"
    by (rule dispatcher.route_request_records [OF assms])
  ultimately show ?thesis by (simp add: served_ok_def request_recorder_def)
qed

lemma routed_response_witness:
  "url_response_list (request_recorder ''/none'' 404 new_recorder) = [(''/none'', 404)]"
proof -
  have "route_request rev rev (run_handler sample_env) (new_router [] []) (meme_req ''GET'' ''/none'' [])
      (new_recorder, [])
    = (Inr (generate_404_response (meme_req ''GET'' ''/none'' [])),
       request_recorder ''/none'' 404 new_recorder, [])"
    by (simp add: route_request_def select_handler_def longest_prefix_match_def new_router_def
        get_route_handler_def get_handler_config_def umap_find_def handler_class_of_def
        run_handler_def default_handle_request_def apply_default_headers_def
        generate_404_response_def)
  from routed_response [OF this] show ?thesis
    by (simp add: generate_404_response_def new_recorder_def)
qed

text \<open>
  Unknown locations: when no location of the configuration is a prefix of the URI, the
  response is the 404 page that names the URI, and the database is untouched.
\<close>

theorem unknown_location_404:
  assumes "list_all tokens_ok config"
    and "register_routes_from_config (new_router config root, rec0) = Inr (True, rt, rec1)"
    and "enumerates ord" and "enumerates hord"
    and "\<forall>(l, h) \<in> set (config_locations config). \<not> prefix l (req_uri req)"
  shows "route_request ord hord (run_handler env) rt req (rec, db)
    = (Inr (generate_404_response req), request_recorder (req_uri req) 404 rec, db)"
proof -
  have reg: "registered config root rec0 rt rec1" using assms(2) by (simp add: registered_def)
  have "map_of (config_locations config) p = None" if "prefix p (req_uri req)" for p
    using that assms(5) by (force simp: map_of_eq_None_iff)
  then have "spec_handler config (req_uri req) = ''default''"
    by (simp add: spec_handler_def find_no_prefix)
  then obtain c where "spec_route config (req_uri req) = (Default_handler, c)"
    by (simp add: spec_route_def handler_class_of_def)
  moreover have "status_code (generate_404_response req) = 404"
    by (simp add: generate_404_response_def)
  ultimately show ?thesis
    using routed [OF assms(1) reg assms(3), of req Default_handler c env rec db _ db hord] assms(4)
    by (simp add: run_handler_def default_handle_request_def)
qed

lemma unknown_location_404_witness:
  "route_request rev rev (run_handler sample_env) sample_router (meme_req ''GET'' ''/none'' [])
      (new_recorder, [])
    = (Inr (generate_404_response (meme_req ''GET'' ''/none'' [])),
       request_recorder ''/none'' 404 new_recorder, [])"
  using unknown_location_404 [OF sample_config_ok sample_router_made enumerates_rev enumerates_rev,
      of "meme_req ''GET'' ''/none'' []" sample_env new_recorder "[]"]
  by (simp add: config_locations_def block_locations_def is_handler_def sample_config_def)

text \<open>
  A file is served through the whole server: when the longest listed prefix of the URI of a
  GET request is a location of one of the four static handlers, the URI ends in a slash, a name, a
  dot and an extension, and that file is in the directory that the server root and the last block of
  the handler give, then the response has status 200, the contents of the file and the type of
  its extension.
\<close>

theorem static_end_to_end:
  assumes "list_all tokens_ok config"
    and "register_routes_from_config (new_router config root, rec0) = Inr (True, rt, rec1)"
    and "enumerates ord" and "enumerates hord"
    and "spec_handler config (req_uri req) = name"
    and "name \<in> {''static1'', ''static2'', ''webMeme'', ''imageMeme''}"
    and "last_block None (handler_blocks name config) = Some c"
    and "req_method req = ''GET''" and "names_file (req_uri req) n e"
    and "env_files env (root @ root_statement [] c @ ''/'' @ n @ ''.'' @ e) = Some contents"
  shows "route_request ord hord (run_handler env) rt req (rec, db)
    = (Inr (typed_response 200 contents (get_mime_type (''.'' @ e))),
       request_recorder (req_uri req) 200 rec, db)"
  using assms by (rule routed_static)

lemma static_end_to_end_witness:
  "fst (route_request rev rev (run_handler sample_env) sample_router
      (meme_req ''GET'' ''/a/b.txt'' []) (new_recorder, []))
    = Inr (typed_response 200 ''hello'' (get_mime_type ''.txt''))"
proof -
  have "names_file ''/a/b.txt'' ''b'' ''txt''"
    unfolding names_file_def
    by (auto simp: word_text_def is_word_def is_lower_def less_eq_char_def intro: exI [of _ "''/a''"])
  then show ?thesis
    using static_end_to_end [OF sample_config_ok sample_router_made enumerates_rev enumerates_rev,
        of "meme_req ''GET'' ''/a/b.txt'' []" "''static1''"
          "[Statement [''location'', ''/a''] None, Statement [''root'', ''/x''] None]"
          "''b''" "''txt''" sample_env "''hello''" new_recorder "[]"] sample_route(1,2)
    by (simp add: sample_env_def)
qed

text \<open>
  A URI that only continues the last segment of a proxy location has no defined outcome:
  when the longest listed prefix of the URI belongs to the proxy, but the URI's first segment is
  not one of the locations the proxy has a root for, as with \<open>/uclax\<close> for the location \<open>/ucla\<close>,
  the handler dereferences the end of its map.
\<close>

theorem proxy_segment_undefined:
  assumes "list_all tokens_ok config"
    and "register_routes_from_config (new_router config root, rec0) = Inr (True, rt, rec1)"
    and "enumerates ord"
    and "spec_handler config (req_uri req) = ''proxy''"
    and "last_block None (handler_blocks ''proxy'' config) = Some c"
    and "create_proxy_handler (Some c) root = Inr h"
    and "2 \<le> length (req_uri req)" and "map_of (proxy_pairs c []) (first_segment (req_uri req)) = None"
  shows "fst (route_request ord hord (run_handler env) rt req (rec, db)) = Inl Undefined_behaviour"
proof -
  have reg: "registered config root rec0 rt rec1" using assms(2) by (simp add: registered_def)
  have "spec_route config (req_uri req) = (Reverse_proxy_handler, Some c)"
    using assms(4,5) by (simp add: spec_route_def handler_class_of_def)
  then have "select_handler ord rt (req_uri req) = Inr (Reverse_proxy_handler, Some c)"
    using selected [OF assms(1) reg assms(3), of "req_uri req"] by simp
  moreover have "proxy_request net behind (Some c) root req = Inl Undefined_behaviour" for net behind
    using assms(8) host_and_path_lookup [OF assms(7), of h] created_proxy(1) [OF assms(6)]
    by (simp add: proxy_request_def assms(6) proxy_handle_request_def constructGetRequest_def)
  ultimately show ?thesis
    using registered_router(2) [OF reg] by (simp add: route_request_def run_handler_def)
qed

definition ucla_server_config :: block where
  "ucla_server_config = [Statement [''handler'', ''proxy''] (Some ucla_config)]"

lemma ucla_server:
  "list_all tokens_ok ucla_server_config"
  "register_routes_from_config (new_router ucla_server_config [], new_recorder) =
     Inr (True, fst (register_all (config_locations ucla_server_config)
                  (new_router ucla_server_config [], new_recorder)),
          snd (register_all (config_locations ucla_server_config)
                  (new_router ucla_server_config [], new_recorder)))"
  "spec_handler ucla_server_config ''/uclax'' = ''proxy''"
  "last_block None (handler_blocks ''proxy'' ucla_server_config) = Some ucla_config"
  "map_of (proxy_pairs ucla_config []) (first_segment ''/uclax'') = None"
  by code_simp+

lemma proxy_segment_undefined_witness:
  "fst (route_request rev rev (run_handler sample_env)
      (fst (register_all (config_locations ucla_server_config)
         (new_router ucla_server_config [], new_recorder)))
      (meme_req ''GET'' ''/uclax'' []) (new_recorder, [])) = Inl Undefined_behaviour"
  using proxy_segment_undefined [OF ucla_server(1) ucla_server(2) enumerates_rev _ ucla_server(4) ucla_created,
      of "meme_req ''GET'' ''/uclax'' []"] ucla_server(3,5) by simp

end
