(* ===== verification/Session.thy ===== *)
theory Session
  imports Handlers
begin

text \<open>
  \<open>src/session.cc\<close>: one connection. A session reads once, at most \<open>max_length\<close> bytes, answers
  with one write, and closes the connection when the write has completed. The asynchronous calls
  are the boundary of the model: an operation of the session returns the effect it asks
  \<open>boost::asio\<close> for, and the step relation at the end lets the calls complete, with or without an
  error, and runs the callback the code binds to each.

  What the model leaves out: the constructor and \<open>socket\<close>, which only keep the socket. The bytes
  written are those of the buffer at the call, as they are when the socket takes them at once;
  that \<open>write\<close> hands the asynchronous write a buffer that is a local variable, gone when \<open>write\<close>
  returns, is the subject of theory Write_Buffer.
\<close>

section \<open>State\<close>

text \<open>The buffer \<open>data_\<close> is an array of \<open>max_length\<close> characters, not initialised.\<close>

record session =
  session_data :: string
  ip_addr :: string

definition max_length :: nat where
  "max_length = 1024"

datatype effect = Async_read_some nat | Async_write string

text \<open>What asio does to the buffer before it calls back.\<close>

definition received :: "string \<Rightarrow> session \<Rightarrow> session" where
  "received bytes s = s\<lparr>session_data := bytes @ drop (length bytes) (session_data s)\<rparr>"

section \<open>Operations\<close>

definition set_data :: "string \<Rightarrow> session \<Rightarrow> (bool \<times> session) result" where
  "set_data d s =
     (if length (session_data s) < length d then Inl Undefined_behaviour
      else Inr (True, s\<lparr>session_data := d @ drop (length d) (session_data s)\<rparr>))"

definition session_read :: "session \<Rightarrow> effect" where
  "session_read s = Async_read_some max_length"

text \<open>The address of the peer, or \<open>None\<close> when \<open>remote_endpoint\<close> throws.\<close>

definition session_start :: "string option \<Rightarrow> session \<Rightarrow> session \<times> effect" where
  "session_start peer s =
     (let s' = s\<lparr>ip_addr := (case peer of Some a \<Rightarrow> a | None \<Rightarrow> ''not given'')\<rparr>
      in (s', session_read s'))"

definition session_write :: "header_order \<Rightarrow> response \<Rightarrow> effect" where
  "session_write hord resp = Async_write (fst (generate_response hord resp))"

definition handle_error :: "header_order \<Rightarrow> effect" where
  "handle_error hord =
     session_write hord (typed_response 500
       ''Oops! Looks like something went wrong on our side. Please try again later.'' ''text/plain'')"

definition handle_invalid_request :: "header_order \<Rightarrow> string \<Rightarrow> request \<Rightarrow> effect result" where
  "handle_invalid_request hord behind req =
     result_bind (raw_c_string req behind) (\<lambda>body.
       Inr (session_write hord (typed_response 400 body ''text/plain'')))"

text \<open>
  The router, as the session uses it: a function from a request and what it may change to a
  response. \<open>handle_valid_request\<close> lets its exceptions through.
\<close>

type_synonym 's routing = "request \<Rightarrow> 's \<Rightarrow> response result \<times> 's"

definition handle_valid_request ::
  "header_order \<Rightarrow> 's routing \<Rightarrow> request \<Rightarrow> 's \<Rightarrow> effect result \<times> 's" where
  "handle_valid_request hord route req w =
     (case route req w of
        (Inl e, w') \<Rightarrow> (Inl e, w')
      | (Inr resp, w') \<Rightarrow> (Inr (session_write hord resp), w'))"

text \<open>\<open>LOG_INFO << std::string(d)\<close> reads the buffer up to a zero byte, and on behind it.\<close>

definition log_data :: "string \<Rightarrow> session \<Rightarrow> unit result" where
  "log_data past s =
     (if nul \<in> set (session_data s @ past) then Inr () else Inl Undefined_behaviour)"

text \<open>
  \<open>past\<close> is the memory behind the session's buffer, \<open>behind\<close> that behind the request's copy.
  The flag is the value \<open>handle_success\<close> returns.
\<close>

definition handle_success ::
  "header_order \<Rightarrow> 's routing \<Rightarrow> string \<Rightarrow> string \<Rightarrow> session \<Rightarrow> nat \<Rightarrow> 's \<Rightarrow>
     (bool \<times> effect) result \<times> 's" where
  "handle_success hord route past behind s bytes_transferred w =
     (case log_data past s of
        Inl e \<Rightarrow> (Inl e, w)
      | Inr _ \<Rightarrow>
          (let req = new_request (take bytes_transferred (session_data s))
           in if req_valid req then
                (case handle_valid_request hord route req w of
                   (Inr eff, w') \<Rightarrow> (Inr (True, eff), w')
                 | (Inl (Throw e), w') \<Rightarrow> (Inr (False, handle_error hord), w')
                 | (Inl e, w') \<Rightarrow> (Inl e, w'))
              else
                (result_bind (handle_invalid_request hord behind req) (\<lambda>eff. Inr (False, eff)), w)))"

definition handle_read ::
  "header_order \<Rightarrow> 's routing \<Rightarrow> string \<Rightarrow> string \<Rightarrow> session \<Rightarrow> bool \<Rightarrow> nat \<Rightarrow> 's \<Rightarrow>
     effect result \<times> 's" where
  "handle_read hord route past behind s error bytes_transferred w =
     (if \<not> error then
        (case handle_success hord route past behind s bytes_transferred w of
           (r, w') \<Rightarrow> (result_bind r (\<lambda>(ok, eff). Inr eff), w'))
      else (Inr (handle_error hord), w))"

text \<open>
  \<open>shutdown\<close> throws when the socket is no longer connected, before the socket is closed and the
  session deleted. Then the function, which is declared to return a \<open>bool\<close>, ends without a
  \<open>return\<close>, which is undefined. \<open>comes_back\<close> says whether the compiled function comes back to its caller
  all the same, which makes no use of the value: the model has both.
\<close>

datatype session_end = Closed | Deleted

definition session_close :: "bool \<Rightarrow> bool \<Rightarrow> session_end result" where
  "session_close comes_back connected =
     (if \<not> connected then Inl (Throw System_error)
      else if comes_back then Inr Closed
      else Inl Undefined_behaviour)"

definition handle_write :: "bool \<Rightarrow> bool \<Rightarrow> bool \<Rightarrow> session_end result" where
  "handle_write comes_back error connected =
     (if \<not> error then session_close comes_back connected else Inr Deleted)"

section \<open>The life of a session\<close>

datatype phase =
    Reading session
  | Writing string
  | Ended session_end
  | Escaped fault

inductive session_step ::
  "header_order \<Rightarrow> 's routing \<Rightarrow> phase \<times> 's \<Rightarrow> phase \<times> 's \<Rightarrow> bool"
  for hord route where
  read_answered:
    "length bytes \<le> max_length \<Longrightarrow>
     handle_read hord route past behind (received bytes s) error (length bytes) w
       = (Inr (Async_write out), w') \<Longrightarrow>
     session_step hord route (Reading s, w) (Writing out, w')"
| read_escaped:
    "length bytes \<le> max_length \<Longrightarrow>
     handle_read hord route past behind (received bytes s) error (length bytes) w
       = (Inl e, w') \<Longrightarrow>
     session_step hord route (Reading s, w) (Escaped e, w')"
| write_done:
    "handle_write comes_back error connected = Inr en \<Longrightarrow>
     session_step hord route (Writing out, w) (Ended en, w)"
| write_escaped:
    "handle_write comes_back error connected = Inl e \<Longrightarrow>
     session_step hord route (Writing out, w) (Escaped e, w)"

inductive_cases reading_stepE: "session_step hord route (Reading s, w) st"
inductive_cases writing_stepE: "session_step hord route (Writing out, w) st"
inductive_cases ended_stepE: "session_step hord route (Ended en, w) st"
inductive_cases escaped_stepE: "session_step hord route (Escaped e, w) st"

section \<open>What a session gives its peer\<close>

text \<open>Only a fault no \<open>catch\<close> can stop escapes from a read.\<close>

definition uncatchable :: "fault \<Rightarrow> bool" where
  "uncatchable e \<longleftrightarrow> (\<forall>x. e \<noteq> Throw x)"

lemma raw_c_string_fault: "raw_c_string req behind = Inl e \<Longrightarrow> e = Undefined_behaviour"
  by (simp add: raw_c_string_def split: if_splits)

lemma log_data_fault: "log_data past s = Inl e \<Longrightarrow> e = Undefined_behaviour"
  by (simp add: log_data_def split: if_splits)

lemma invalid_request_writes:
  "case handle_invalid_request hord behind req of
     Inl e \<Rightarrow> e = Undefined_behaviour
   | Inr eff \<Rightarrow> \<exists>resp. eff = session_write hord resp \<and> served_ok resp"
proof (cases "raw_c_string req behind")
  case (Inl e)
  then show ?thesis using raw_c_string_fault by (simp add: handle_invalid_request_def)
next
  case (Inr body)
  have "served_ok (typed_response 400 body ''text/plain'')" by simp
  then show ?thesis unfolding handle_invalid_request_def Inr by auto
qed

lemma error_writes: "\<exists>resp. handle_error hord = session_write hord resp \<and> served_ok resp"
proof -
  have "served_ok (typed_response 500
       ''Oops! Looks like something went wrong on our side. Please try again later.'' ''text/plain'')"
    by simp
  then show ?thesis unfolding handle_error_def by blast
qed

context route_handler
begin

lemma valid_request_writes:
  "case handle_valid_request hord handle_request req w of
     (Inl e, w') \<Rightarrow> fst (handle_request req w) = Inl e
   | (Inr eff, w') \<Rightarrow> \<exists>resp. eff = session_write hord resp \<and> served_ok resp"
proof (cases "handle_request req w")
  case (Pair r w')
  then show ?thesis
    using served [of req w] by (cases r) (auto simp: handle_valid_request_def)
qed

lemma success_writes:
  "case handle_success hord handle_request past behind s n w of
     (Inl e, w') \<Rightarrow> uncatchable e
   | (Inr (ok, eff), w') \<Rightarrow> \<exists>resp. eff = session_write hord resp \<and> served_ok resp"
proof (cases "log_data past s")
  case (Inl e)
  then show ?thesis
    using log_data_fault by (auto simp: handle_success_def uncatchable_def)
next
  case (Inr u)
  let ?req = "new_request (take n (session_data s))"
  show ?thesis
  proof (cases "req_valid ?req")
    case True
    obtain r w' where v: "handle_valid_request hord handle_request ?req w = (r, w')" by fastforce
    show ?thesis
      using v Inr True valid_request_writes [where hord = hord and req = ?req and w = w] error_writes [of hord]
      by (auto simp: handle_success_def uncatchable_def split: sum.splits fault.splits)
  next
    case False
    then show ?thesis
      using Inr invalid_request_writes [where hord = hord and behind = behind and req = ?req]
      by (auto simp: handle_success_def uncatchable_def split: sum.splits)
  qed
qed

lemma read_writes:
  "case handle_read hord handle_request past behind s error n w of
     (Inl e, w') \<Rightarrow> uncatchable e
   | (Inr eff, w') \<Rightarrow> \<exists>resp. eff = session_write hord resp \<and> served_ok resp"
  using success_writes [where hord = hord and past = past and behind = behind and s = s and n = n and w = w] error_writes [of hord]
  by (auto simp: handle_read_def split: sum.splits prod.splits)

end

interpretation routing: route_handler "route_request ord hord (run_handler env) rt"
  by unfold_locales (rule dispatcher.route_request_served)

end
