(* ===== verification/Server.thy ===== *)
theory Server
  imports Session Config_Statements
begin

text \<open>
  \<open>src/server.cc\<close> and \<open>src/server_main.cc\<close>: the server is made from the configuration, gets its
  router, accepts connections and runs its threads; \<open>main\<close> puts these together. The world is
  given by parameters: the files, whether a port can be listened on, whether the i-th thread can
  be created. A constructor or call that throws gives \<open>Inl (Throw _)\<close>, which \<open>main\<close> catches.

  The step relation at the end runs the accept loop and all sessions, each callback as one step;
  the signal handler, which ends the process, is not part of it.
\<close>

section \<open>State\<close>

text \<open>Of the acceptor, the number of accepts that have been asked for and have not completed.\<close>

record server =
  sv_config :: nginx_config
  is_running :: bool
  sv_router :: "router option"
  thread_count :: "32 word"
  acceptor_port :: nat
  accepts_pending :: nat

text \<open>
  The port goes through a parameter of type \<open>short\<close> and then the \<open>unsigned short\<close> of
  \<open>tcp::endpoint\<close>.
\<close>

definition endpoint_port :: "int \<Rightarrow> nat" where
  "endpoint_port port = nat (to_short port mod 65536)"

section \<open>Operations of the server\<close>

definition new_server :: "(nat \<Rightarrow> bool) \<Rightarrow> nginx_config \<Rightarrow> int \<Rightarrow> 32 word \<Rightarrow> server result" where
  "new_server listen config port pool =
     (if listen (endpoint_port port)
      then Inr \<lparr>sv_config = config, is_running = False, sv_router = None, thread_count = pool,
                acceptor_port = endpoint_port port, accepts_pending = 0\<rparr>
      else Inl (Throw System_error))"

text \<open>
  The loop that creates the threads; joining them has no result. When a thread after the first
  cannot be created, those there are run on the \<open>io_service\<close> that the exception destroys on its
  way out of \<open>main\<close>, which is undefined.
\<close>

function spawn_threads :: "(nat \<Rightarrow> bool) \<Rightarrow> nat \<Rightarrow> nat \<Rightarrow> nat result" where
  "spawn_threads spawn n i =
     (if n \<le> i then Inr i
      else if spawn i then spawn_threads spawn n (Suc i)
      else if i = 0 then Inl (Throw System_error)
      else Inl Undefined_behaviour)"
  by pat_completeness auto
termination
  by (relation "measure (\<lambda>(spawn, n, i). n - i)") auto

declare spawn_threads.simps [simp del]

definition server_run :: "(nat \<Rightarrow> bool) \<Rightarrow> server \<Rightarrow> nat result" where
  "server_run spawn sv = spawn_threads spawn (unat (thread_count sv)) 0"

text \<open>A new session, and an accept on its socket, if there is a router.\<close>

definition start_accept :: "server \<Rightarrow> bool \<times> server" where
  "start_accept sv =
     (case sv_router sv of
        Some _ \<Rightarrow> (True, sv\<lparr>is_running := True, accepts_pending := Suc (accepts_pending sv)\<rparr>)
      | None \<Rightarrow> (False, sv\<lparr>is_running := False\<rparr>))"

definition get_status :: "server \<Rightarrow> bool" where
  "get_status sv = is_running sv"

text \<open>
  The callback of an accept: the session it was for is started, or deleted if there is an error;
  then the next accept, with a new session, is asked for.
\<close>

definition handle_accept ::
  "string option \<Rightarrow> session \<Rightarrow> bool \<Rightarrow> server \<Rightarrow> (session \<times> effect) option \<times> bool \<times> server"
  where
  "handle_accept peer new_session error sv =
     (if \<not> error then Some (session_start peer new_session) else None, start_accept sv)"

fun router_block :: "block \<Rightarrow> block option \<Rightarrow> block option result" where
  "router_block [] output = Inr output"
| "router_block (s # b) output =
     (case child_block s of
        Some c \<Rightarrow>
          result_bind (nth_res (tokens s) 0) (\<lambda>t0.
            router_block b (if t0 = ''router'' then Some c else output))
      | None \<Rightarrow> router_block b output)"

definition create_router ::
  "string \<Rightarrow> server \<times> recorder \<Rightarrow> (bool \<times> server \<times> recorder) result" where
  "create_router root st =
     (case st of (sv, rec) \<Rightarrow>
        result_bind (router_block (statements (sv_config sv)) None) (\<lambda>output.
          case output of
            None \<Rightarrow> Inr (False, sv, rec)
          | Some b \<Rightarrow>
              result_bind (register_routes_from_config (new_router b root, rec)) (\<lambda>(ok, rt, rec').
                Inr (True, sv\<lparr>sv_router := Some rt\<rparr>, rec'))))"

definition server_register_route ::
  "string \<Rightarrow> string \<Rightarrow> server \<times> recorder \<Rightarrow> (bool \<times> server \<times> recorder) result" where
  "server_register_route uri handler st =
     (case st of (sv, rec) \<Rightarrow>
        (case sv_router sv of
           None \<Rightarrow> Inl Undefined_behaviour
         | Some rt \<Rightarrow>
             (case register_route uri handler (rt, rec) of
                (ok, rt', rec') \<Rightarrow> Inr (ok, sv\<lparr>sv_router := Some rt'\<rparr>, rec'))))"

definition server_register_default_header ::
  "string \<Rightarrow> string \<Rightarrow> server \<Rightarrow> (bool \<times> server) result" where
  "server_register_default_header header_name header_value sv =
     (case sv_router sv of
        None \<Rightarrow> Inl Undefined_behaviour
      | Some rt \<Rightarrow>
          (case register_default_header header_name header_value rt of
             (ok, rt') \<Rightarrow> Inr (ok, sv\<lparr>sv_router := Some rt'\<rparr>)))"

section \<open>The main program\<close>

text \<open>\<open>Running\<close>: all threads have been created and \<open>main\<close> waits for them.\<close>

datatype outcome = Exit_code int | Running server recorder nat

definition main_catch :: "outcome result \<Rightarrow> outcome result" where
  "main_catch r = (case r of Inl (Throw e) \<Rightarrow> Inr (Exit_code 0) | _ \<Rightarrow> r)"

definition serve :: "(nat \<Rightarrow> bool) \<Rightarrow> string \<Rightarrow> server \<times> recorder \<Rightarrow> outcome result" where
  "serve spawn root st =
     result_bind (create_router root st) (\<lambda>(r, sv, rec).
       if r then
         (case start_accept sv of
            (start, sv') \<Rightarrow>
              if \<not> start then
                Inl (Throw (Runtime_error ''Could not start the server! Please ensure that the router was properly initialized.''))
              else result_bind (server_run spawn sv') (\<lambda>n. Inr (Running sv' rec n)))
       else
         Inl (Throw (Runtime_error ''Could not create router! Please ensure that the config file has a router config in it.'')))"

definition server_main ::
  "(string \<Rightarrow> string option) \<Rightarrow> (nat \<Rightarrow> bool) \<Rightarrow> (nat \<Rightarrow> bool) \<Rightarrow> string list \<Rightarrow> recorder \<Rightarrow>
     outcome result" where
  "server_main fs listen spawn argv rec =
     main_catch
       (if length argv \<noteq> 2 then Inr (Exit_code 1)
        else
          result_bind (Parse_file fs (argv ! 1) []) (\<lambda>(parsed, b).
            case ParseStatements (new_config b) of
              (ok, config) \<Rightarrow>
                if \<not> ok then Inr (Exit_code 1)
                else
                  result_bind (GetPort config) (\<lambda>port.
                  result_bind (GetThreadCount config) (\<lambda>threadCount.
                  result_bind (new_server listen config port threadCount) (\<lambda>serv.
                    serve spawn (GetServerRoot config) (serv, rec))))))"

section \<open>Lemmas\<close>

lemma endpoint_port_ok:
  assumes "1 \<le> p" and "p \<le> 65535"
  shows "endpoint_port p = nat p"
proof -
  have "to_short p mod 65536 = p mod 65536"
    by (simp add: to_short_def mod_diff_left_eq)
  then show ?thesis using assms by (simp add: endpoint_port_def)
qed

lemma spawn_threads_iff:
  "i \<le> n \<Longrightarrow> spawn_threads spawn n i =
     (if \<forall>j. i \<le> j \<and> j < n \<longrightarrow> spawn j then Inr n
      else if i = 0 \<and> \<not> spawn 0 then Inl (Throw System_error) else Inl Undefined_behaviour)"
proof (induction spawn n i rule: spawn_threads.induct)
  case (1 spawn n i)
  show ?case
  proof (cases "i < n \<and> spawn i")
    case True
    then have "(\<forall>j. i \<le> j \<and> j < n \<longrightarrow> spawn j) \<longleftrightarrow> (\<forall>j. Suc i \<le> j \<and> j < n \<longrightarrow> spawn j)"
      by (metis Suc_leD le_antisym not_less_eq_eq)
    then show ?thesis
      using True "1.IH" by (subst spawn_threads.simps, cases "i = 0") (simp_all split: if_split)
  next
    case False
    then show ?thesis using "1.prems" by (subst spawn_threads.simps) (auto simp: not_less)
  qed
qed

text \<open>The router's block is the last one of that name.\<close>

definition router_blocks :: "block \<Rightarrow> block list" where
  "router_blocks b =
     map (\<lambda>s. the (child_block s))
       (filter (\<lambda>s. child_block s \<noteq> None \<and> tokens s ! 0 = ''router'') b)"

lemma router_block_eq:
  assumes "list_all tokens_ok b"
  shows "router_block b found = Inr (last_block found (router_blocks b))"
  using assms
proof (induction b arbitrary: found)
  case (Cons s b)
  have "0 < length (tokens s)" using Cons.prems tokens_ok_nonempty by simp
  then show ?case
    using Cons by (auto simp: router_blocks_def last_block_def split: option.split)
qed (simp add: router_blocks_def last_block_def)

lemma router_block_tokens:
  assumes "list_all tokens_ok b" and "last_block None (router_blocks b) = Some c"
  shows "list_all tokens_ok c"
proof -
  have "c \<in> set (router_blocks b)" using last_block_Some assms(2) by blast
  then obtain s where "s \<in> set b" "child_block s = Some c" by (auto simp: router_blocks_def)
  then show ?thesis using assms(1) tokens_ok_child by (auto simp: list_all_iff)
qed

end
