(* ===== verification/Session_Claims.thy ===== *)
theory Session_Claims
  imports Session
begin

text \<open>
  The properties of a session, over the router and the handlers of theory Handlers: what comes
  back for bytes that arrive, which faults can leave a callback, and how a session ends.
\<close>

section \<open>Requests as bytes\<close>

lemma received_take [simp]: "take (length bytes) (session_data (received bytes s)) = bytes"
  by (simp add: received_def)

lemma log_data_ok: "nul \<in> set past \<Longrightarrow> log_data past s = Inr ()"
  by (simp add: log_data_def)

lemma request_text_fields:
  assumes "word_text m" and "line_text u" and "CHR ''?'' \<notin> set u" and "is_digit a" and "is_digit b"
  shows "req_valid (new_request (request_text m u a b hs body))"
    "req_method (new_request (request_text m u a b hs body)) = m"
    "req_uri (new_request (request_text m u a b hs body)) = u"
proof -
  have "CHR ''?'' \<notin> set (tl u)" using assms(3) by (cases u) auto
  then show "req_uri (new_request (request_text m u a b hs body)) = u"
    unfolding request_text_def by (rule new_request_uri [OF assms(1,2,4,5)])
qed (simp_all add: new_request_text [OF assms(1,2,4,5)])

lemma GET_word: "word_text ''GET''"
  by (simp add: word_text_def is_word_def is_upper_def less_eq_char_def)

lemma one_digit: "is_digit (CHR ''1'')"
  by (simp add: is_digit_def less_eq_char_def)

lemma small_uris:
  "line_text ''/a/b.txt'' \<and> CHR ''?'' \<notin> set ''/a/b.txt''"
  "line_text ''/ucla/a'' \<and> CHR ''?'' \<notin> set ''/ucla/a''"
  by (simp_all add: line_text_def)

lemma file_named: "names_file ''/a/b.txt'' ''b'' ''txt''"
  unfolding names_file_def
  by (auto simp: word_text_def is_word_def is_lower_def less_eq_char_def intro: exI [of _ "''/a''"])

section \<open>Reads\<close>

lemma read_valid:
  assumes "nul \<in> set past" and "req_valid (new_request bytes)"
    and "route (new_request bytes) w = (r, w')"
  shows "handle_read hord route past behind (received bytes s) False (length bytes) w =
    (case r of
       Inr resp \<Rightarrow> (Inr (session_write hord resp), w')
     | Inl (Throw e) \<Rightarrow> (Inr (handle_error hord), w')
     | Inl e \<Rightarrow> (Inl e, w'))"
  using assms
  by (auto simp: handle_read_def handle_success_def log_data_ok handle_valid_request_def
      split: sum.split fault.split)

lemma wire_static:
  assumes "list_all tokens_ok config"
    and "register_routes_from_config (new_router config root, rec0) = Inr (True, rt, rec1)"
    and "enumerates ord" and "enumerates hord"
    and "spec_handler config u = name"
    and "name \<in> {''static1'', ''static2'', ''webMeme'', ''imageMeme''}"
    and "last_block None (handler_blocks name config) = Some c"
    and "names_file u n e" and "line_text u" and "CHR ''?'' \<notin> set u"
    and "env_files env (root @ root_statement [] c @ ''/'' @ n @ ''.'' @ e) = Some contents"
    and "bytes = request_text ''GET'' u (CHR ''1'') (CHR ''1'') hs body"
    and "length bytes \<le> max_length" and "nul \<in> set past"
  shows "handle_read hord (route_request ord hord (run_handler env) rt) past behind
      (received bytes s) False (length bytes) (rec, db)
    = (Inr (Async_write (fst (generate_response hord
          (typed_response 200 contents (get_mime_type (''.'' @ e)))))),
       request_recorder u 200 rec, db)"
proof -
  let ?req = "new_request bytes"
  note f = request_text_fields [OF GET_word assms(9,10) one_digit one_digit, of hs body,
      folded assms(12)]
  have "route_request ord hord (run_handler env) rt ?req (rec, db)
      = (Inr (typed_response 200 contents (get_mime_type (''.'' @ e))),
         request_recorder u 200 rec, db)"
    using routed_static [OF assms(1,2,3,4), of ?req name c n e env contents rec db]
      assms(5-8,11) f(2,3) by simp
  from read_valid [where route = "route_request ord hord (run_handler env) rt", OF assms(14) f(1) this]
  show ?thesis by (simp add: session_write_def)
qed

section \<open>Properties\<close>

text \<open>
  From bytes to bytes: a GET request of at most 1024 bytes for a URI without query string whose
  longest listed prefix is a location of a static handler, naming a file that is in the
  configured directory, is answered with the serialisation of a response with status 200, the
  contents of the file and the type of its extension; the status page has one more line, the
  database is untouched.
\<close>

theorem file_over_the_wire:
  assumes "list_all tokens_ok config"
    and "register_routes_from_config (new_router config root, rec0) = Inr (True, rt, rec1)"
    and "enumerates ord" and "enumerates hord"
    and "spec_handler config u = name"
    and "name \<in> {''static1'', ''static2'', ''webMeme'', ''imageMeme''}"
    and "last_block None (handler_blocks name config) = Some c"
    and "names_file u n e" and "line_text u" and "CHR ''?'' \<notin> set u"
    and "env_files env (root @ root_statement [] c @ ''/'' @ n @ ''.'' @ e) = Some contents"
    and "bytes = request_text ''GET'' u (CHR ''1'') (CHR ''1'') hs body"
    and "length bytes \<le> max_length" and "nul \<in> set past"
  shows "handle_read hord (route_request ord hord (run_handler env) rt) past behind
      (received bytes s) False (length bytes) (rec, db)
    = (Inr (Async_write (fst (generate_response hord
          (typed_response 200 contents (get_mime_type (''.'' @ e)))))),
       request_recorder u 200 rec, db)"
  using assms by (rule wire_static)

lemma file_over_the_wire_witness:
  "fst (handle_read rev (route_request rev rev (run_handler sample_env) sample_router) [nul] []
      (received (request_text ''GET'' ''/a/b.txt'' (CHR ''1'') (CHR ''1'') [(''Host'', ''h'')] [])
         \<lparr>session_data = [], ip_addr = []\<rparr>) False
      (length (request_text ''GET'' ''/a/b.txt'' (CHR ''1'') (CHR ''1'') [(''Host'', ''h'')] []))
      (new_recorder, []))
    = Inr (Async_write (fst (generate_response rev
          (typed_response 200 ''hello'' (get_mime_type ''.txt'')))))"
proof -
  have "length (request_text ''GET'' ''/a/b.txt'' (CHR ''1'') (CHR ''1'') [(''Host'', ''h'')] [])
      \<le> max_length"
    by (simp add: request_text_def request_line_def header_line_def max_length_def)
  then show ?thesis
    using file_over_the_wire [OF sample_config_ok sample_router_made enumerates_rev enumerates_rev
        sample_route(1) _ sample_route(2) file_named, of sample_env "''hello''" _ "[(''Host'', ''h'')]" "[]"]
      small_uris(1)
    by (simp add: sample_env_def)
qed

text \<open>
  C29. What a session writes is always a response: whatever arrives, and whether or not the read
  fails, if the callback asks for a write then of the serialisation of a response whose status
  has a reason phrase and whose header names are distinct.
\<close>

theorem session_writes_response:
  assumes "handle_read hord (route_request ord hord (run_handler env) rt) past behind s error n
      (rec, db) = (Inr eff, w')"
  shows "\<exists>resp. eff = Async_write (fst (generate_response hord resp))
    \<and> umap_find response_codes (status_code resp) \<noteq> None \<and> umap_wf (response_headers resp)"
  using routing.read_writes [of hord ord hord env rt past behind s error n "(rec, db)"] assms
  by (auto simp: session_write_def served_ok_def)

lemma session_writes_response_witness:
  "\<exists>resp. handle_error rev = Async_write (fst (generate_response rev resp))
    \<and> umap_find response_codes (status_code resp) \<noteq> None \<and> umap_wf (response_headers resp)"
proof -
  have "handle_read rev (route_request rev rev (run_handler sample_env) sample_router) [] []
      \<lparr>session_data = [], ip_addr = []\<rparr> True 0 (new_recorder, []) = (Inr (handle_error rev), new_recorder, [])"
    by (simp add: handle_read_def)
  then show ?thesis by (rule session_writes_response)
qed

text \<open>
  C28. No exception leaves the callback of a read, so none reaches the thread that runs the
  \<open>io_service\<close>: the only faults that can are those no \<open>catch\<close> stops, a behaviour the language
  leaves undefined and the call of \<open>exit\<close>.
\<close>

theorem read_throws_nothing:
  "fst (handle_read hord (route_request ord hord (run_handler env) rt) past behind s error n
      (rec, db)) \<noteq> Inl (Throw e)"
  using routing.read_writes [of hord ord hord env rt past behind s error n "(rec, db)"]
  by (auto simp: uncatchable_def split: sum.splits prod.splits)

text \<open>
  An exception of a handler becomes the error page: if the request is valid and the router
  throws, the session writes the response with status 500 and nothing of what the exception says;
  what the handler had changed by then stays changed.
\<close>

theorem exception_becomes_500:
  assumes "nul \<in> set past" and "req_valid (new_request bytes)"
    and "route_request ord hord (run_handler env) rt (new_request bytes) w = (Inl (Throw e), w')"
  shows "handle_read hord (route_request ord hord (run_handler env) rt) past behind
      (received bytes s) False (length bytes) w
    = (Inr (Async_write (fst (generate_response hord (typed_response 500
         ''Oops! Looks like something went wrong on our side. Please try again later.''
         ''text/plain'')))), w')"
  using read_valid [where route = "route_request ord hord (run_handler env) rt", OF assms]
  by (simp add: handle_error_def session_write_def)

abbreviation ucla_router :: router where
  "ucla_router \<equiv> fst (register_all (config_locations ucla_server_config)
     (new_router ucla_server_config [], new_recorder))"

lemma exception_becomes_500_witness:
  "handle_read rev (route_request rev rev (run_handler sample_env) ucla_router) [nul] []
      (received (request_text ''GET'' ''/ucla/a'' (CHR ''1'') (CHR ''1'') [] [])
         \<lparr>session_data = [], ip_addr = []\<rparr>) False
      (length (request_text ''GET'' ''/ucla/a'' (CHR ''1'') (CHR ''1'') [] []))
      (new_recorder, [])
    = (Inr (handle_error rev), new_recorder, [])"
proof -
  let ?req = "new_request (request_text ''GET'' ''/ucla/a'' (CHR ''1'') (CHR ''1'') [] [])"
  have reg: "registered ucla_server_config [] new_recorder ucla_router
      (snd (register_all (config_locations ucla_server_config)
         (new_router ucla_server_config [], new_recorder)))"
    using ucla_server(2) by (simp add: registered_def)
  note f = request_text_fields [OF GET_word _ _ one_digit one_digit, of "''/ucla/a''" "[]" "[]"]
  have "spec_route ucla_server_config ''/ucla/a'' = (Reverse_proxy_handler, Some ucla_config)"
    by code_simp
  then have sel: "select_handler rev ucla_router ''/ucla/a'' = Inr (Reverse_proxy_handler, Some ucla_config)"
    using selected [OF ucla_server(1) reg enumerates_rev, of "''/ucla/a''"] by simp
  have host: "host_and_path ucla_handler ''/ucla/a'' = Inr (''ucla.edu'', ''/a/'')"
    by (simp add: host_and_path_def ucla_handler_def umap_find_def c_string_def)
  have "proxy_request (env_network sample_env) [nul] (Some ucla_config) [] ?req
      = Inl (Throw System_error)"
    using f(3) small_uris(2) host
    by (simp add: proxy_request_def ucla_created proxy_handle_request_def constructGetRequest_def
        sendGetRequest_def fetch_def sample_env_def ucla_handler_def)
  then have "route_request rev rev (run_handler sample_env) ucla_router ?req (new_recorder, [])
      = (Inl (Throw System_error), new_recorder, [])"
    using f(3) small_uris(2) sel registered_router(2) [OF reg]
    by (simp add: route_request_def run_handler_def sample_env_def)
  from exception_becomes_500 [OF _ _ this, of "[nul]"] show ?thesis
    using f(1) small_uris(2) by (simp add: handle_error_def session_write_def)
qed

text \<open>
  A request that does not begin with a request line is sent back, with status 400, together
  with the bytes of memory behind its copy up to the next zero byte; neither the status page nor
  the database changes.
\<close>

theorem bad_request_leaks:
  assumes "nul \<in> set past" and "\<not> req_valid (new_request bytes)"
    and "nul \<notin> set bytes" and "nul \<in> set behind"
  shows "handle_read hord (route_request ord hord (run_handler env) rt) past behind
      (received bytes s) False (length bytes) w
    = (Inr (Async_write (fst (generate_response hord (typed_response 400
         (bytes @ takeWhile (\<lambda>c. c \<noteq> nul) behind) ''text/plain'')))), w)"
proof -
  have "raw_request (new_request bytes) = bytes" by (rule new_request_raw)
  then have "raw_c_string (new_request bytes) behind
      = Inr (bytes @ takeWhile (\<lambda>c. c \<noteq> nul) behind)"
    using assms(3,4) by (simp add: c_string_of_text)
  then show ?thesis
    using assms(1,2)
    by (simp add: handle_read_def handle_success_def log_data_ok handle_invalid_request_def
        session_write_def)
qed

lemma bad_request_leaks_witness:
  "handle_read rev (route_request rev rev (run_handler sample_env) sample_router) [nul]
      (''password'' @ [nul]) (received ''hello'' \<lparr>session_data = [], ip_addr = []\<rparr>) False
      (length ''hello'') (new_recorder, [])
    = (Inr (Async_write (fst (generate_response rev (typed_response 400 ''hellopassword''
         ''text/plain'')))), new_recorder, [])"
proof -
  have "\<not> req_valid (new_request ''hello'')" by code_simp
  then show ?thesis
    using bad_request_leaks [of "[nul]" "''hello''" "''password'' @ [nul]"] by simp
qed

lemma reading_goes_on: "\<exists>st. session_step hord route (Reading s, w) st"
proof -
  obtain out where "handle_error hord = Async_write out"
    by (simp add: handle_error_def session_write_def)
  then have "handle_read hord route [] [] (received [] s) True (length []) w = (Inr (Async_write out), w)"
    by (simp add: handle_read_def)
  then show ?thesis using session_step.read_answered [of "[]"] by fastforce
qed

lemma writing_goes_on: "\<exists>st. session_step hord route (Writing out, w) st"
  using session_step.write_done [of True True True Deleted] by (fastforce simp: handle_write_def)

lemma relpowp_2: "(r ^^ Suc (Suc k)) x z \<Longrightarrow> \<exists>y y'. r x y \<and> r y y' \<and> (r ^^ k) y' z"
  by (metis relpowp_Suc_D2)

lemma read_step_result:
  assumes "session_step hord (route_request ord hord (run_handler env) rt) (Reading s, w) y"
  shows "(\<exists>out. fst y = Writing out) \<or> (\<exists>e. fst y = Escaped e \<and> uncatchable e)"
  using assms
proof (cases rule: session_step.cases)
  case (read_escaped bytes past behind error e w2)
  then show ?thesis
    using routing.read_writes [of hord ord hord env rt past behind "received bytes s" error
        "length bytes" w] by simp
qed simp_all

lemma write_step_result:
  assumes "session_step hord route (Writing out, w) y"
  shows "(\<exists>en. fst y = Ended en) \<or> fst y \<in> Escaped ` {Throw System_error, Undefined_behaviour}"
  using assms
  by (cases rule: session_step.cases)
    (auto simp: handle_write_def session_close_def split: if_splits)

lemma ended_final:
  "\<not> session_step hord route (Ended en, w) y" "\<not> session_step hord route (Escaped e, w) y"
  by (auto elim: ended_stepE escaped_stepE)

lemma second_step_last:
  assumes "session_step hord (route_request ord hord (run_handler env) rt) (Reading s, w) y"
    and "session_step hord (route_request ord hord (run_handler env) rt) y z"
    and "(session_step hord (route_request ord hord (run_handler env) rt) ^^ k) z x"
  shows "k = 0 \<and> ((\<exists>en. fst x = Ended en) \<or> fst x \<in> Escaped ` {Throw System_error, Undefined_behaviour})"
proof -
  obtain ph w1 where y: "y = (ph, w1)" by (metis surj_pair)
  have "ph \<noteq> Escaped e" for e using assms(2) ended_final(2) unfolding y by metis
  then obtain out where out: "ph = Writing out"
    using read_step_result [OF assms(1)] y by auto
  have z: "(\<exists>en. fst z = Ended en) \<or> fst z \<in> Escaped ` {Throw System_error, Undefined_behaviour}"
    by (rule write_step_result [OF assms(2) [unfolded y out]])
  have "k = 0"
  proof (rule ccontr)
    assume "k \<noteq> 0"
    then obtain k' where "k = Suc k'" by (cases k) simp_all
    then obtain z' where "session_step hord (route_request ord hord (run_handler env) rt) z z'"
      using assms(3) relpowp_Suc_D2 by metis
    moreover have "(\<exists>en w. z = (Ended en, w)) \<or> (\<exists>e w. z = (Escaped e, w))"
      using z by (cases z) auto
    ultimately show False by (auto simp: ended_final)
  qed
  then show ?thesis using z assms(3) by simp
qed

text \<open>
  C12. Every session ends, and answers at most once: no run of a session has more than two steps,
  the completion of its read and the completion of its write; a session that has not ended can
  always go on; what can stop it early is a fault no \<open>catch\<close> stops in the first step, and in
  the second \<open>shutdown\<close> throwing, or \<open>close\<close> running off its end, where it lacks a \<open>return\<close>.
\<close>

theorem session_lifetime:
  assumes "(session_step hord (route_request ord hord (run_handler env) rt) ^^ n)
    (Reading s, rec, db) (ph, w')"
  shows "n \<le> 2
    \<and> (case ph of
        Ended en \<Rightarrow> n = 2
      | Escaped e \<Rightarrow> n = 1 \<and> uncatchable e \<or> n = 2 \<and> (e = Throw System_error \<or> e = Undefined_behaviour)
      | _ \<Rightarrow> \<exists>st. session_step hord (route_request ord hord (run_handler env) rt) (ph, w') st)"
proof -
  let ?route = "route_request ord hord (run_handler env) rt"
  let ?step = "session_step hord ?route"
  consider "n = 0" | "n = 1" | k where "n = Suc (Suc k)"
    by (cases n; cases "n - 1") auto
  then show ?thesis
  proof cases
    case 1
    then have "ph = Reading s" and "w' = (rec, db)" using assms by auto
    then show ?thesis
      using 1 reading_goes_on [of hord ?route s "(rec, db)"] by (simp del: split_paired_Ex)
  next
    case 2
    then have st: "?step (Reading s, rec, db) (ph, w')" using assms by (simp only: relpowp_1)
    show ?thesis
      using read_step_result [OF st] 2 writing_goes_on [of hord ?route _ w']
      by (cases ph) (simp_all del: split_paired_Ex)
  next
    case 3
    then have "(?step ^^ Suc (Suc k)) (Reading s, rec, db) (ph, w')" using assms by (simp only:)
    then obtain y z where st: "?step (Reading s, rec, db) y" "?step y z" "(?step ^^ k) z (ph, w')"
      using relpowp_2 [where r = ?step and k = k] by metis
    show ?thesis using second_step_last [OF st] 3 by (cases ph) simp_all
  qed
qed

lemma session_lifetime_witness:
  "\<exists>st. session_step rev (route_request rev rev (run_handler sample_env) sample_router)
     (Writing (fst (generate_response rev (typed_response 500
       ''Oops! Looks like something went wrong on our side. Please try again later.''
       ''text/plain''))), new_recorder, []) st"
proof -
  let ?step = "session_step rev (route_request rev rev (run_handler sample_env) sample_router)"
  let ?s = "\<lparr>session_data = [], ip_addr = []\<rparr>"
  have "?step (Reading ?s, new_recorder, [])
      (Writing (fst (generate_response rev (typed_response 500
         ''Oops! Looks like something went wrong on our side. Please try again later.''
         ''text/plain''))), new_recorder, [])"
    by (rule session_step.read_answered [of "[]" _ _ "[]" "[]" _ True])
      (simp_all add: handle_read_def handle_error_def session_write_def)
  then have "(?step ^^ 1) (Reading ?s, new_recorder, [])
      (Writing (fst (generate_response rev (typed_response 500
         ''Oops! Looks like something went wrong on our side. Please try again later.''
         ''text/plain''))), new_recorder, [])"
    by (simp only: relpowp_1)
  from session_lifetime [OF this] show ?thesis by (simp del: split_paired_Ex)
qed

text \<open>A request that fills the buffer and has no zero byte is logged past the buffer's end.\<close>

lemma full_buffer_overread:
  assumes "length bytes = max_length" and "length (session_data s) = max_length"
    and "nul \<notin> set bytes" and "nul \<notin> set past"
  shows "log_data past (received bytes s) = Inl Undefined_behaviour"
  using assms by (simp add: log_data_def received_def)

end
