(* ===== verification/Server_Claims.thy ===== *)
theory Server_Claims
  imports Server Session_Claims
begin

text \<open>
  The properties of the program as a whole: when \<open>main\<close> gets to serve, what it then serves, and
  the way from the text of the configuration file to the bytes a client reads.
\<close>

section \<open>The statements survive the scan\<close>

lemma scan_tokens_statements [simp]:
  "statements (object (scan_tokens prev ts sc)) = statements (object sc)"
  by (induction prev ts sc rule: scan_tokens.induct) (simp_all add: Let_def split: sum.split)

lemma scan_statements_statements [simp]:
  "statements (object (scan_statements b sc)) = statements (object sc)"
  by (induction b arbitrary: sc) simp_all

lemma ParseStatements_statements:
  "ParseStatements cfg = (found, c) \<Longrightarrow> statements c = statements cfg"
  by (auto simp: ParseStatements_def Let_def)

lemma ParseStatements_range:
  assumes "ParseStatements cfg = (True, c)"
  obtains p n where "cfg_port c = Some p" "1 \<le> p" "p \<le> 65535"
    "cfg_threadCount c = Some n" "n \<noteq> 0"
  using assms scan_statements_inv [OF scan_start_inv, of "statements cfg" "[]" cfg]
  by (auto simp: ParseStatements_def Let_def scan_inv_def port_ok_def MAX_PORT_def
      split: option.splits)

section \<open>Starting up\<close>

text \<open>What \<open>main\<close> does with a configuration the parser has built.\<close>

lemma serve_eq:
  assumes "list_all tokens_ok b" and "statements (sv_config sv) = b" and "thread_count sv = t"
  shows "serve spawn root (sv, rec) =
    (case last_block None (router_blocks b) of
       None \<Rightarrow> Inl (Throw (Runtime_error
         ''Could not create router! Please ensure that the config file has a router config in it.''))
     | Some rb \<Rightarrow>
         if all_locations_named rb then
           (case register_all (config_locations rb) (new_router rb root, rec) of
              (rt, rec') \<Rightarrow>
                if \<forall>j < unat t. spawn j
                then Inr (Running (sv\<lparr>sv_router := Some rt, is_running := True,
                  accepts_pending := Suc (accepts_pending sv)\<rparr>) rec' (unat t))
                else if spawn 0 then Inl Undefined_behaviour
                else Inl (Throw System_error))
         else Inl Undefined_behaviour)"
  using router_block_eq [OF assms(1), of None] assms(2,3)
  by (auto simp: serve_def create_router_def register_routes_from_config_def register_statements_eq
      new_router_def start_accept_def server_run_def spawn_threads_iff split: option.split prod.split)

lemma main_eq:
  assumes "fs f = Some s" and "Parse s [] = Inr (ok, b)"
    and "ParseStatements (new_config b) = (True, c)" and "cfg_port c = Some p"
    and "cfg_threadCount c = Some t"
  shows "server_main fs listen spawn [prog, f] rec = main_catch
    (if listen (nat p)
     then serve spawn (cfg_root c)
       (\<lparr>sv_config = c, is_running = False, sv_router = None, thread_count = t,
         acceptor_port = nat p, accepts_pending = 0\<rparr>, rec)
     else Inl (Throw System_error))"
proof -
  obtain p' where "cfg_port c = Some p'" "1 \<le> p'" "p' \<le> 65535"
    using ParseStatements_range [OF assms(3)] by blast
  then have "endpoint_port p = nat p" using assms(4) endpoint_port_ok by simp
  then show ?thesis
    using assms
    by (simp add: server_main_def Parse_file_def GetPort_def GetThreadCount_def GetServerRoot_def
        new_server_def)
qed

lemma main_no_port:
  assumes "fs f = Some s" and "Parse s [] = Inr (ok, b)"
    and "ParseStatements (new_config b) = (False, c)"
  shows "server_main fs listen spawn [prog, f] rec = Inr (Exit_code 1)"
  using assms by (simp add: server_main_def Parse_file_def main_catch_def)

text \<open>What holds of a server that runs.\<close>

lemma running_facts:
  assumes "fs f = Some s" and "server_main fs listen spawn [prog, f] rec = Inr (Running sv rec' n)"
  obtains ok b c p t rb rt where "Parse s [] = Inr (ok, b)" "list_all tokens_ok b"
    "ParseStatements (new_config b) = (True, c)" "cfg_port c = Some p" "1 \<le> p" "p \<le> 65535"
    "cfg_threadCount c = Some t" "t \<noteq> 0" "last_block None (router_blocks b) = Some rb"
    "registered rb (cfg_root c) rec rt rec'" "n = unat t"
    "sv = \<lparr>sv_config = c, is_running = True, sv_router = Some rt, thread_count = t,
           acceptor_port = nat p, accepts_pending = 1\<rparr>"
proof -
  obtain ok b where b: "Parse s [] = Inr (ok, b)" "list_all tokens_ok b"
    using assms Parse_ok [of s] Parse_cases [of s]
    by (auto simp: server_main_def Parse_file_def main_catch_def)
  obtain found c where f: "ParseStatements (new_config b) = (found, c)" by fastforce
  have "found"
    using main_no_port [where fs = fs, OF assms(1) b(1)] f assms(2) by (cases found) auto
  then have ps: "ParseStatements (new_config b) = (True, c)" using f by simp
  obtain p t where c: "cfg_port c = Some p" "1 \<le> p" "p \<le> 65535" "cfg_threadCount c = Some t" "t \<noteq> 0"
    using ParseStatements_range [OF ps] by metis
  have st: "statements c = b" using ParseStatements_statements [OF ps] by (simp add: new_config_def)
  note run = assms(2) [unfolded main_eq [where fs = fs, OF assms(1) b(1) ps c(1,4)]]
  obtain rb where rb: "last_block None (router_blocks b) = Some rb" "all_locations_named rb"
    using run st b(2) by (auto simp: serve_eq main_catch_def split: option.splits if_splits)
  obtain rt rec1 where reg: "register_all (config_locations rb) (new_router rb (cfg_root c), rec) = (rt, rec1)"
    by fastforce
  then have "rec1 = rec'" "n = unat t"
      "sv = \<lparr>sv_config = c, is_running = True, sv_router = Some rt, thread_count = t, acceptor_port = nat p,
        accepts_pending = 1\<rparr>"
    using run st b(2) rb by (auto simp: serve_eq main_catch_def split: if_splits)
  moreover have "registered rb (cfg_root c) rec rt rec1" using reg rb(2) by (simp add: registered_iff)
  ultimately show ?thesis using that b ps c rb(1) by blast
qed

lemma router_block_parsed:
  assumes "list_all tokens_ok b" and "last_block None (router_blocks b) = Some rb"
  shows "list_all tokens_ok rb"
  using assms by (rule router_block_tokens)

section \<open>Properties\<close>

text \<open>
  C21. When the server runs: for a configuration file that can be read, \<open>main\<close> gets to serve
  exactly when a valid port was found, there is a router block, every location statement of the
  handlers of the last one names a location, the port can be listened on and all threads can be
  created. Whether the parser accepted the file plays no part: \<open>ok\<close> is any value.
\<close>

theorem server_runs_iff:
  assumes "fs f = Some s" and "Parse s [] = Inr (ok, b)"
    and "ParseStatements (new_config b) = (found, c)"
  shows "(\<exists>sv rec' n. server_main fs listen spawn [prog, f] rec = Inr (Running sv rec' n))
    \<longleftrightarrow> found
      \<and> (\<exists>rb. last_block None (router_blocks b) = Some rb \<and> all_locations_named rb)
      \<and> listen (nat (the (cfg_port c)))
      \<and> (\<forall>i < unat (the (cfg_threadCount c)). spawn i)"
proof (cases found)
  case True
  then have ps: "ParseStatements (new_config b) = (True, c)" using assms(3) by simp
  obtain p t where c: "cfg_port c = Some p" "cfg_threadCount c = Some t"
    using ParseStatements_range [OF ps] by metis
  have b: "list_all tokens_ok b" using Parse_ok [OF assms(2)] by blast
  have "statements c = b" using ParseStatements_statements [OF ps] by (simp add: new_config_def)
  then show ?thesis
    unfolding main_eq [where fs = fs, OF assms(1,2) ps c]
    using True c b
    by (auto simp: serve_eq main_catch_def split: option.split prod.split if_splits)
next
  case False
  then show ?thesis using main_no_port [where fs = fs, OF assms(1,2)] assms(3) by simp
qed

definition small_config :: block where
  "small_config =
     [Statement [''port'', ''8080''] None, Statement [''root'', ''/srv''] None,
      Statement [''threadCount'', ''2''] None, Statement [''router''] (Some sample_config)]"

lemma small_config_good: "good_block small_config"
  by (simp add: good_block_def small_config_def sample_config_def good_token_def plain_token_def
      initial_whitespace_def normal_end_def)

lemma small_config_nesting: "int (nesting small_config) \<le> int_max"
  by (simp add: small_config_def sample_config_def int_max_def)

lemma small_config_scan:
  "ParseStatements (new_config small_config)
     = (True, \<lparr>statements = small_config, cfg_port = Some 8080, cfg_threadCount = Some 2,
              cfg_root = ''/srv''\<rparr>)"
  by code_simp

lemma small_config_router:
  "last_block None (router_blocks small_config) = Some sample_config"
  "all_locations_named sample_config"
  by code_simp+

definition small_files :: "string \<Rightarrow> string option" where
  "small_files = [''conf'' \<mapsto> config_ToString 0 small_config]"

lemma small_files_parse:
  "small_files ''conf'' = Some (config_ToString 0 small_config)"
  "Parse (config_ToString 0 small_config) [] = Inr (True, small_config)"
  using parse_printed [OF small_config_good, of 0] small_config_nesting
  by (simp_all add: small_files_def)

abbreviation small_state :: "router \<times> recorder" where
  "small_state \<equiv> register_all (config_locations sample_config) (new_router sample_config ''/srv'', new_recorder)"

definition small_server :: server where
  "small_server =
     \<lparr>sv_config = \<lparr>statements = small_config, cfg_port = Some 8080, cfg_threadCount = Some 2,
                   cfg_root = ''/srv''\<rparr>,
      is_running = True, sv_router = Some (fst small_state), thread_count = 2, acceptor_port = 8080,
      accepts_pending = 1\<rparr>"

lemma small_running:
  "server_main small_files (\<lambda>_. True) (\<lambda>_. True) [''server'', ''conf''] new_recorder
     = Inr (Running small_server (snd small_state) 2)"
proof -
  have "list_all tokens_ok small_config" using Parse_ok [OF small_files_parse(2)] by blast
  then show ?thesis
    using main_eq [where fs = small_files, OF small_files_parse small_config_scan] small_config_router
    by (simp add: serve_eq main_catch_def small_server_def split: prod.split)
qed

lemma server_runs_iff_witness:
  "\<exists>sv rec' n. server_main small_files (\<lambda>_. True) (\<lambda>_. True) [''server'', ''conf''] new_recorder
     = Inr (Running sv rec' n)"
  using server_runs_iff [where fs = small_files, OF small_files_parse small_config_scan,
      of "\<lambda>_. True" "\<lambda>_. True" "''server''" new_recorder] small_config_router
  by simp

text \<open>
  A server that runs is complete: it listens on the configured port, which its two narrowing
  conversions leave between 1 and 65535, it accepts, it has at least one thread, and its router
  is a fresh one in which the routes of a parsed configuration have been registered.
\<close>

theorem running_server_complete:
  assumes "fs f = Some s"
    and "server_main fs listen spawn [prog, f] rec = Inr (Running sv rec' n)"
  shows "get_status sv \<and> cfg_port (sv_config sv) = Some (int (acceptor_port sv))
    \<and> 1 \<le> acceptor_port sv \<and> acceptor_port sv \<le> 65535 \<and> 1 \<le> n
    \<and> (\<exists>rb rt. sv_router sv = Some rt \<and> list_all tokens_ok rb
        \<and> register_routes_from_config (new_router rb (cfg_root (sv_config sv)), rec)
            = Inr (True, rt, rec'))"
proof (rule running_facts [OF assms])
  fix ok b c p t rb rt
  assume "list_all tokens_ok b" "cfg_port c = Some p" "1 \<le> p" "p \<le> 65535" "t \<noteq> 0"
    "last_block None (router_blocks b) = Some rb" "registered rb (cfg_root c) rec rt rec'"
    "n = unat t" "sv = \<lparr>sv_config = c, is_running = True, sv_router = Some rt, thread_count = t,
           acceptor_port = nat p, accepts_pending = 1\<rparr>"
  moreover from this have "1 \<le> unat t" "1 \<le> nat p" "nat p \<le> 65535"
    by (simp_all add: Suc_le_eq unat_gt_0)
  ultimately show ?thesis
    using router_block_parsed [of b rb] by (auto simp: get_status_def registered_def)
qed

lemma running_server_complete_witness:
  "get_status small_server \<and> cfg_port (sv_config small_server) = Some (int (acceptor_port small_server))"
  using running_server_complete [OF small_files_parse(1) small_running] by blast

text \<open>
  C37. Nothing but undefined behaviour gets out of \<open>main\<close>: for a file that can be read and in which
  the parser has counted its braces, a fault leaves \<open>main\<close> exactly when there are a valid port, on
  which it can listen, and a router block, and either a location statement of this block does not
  name a location, or the first thread can be created and a later one cannot. Any other failure
  becomes an exit code, 1 for a missing port and 0, as for success, for everything that throws.
\<close>

theorem startup_faults:
  assumes "fs f = Some s" and "Parse s [] = Inr (ok, b)"
    and "ParseStatements (new_config b) = (found, c)"
  shows "server_main fs listen spawn [prog, f] rec = Inl e
    \<longleftrightarrow> e = Undefined_behaviour \<and> found \<and> listen (nat (the (cfg_port c)))
      \<and> (\<exists>rb. last_block None (router_blocks b) = Some rb
          \<and> (\<not> all_locations_named rb
             \<or> spawn 0 \<and> (\<exists>i < unat (the (cfg_threadCount c)). \<not> spawn i)))"
proof (cases found)
  case True
  then have ps: "ParseStatements (new_config b) = (True, c)" using assms(3) by simp
  obtain p t where c: "cfg_port c = Some p" "cfg_threadCount c = Some t"
    using ParseStatements_range [OF ps] by metis
  have "list_all tokens_ok b" using Parse_ok [OF assms(2)] by blast
  moreover have "statements c = b" using ParseStatements_statements [OF ps] by (simp add: new_config_def)
  ultimately show ?thesis
    unfolding main_eq [where fs = fs, OF assms(1,2) ps c]
    using True c by (auto simp: serve_eq main_catch_def split: option.splits prod.splits if_splits)
next
  case False
  then show ?thesis using main_no_port [where fs = fs, OF assms(1,2)] assms(3) by simp
qed

definition nameless_config :: block where
  "nameless_config =
     [Statement [''port'', ''8080''] None,
      Statement [''router'']
        (Some [Statement [''handler'', ''echo''] (Some [Statement [''location''] None])])]"

definition nameless_files :: "string \<Rightarrow> string option" where
  "nameless_files = [''conf'' \<mapsto> config_ToString 0 nameless_config]"

lemma nameless_parse:
  "nameless_files ''conf'' = Some (config_ToString 0 nameless_config)"
  "Parse (config_ToString 0 nameless_config) [] = Inr (True, nameless_config)"
proof -
  have "good_block nameless_config"
    by (simp add: good_block_def nameless_config_def good_token_def plain_token_def
        initial_whitespace_def normal_end_def)
  then show "Parse (config_ToString 0 nameless_config) [] = Inr (True, nameless_config)"
    by (simp add: parse_printed) (simp add: nameless_config_def int_max_def)
qed (simp add: nameless_files_def)

lemma startup_faults_witness:
  "server_main nameless_files (\<lambda>_. True) (\<lambda>_. True) [''server'', ''conf''] new_recorder
     = Inl Undefined_behaviour"
proof -
  have "ParseStatements (new_config nameless_config) = (True,
      \<lparr>statements = nameless_config, cfg_port = Some 8080, cfg_threadCount = Some 10, cfg_root = []\<rparr>)"
    by code_simp
  moreover have "last_block None (router_blocks nameless_config)
      = Some [Statement [''handler'', ''echo''] (Some [Statement [''location''] None])]"
    "\<not> all_locations_named [Statement [''handler'', ''echo''] (Some [Statement [''location''] None])]"
    by code_simp+
  ultimately show ?thesis
    using startup_faults [where fs = nameless_files, OF nameless_parse, of True _ "\<lambda>_. True" "\<lambda>_. True"] by simp
qed

text \<open>
  C1. From the text of the configuration file to the bytes on the wire: start the program on a file
  that holds a printed configuration; once it runs, a GET request of at most 1024 bytes for a URI
  without query string, whose longest listed prefix in the router block is a location of a static
  handler and which names a file in that handler's directory below the configured root, is
  answered with the serialised response that carries the file.
\<close>

theorem config_text_to_bytes:
  assumes "good_block b" and "fs f = Some (config_ToString d b)"
    and "server_main fs listen spawn [prog, f] rec0 = Inr (Running sv rec1 k)"
    and "sv_router sv = Some rt" and "last_block None (router_blocks b) = Some rb"
    and "enumerates ord" and "enumerates hord"
    and "spec_handler rb u = name"
    and "name \<in> {''static1'', ''static2'', ''webMeme'', ''imageMeme''}"
    and "last_block None (handler_blocks name rb) = Some c"
    and "names_file u n e" and "line_text u" and "CHR ''?'' \<notin> set u"
    and "env_files env (cfg_root (sv_config sv) @ root_statement [] c @ ''/'' @ n @ ''.'' @ e)
      = Some contents"
    and "bytes = request_text ''GET'' u (CHR ''1'') (CHR ''1'') hs body"
    and "length bytes \<le> max_length" and "nul \<in> set past"
  shows "handle_read hord (route_request ord hord (run_handler env) rt) past behind
      (received bytes s) False (length bytes) (rec, db)
    = (Inr (Async_write (fst (generate_response hord
          (typed_response 200 contents (get_mime_type (''.'' @ e)))))),
       request_recorder u 200 rec, db)"
proof (rule running_facts [OF assms(2,3)])
  fix ok b' c' p t rb' rt'
  assume r: "Parse (config_ToString d b) [] = Inr (ok, b')" "list_all tokens_ok b'"
    "last_block None (router_blocks b') = Some rb'"
    "registered rb' (cfg_root c') rec0 rt' rec1"
    "sv = \<lparr>sv_config = c', is_running = True, sv_router = Some rt', thread_count = t,
           acceptor_port = nat p, accepts_pending = 1\<rparr>"
  have "b' = b" using r(1) parse_printed [OF assms(1), of d] by (simp split: if_splits)
  then have rb: "rb' = rb" "list_all tokens_ok rb"
    using r(2,3) assms(5) router_block_parsed by auto
  have "rt' = rt" "c' = sv_config sv" using r(5) assms(4) by simp_all
  then have "register_routes_from_config (new_router rb (cfg_root (sv_config sv)), rec0)
      = Inr (True, rt, rec1)"
    using r(4) rb(1) by (simp add: registered_def)
  from wire_static [OF rb(2) this assms(6-14) assms(15-17)] show ?thesis .
qed

lemma config_text_to_bytes_witness:
  "fst (handle_read rev (route_request rev rev (run_handler sample_env) (fst small_state)) [nul] []
      (received (request_text ''GET'' ''/a/b.txt'' (CHR ''1'') (CHR ''1'') [] [])
         \<lparr>session_data = [], ip_addr = []\<rparr>) False
      (length (request_text ''GET'' ''/a/b.txt'' (CHR ''1'') (CHR ''1'') [] []))
      (new_recorder, []))
    = Inr (Async_write (fst (generate_response rev
          (typed_response 200 ''hello'' (get_mime_type ''.txt'')))))"
proof -
  have "length (request_text ''GET'' ''/a/b.txt'' (CHR ''1'') (CHR ''1'') [] []) \<le> max_length"
    by (simp add: request_text_def request_line_def max_length_def)
  then show ?thesis
    using config_text_to_bytes [OF small_config_good small_files_parse(1) small_running _
        small_config_router(1) enumerates_rev enumerates_rev sample_route(1) _ sample_route(2)
        file_named, of "fst small_state" sample_env "''hello''" _ "[]" "[]"]
      small_uris(1)
    by (simp add: sample_env_def small_server_def)
qed

end
