(* ===== verification/Meme_Wire.thy ===== *)
theory Meme_Wire
  imports Session_Claims
begin

text \<open>
  The meme service from bytes to bytes: a session's read, the request's constructor, the router,
  the meme handler, the database and the serialised response, composed. The request of a user is
  a text of at most 1024 bytes; what comes back is the text the session hands to the socket.
\<close>

section \<open>Requests for memes\<close>

lemma hex_no_break: "is_hex c \<Longrightarrow> c \<noteq> lf \<and> c \<noteq> cr \<and> c \<noteq> CHR ''?''"
  by (auto simp: is_hex_def is_digit_def less_eq_char_def)

lemma check_id_chars:
  assumes "check_id i"
  shows "\<forall>c \<in> set i. c \<noteq> lf \<and> c \<noteq> cr \<and> c \<noteq> CHR ''?''"
proof -
  obtain a b c d e where i: "i = a @ ''-'' @ b @ ''-'' @ c @ ''-'' @ d @ ''-'' @ e"
    and t: "hex_text 8 a" "hex_text 4 b" "hex_text 4 c" "hex_text 4 d" "hex_text 12 e"
    using assms unfolding check_id_iff by blast
  have "is_hex x \<or> x = CHR ''-''" if "x \<in> set i" for x
    using t that unfolding i hex_text_def by auto
  then show ?thesis using hex_no_break by fastforce
qed

text \<open>The identifier of a meme is what stands behind \<open>/memes/\<close>.\<close>

lemma check_uri_rest:
  assumes "\<forall>c \<in> set w. c \<noteq> lf \<and> c \<noteq> cr"
  shows "check_uri (''/memes/'' @ w) = w"
proof -
  have "\<forall>c \<in> set w. class_has Any c" using assms by simp
  then have "rx_run memes_rx 0 (''/memes/'' @ w) [] [] = Some ([], [(1, w)])"
    unfolding memes_rx_def rx_run_lits group_def
    using rx_run_Star_max [of w Any "[]" "[Close 1, Eol]" 7 "[(1, w)]" "[]"]
    by (simp add: group_text_def eval_nat_numeral)
  then have "rx_search_from memes_rx 0 (''/memes/'' @ w) = Some ([], [(1, w)])"
    using rx_search_from_leftmost [of memes_rx 0 "[]" "''/memes/'' @ w"] by simp
  then show ?thesis by (simp add: check_uri_def regex_search_def)
qed


text \<open>What a session does with a request for the meme handler.\<close>

lemma wire_meme:
  assumes "list_all tokens_ok config"
    and "register_routes_from_config (new_router config root, rec0) = Inr (True, rt, rec1)"
    and "enumerates ord" and "enumerates hord"
    and "spec_handler config u = ''meme''"
    and "last_block None (handler_blocks ''meme'' config) = Some c"
    and "word_text m" and "line_text u" and "CHR ''?'' \<notin> set u"
    and "bytes = request_text m u (CHR ''1'') (CHR ''1'') hs body"
    and "nul \<in> set past"
    and "meme_request (env_sqlite env) (env_uuid env) (Some c) root (new_request bytes) db
      = (Inr resp, db')"
  shows "handle_read hord (route_request ord hord (run_handler env) rt) past behind
      (received bytes s) False (length bytes) (rec, db)
    = (Inr (Async_write (fst (generate_response hord resp))),
       request_recorder u (status_code resp) rec, db')"
proof -
  let ?req = "new_request bytes"
  note f = request_text_fields [OF assms(7-9) one_digit one_digit, of hs body, folded assms(10)]
  have reg: "registered config root rec0 rt rec1" using assms(2) by (simp add: registered_def)
  have "spec_route config (req_uri ?req) = (Meme_handler, Some c)"
    using assms(5,6) f(3) by (simp add: spec_route_def handler_class_of_def)
  moreover have "run_handler env Meme_handler (Some c) root ?req (rec, db) = (Inr resp, rec, db')"
    using assms(12) by (simp add: run_handler_def)
  ultimately have "route_request ord hord (run_handler env) rt ?req (rec, db)
      = (Inr resp, request_recorder u (status_code resp) rec, db')"
    using routed [OF assms(1) reg assms(3), of ?req Meme_handler "Some c" env rec db resp db' hord]
      assms(4) f(3) by simp
  from read_valid [where route = "route_request ord hord (run_handler env) rt", OF assms(11) f(1) this]
  show ?thesis by (simp add: session_write_def)
qed

lemma request_text_body:
  assumes "word_text m" and "line_text u" and "lf \<notin> set body \<and> cr \<notin> set body"
  shows "request_body (new_request (request_text m u (CHR ''1'') (CHR ''1'') hs body)) = body"
  using new_request_text [OF assms(1,2) one_digit one_digit, of hs body] found_body_text assms(3)
  by simp

section \<open>Property\<close>

lemma POST_word: "word_text ''POST''"
  by (simp add: word_text_def is_word_def is_upper_def less_eq_char_def)

lemma id_uri:
  assumes "check_id i"
  shows "line_text (''/memes/'' @ i)" "CHR ''?'' \<notin> set (''/memes/'' @ i)"
    "check_uri (''/memes/'' @ i) = i"
  using check_id_chars [OF assms] check_uri_rest [of i] by (auto simp: line_text_def)

text \<open>
  C4. A meme from one connection to the next, in bytes: let a POST request of at most 1024
  bytes arrive on a connection, for a URI whose longest listed prefix belongs to the meme
  handler, with a body of one line that passes the check. The bytes written are the response
  with status 201 and the new identifier. A GET request for \<open>/memes/\<close> and that identifier, on
  another connection, then gets the bytes of a response with status 200 whose body is the JSON
  object of exactly the template and captions that were sent. The table has the new row with one
  view and no other change, and the status page has two more lines.
\<close>

theorem meme_over_the_wire:
  assumes "list_all tokens_ok config"
    and "register_routes_from_config (new_router config root, rec0) = Inr (True, rt, rec1)"
    and "enumerates ord" and "enumerates hord"
    and "spec_handler config u = ''meme''" and "spec_handler config (''/memes/'' @ uuid) = ''meme''"
    and "last_block None (handler_blocks ''meme'' config) = Some c"
    and "meme_sql sq like memes" and "memes_ok n (memes db)" and "memes db uuid = None"
    and "env_sqlite env = sq" and "env_uuid env = uuid" and "check_id uuid"
    and "env_sqlite env' = sq"
    and "line_text u" and "CHR ''?'' \<notin> set u" and "lf \<notin> set body \<and> cr \<notin> set body"
    and "body_check body [] = Inr (True, [t, a, b])"
    and "bytes = request_text ''POST'' u (CHR ''1'') (CHR ''1'') hs body"
    and "bytes' = request_text ''GET'' (''/memes/'' @ uuid) (CHR ''1'') (CHR ''1'') hs' []"
    and "length bytes \<le> max_length" and "length bytes' \<le> max_length"
    and "nul \<in> set past" and "nul \<in> set past'"
    and "handle_read hord (route_request ord hord (run_handler env) rt) past behind
        (received bytes s) False (length bytes) (rec, db) = (out, w)"
    and "handle_read hord (route_request ord hord (run_handler env') rt) past' behind'
        (received bytes' s') False (length bytes') w = (out', rec', db')"
  shows "out = Inr (Async_write (fst (generate_response hord (id_response 201 uuid))))
    \<and> out' = Inr (Async_write (fst (generate_response hord
          (typed_response 200 (meme_json t a b) ''application/json''))))
    \<and> memes db' = (memes db)(uuid \<mapsto> (t, a, b, ''1''))
    \<and> url_response_list rec' = url_response_list rec @ [(u, 201), (''/memes/'' @ uuid, 200)]"
proof -
  let ?post = "new_request bytes" and ?get = "new_request bytes'"
  note p = request_text_fields [OF POST_word assms(15,16) one_digit one_digit, of hs body,
      folded assms(19)]
  note g = request_text_fields [OF GET_word id_uri(1,2) [OF assms(13)] one_digit one_digit,
      of hs' "[]", folded assms(20)]
  have body: "request_body ?post = body"
    using request_text_body [OF POST_word assms(15,17)] assms(19) by simp
  obtain r1 db1 where post: "meme_request sq uuid (Some c) root ?post db = (r1, db1)" by fastforce
  obtain r2 db2 where get: "meme_request sq (env_uuid env') (Some c) root ?get db1 = (r2, db2)"
    by fastforce
  have r: "r1 = Inr (id_response 201 uuid) \<and> r2 = json_ok (meme_json t a b)
      \<and> memes db2 = (memes db)(uuid \<mapsto> (t, a, b, ''1''))"
    using create_then_get [OF assms(8,9,13,10) p(2) _ g(2) _ post get]
      body assms(18) g(3) id_uri(3) [OF assms(13)] by simp
  have "(out, w) = (Inr (Async_write (fst (generate_response hord (id_response 201 uuid)))),
      request_recorder u 201 rec, db1)"
    using wire_meme [OF assms(1-5,7) POST_word assms(15,16,19,23), of env db "id_response 201 uuid"
        db1 behind s rec] post r assms(11,12,25)
    by (simp add: id_response_def)
  moreover from this have "(out', rec', db') = (Inr (Async_write (fst (generate_response hord
          (typed_response 200 (meme_json t a b) ''application/json'')))),
      request_recorder (''/memes/'' @ uuid) 200 (request_recorder u 201 rec), db2)"
    using wire_meme [OF assms(1-4,6,7) GET_word id_uri(1,2) [OF assms(13)] assms(20,24), of env' db1
        "typed_response 200 (meme_json t a b) ''application/json''" db2 behind' s'
        "request_recorder u 201 rec"] get r assms(14,26)
    by (simp add: json_ok_def)
  ultimately show ?thesis using r by (simp add: request_recorder_def)
qed

end
