(* ===== verification/Deployment.thy ===== *)
theory Deployment
  imports Server_Claims Meme_Wire
begin

text \<open>
  The program started on the configuration the repository ships for local use,
  \<open>conf/local_port\<close>: its text is parsed, scanned and registered, and the routes it gives are
  written out as a table. The meme service of theory Meme_Wire is run on it.
\<close>

section \<open>The file and what the parser makes of it\<close>

text \<open>The lines of the file, each with its line feed.\<close>

definition local_port_text :: string where
  "local_port_text = concat (map (\<lambda>l. l @ [lf])
     [''port 8080;'',
      ''root .;'',
      ''threadCount 50;'',
      ''router {'',
      ''    handler echo {'',
      ''        location /echo;'',
      ''    }'',
      ''    handler status {'',
      ''        location /status;'',
      ''    }'',
      ''    handler health {'',
      ''        location /health;'',
      ''    }'',
      ''    handler static1 {'',
      ''        location /static1;'',
      ''        root resources/static1;'',
      ''    }'',
      ''    handler static2 {'',
      ''        location /static2;'',
      ''        root resources/static2;'',
      ''    }'',
      ''    handler webMeme {'',
      ''        location /web/memes;'',
      ''        root web/memes;'',
      ''    }'',
      ''    handler imageMeme {'',
      ''        location /image/memes;'',
      ''        root resources/memes/templates;'',
      ''    }'',
      ''    handler proxy {'',
      ''        port 80; # if port number is missing here, the default should be 8080'',
      ''        location /ucla;'',
      ''        root www.ucla.edu;'',
      ''        location /wiki;'',
      ''        root www.wikipedia.com;'',
      ''    }'',
      ''    handler meme {'',
      ''        location /memes;'',
      ''        memeTemplatePath resources/memes/templates/;'',
      ''        memePath resources/memes/data/;'',
      ''    }'',
      ''}''])"

definition local_port_router :: block where
  "local_port_router =
     [Statement [''handler'', ''echo''] (Some [Statement [''location'', ''/echo''] None]),
      Statement [''handler'', ''status''] (Some [Statement [''location'', ''/status''] None]),
      Statement [''handler'', ''health''] (Some [Statement [''location'', ''/health''] None]),
      Statement [''handler'', ''static1'']
        (Some [Statement [''location'', ''/static1''] None,
           Statement [''root'', ''resources/static1''] None]),
      Statement [''handler'', ''static2'']
        (Some [Statement [''location'', ''/static2''] None,
           Statement [''root'', ''resources/static2''] None]),
      Statement [''handler'', ''webMeme'']
        (Some [Statement [''location'', ''/web/memes''] None,
           Statement [''root'', ''web/memes''] None]),
      Statement [''handler'', ''imageMeme'']
        (Some [Statement [''location'', ''/image/memes''] None,
           Statement [''root'', ''resources/memes/templates''] None]),
      Statement [''handler'', ''proxy'']
        (Some [Statement [''port'', ''80''] None, Statement [''location'', ''/ucla''] None,
           Statement [''root'', ''www.ucla.edu''] None, Statement [''location'', ''/wiki''] None,
           Statement [''root'', ''www.wikipedia.com''] None]),
      Statement [''handler'', ''meme'']
        (Some [Statement [''location'', ''/memes''] None,
           Statement [''memeTemplatePath'', ''resources/memes/templates/''] None,
           Statement [''memePath'', ''resources/memes/data/''] None])]"

definition local_port_block :: block where
  "local_port_block =
     [Statement [''port'', ''8080''] None,
      Statement [''root'', ''.''] None,
      Statement [''threadCount'', ''50''] None,
      Statement [''router''] (Some local_port_router)]"

lemma local_port_parse: "Parse local_port_text [] = Inr (True, local_port_block)"
  by code_simp

lemma local_port_scan:
  "ParseStatements (new_config local_port_block)
     = (True, \<lparr>statements = local_port_block, cfg_port = Some 8080, cfg_threadCount = Some 50,
              cfg_root = []\<rparr>)"
  by code_simp

lemma local_port_facts:
  "last_block None (router_blocks local_port_block) = Some local_port_router"
  "all_locations_named local_port_router"
  by code_simp+

lemma local_port_tokens: "list_all tokens_ok local_port_router"
proof -
  have "list_all tokens_ok local_port_block"
    using Parse_ok [OF local_port_parse] by blast
  then show ?thesis using router_block_parsed local_port_facts(1) by blast
qed

section \<open>The routes as a table\<close>

text \<open>
  When no listed location is a prefix of another, a URI has the handler of the location that is
  a prefix of it.
\<close>

lemma spec_handler_unique:
  assumes "map_of (config_locations config) l = Some h" and "prefix l uri"
    and "\<And>l'. map_of (config_locations config) l' \<noteq> None \<Longrightarrow> prefix l l' \<or> prefix l' l \<Longrightarrow> l' = l"
  shows "spec_handler config uri = h"
proof -
  have "prefix p l" if "map_of (config_locations config) p \<noteq> None" "prefix p uri" for p
    using assms(3) [OF that(1)] prefix_same_cases [OF assms(2) that(2)] by auto
  then have "List.find (\<lambda>p. map_of (config_locations config) p \<noteq> None) (rev (prefixes uri)) = Some l"
    using assms(1,2) by (intro find_longest) auto
  then show ?thesis using assms(1) by (simp add: spec_handler_def)
qed

definition local_port_table :: "(string \<times> string \<times> handler_class) list" where
  "local_port_table =
     [(''/echo'', ''echo'', Echo_handler), (''/status'', ''status'', Status_handler),
      (''/health'', ''health'', Health_handler), (''/static1'', ''static1'', Static_file_handler),
      (''/static2'', ''static2'', Static_file_handler),
      (''/web/memes'', ''webMeme'', Static_file_handler),
      (''/image/memes'', ''imageMeme'', Static_file_handler),
      (''/ucla'', ''proxy'', Reverse_proxy_handler), (''/wiki'', ''proxy'', Reverse_proxy_handler),
      (''/memes'', ''meme'', Meme_handler)]"

definition local_port_selection :: "string \<Rightarrow> handler_class \<times> block option" where
  "local_port_selection uri =
     (case List.find (\<lambda>row. prefix (fst row) uri) local_port_table of
        Some (_, name, cls) \<Rightarrow> (cls, last_block None (handler_blocks name local_port_router))
      | None \<Rightarrow> (Default_handler, None))"

lemma local_port_locations:
  "config_locations local_port_router = map (\<lambda>row. (fst row, fst (snd row))) local_port_table"
  "list_all (\<lambda>row. handler_class_of (fst (snd row)) = (snd (snd row), fst (snd row))) local_port_table"
  "list_all (\<lambda>row. list_all (\<lambda>row'. prefix (fst row) (fst row') \<longrightarrow> fst row = fst row')
     local_port_table) local_port_table"
  "distinct (map fst local_port_table)"
  "last_block None (handler_blocks ''default'' local_port_router) = None"
  by code_simp+

lemma map_of_rows: "map_of (map (\<lambda>row. (fst row, fst (snd row))) xs) l = map_option fst (map_of xs l)"
  by (induction xs) auto

lemma local_port_listed:
  "map_of (config_locations local_port_router) l = map_option fst (map_of local_port_table l)"
  unfolding local_port_locations(1) by (rule map_of_rows)

lemma local_port_spec: "spec_route local_port_router uri = local_port_selection uri"
proof (cases "List.find (\<lambda>row. prefix (fst row) uri) local_port_table")
  case None
  then have "map_of (config_locations local_port_router) p = None" if "prefix p uri" for p
    using that by (fastforce simp: local_port_listed find_None_iff map_of_eq_None_iff)
  then have "spec_handler local_port_router uri = ''default''"
    by (simp add: spec_handler_def find_no_prefix)
  then show ?thesis
    using None local_port_locations(5)
    by (simp add: spec_route_def handler_class_of_def local_port_selection_def)
next
  case (Some row)
  obtain l name cls where row: "row = (l, name, cls)" by (cases row)
  then have mem: "(l, name, cls) \<in> set local_port_table" "prefix l uri"
    using Some by (auto simp: find_Some_iff in_set_conv_nth) (metis fst_conv)
  have "map_of (config_locations local_port_router) l = Some name"
    using mem(1) local_port_locations(4) by (simp add: local_port_listed)
  moreover have "l' = l" if "map_of (config_locations local_port_router) l' \<noteq> None"
      "prefix l l' \<or> prefix l' l" for l'
  proof -
    have "map_of local_port_table l' \<noteq> None" using that(1) by (simp add: local_port_listed)
    then obtain z where "map_of local_port_table l' = Some z" by blast
    then have z: "(l', z) \<in> set local_port_table" by (rule map_of_SomeD)
    show ?thesis
      using bspec [OF bspec [OF local_port_locations(3) [unfolded list_all_iff] mem(1)] z]
        bspec [OF bspec [OF local_port_locations(3) [unfolded list_all_iff] z] mem(1)] that(2)
      by auto
  qed
  ultimately have "spec_handler local_port_router uri = name"
    using mem(2) by (intro spec_handler_unique)
  moreover have "handler_class_of name = (cls, name)"
    using mem(1) local_port_locations(2) by (auto simp: list_all_iff)
  ultimately show ?thesis
    using Some row by (simp add: spec_route_def local_port_selection_def)
qed

section \<open>Properties\<close>

text \<open>
  C13. The shipped configuration: started on the text of \<open>conf/local_port\<close>, the program serves on
  port 8080 with 50 threads if it can listen there and create them, and exits with code 0 if it
  cannot listen or create a first thread; what happens when a later thread cannot be created is
  undefined. When it serves, its router gives every URI the handler class of the table above
  whose location is a prefix of the URI, with the configuration of that handler, and the default
  handler where there is none, in whatever order the hash map enumerates its routes.
\<close>

theorem shipped_configuration:
  assumes "fs f = Some local_port_text" and "enumerates ord"
  shows "if listen 8080 \<and> (\<forall>i < 50. spawn i)
     then \<exists>sv rt rec'. server_main fs listen spawn [prog, f] rec = Inr (Running sv rec' 50)
       \<and> acceptor_port sv = 8080 \<and> sv_router sv = Some rt
       \<and> (\<forall>uri. select_handler ord rt uri = Inr (local_port_selection uri))
     else server_main fs listen spawn [prog, f] rec
       = (if listen 8080 \<and> spawn 0 then Inl Undefined_behaviour else Inr (Exit_code 0))"
proof -
  have tok: "list_all tokens_ok local_port_block"
    using Parse_ok [OF local_port_parse] by blast
  obtain rt rec' where reg: "register_all (config_locations local_port_router)
      (new_router local_port_router [], rec) = (rt, rec')" by fastforce
  then have "registered local_port_router [] rec rt rec'"
    using local_port_facts(2) by (simp add: registered_iff)
  then have "select_handler ord rt uri = Inr (local_port_selection uri)" for uri
    using selected [OF local_port_tokens _ assms(2)] local_port_spec by simp
  moreover have "unat (50 :: 32 word) = 50" by simp
  ultimately show ?thesis
    using main_eq [where fs = fs, OF assms(1) local_port_parse local_port_scan, of 8080 50 listen spawn prog rec]
      tok local_port_facts reg
    by (simp add: serve_eq main_catch_def) blast
qed

text \<open>A world in which the program runs on the shipped configuration.\<close>

definition local_port_files :: "string \<rightharpoonup> string" where
  "local_port_files = [''conf/local_port'' \<mapsto> local_port_text]"

lemma shipped_configuration_witness:
  "\<exists>sv rt rec'. server_main local_port_files (\<lambda>_. True) (\<lambda>_. True) [''server'', ''conf/local_port'']
       new_recorder = Inr (Running sv rec' 50)
     \<and> acceptor_port sv = 8080 \<and> sv_router sv = Some rt
     \<and> (\<forall>uri. select_handler rev rt uri = Inr (local_port_selection uri))"
  using shipped_configuration [of local_port_files "''conf/local_port''" rev "\<lambda>_. True" "\<lambda>_. True"
      "''server''" new_recorder] enumerates_rev
  by (simp add: local_port_files_def)

text \<open>The meme service of the shipped configuration, from bytes to bytes.\<close>

definition local_port_state :: "router \<times> recorder" where
  "local_port_state = register_all (config_locations local_port_router)
     (new_router local_port_router [], new_recorder)"

lemma local_port_registered:
  "register_routes_from_config (new_router local_port_router [], new_recorder)
     = Inr (True, fst local_port_state, snd local_port_state)"
  using local_port_facts(2) registered_iff [of local_port_router "[]" new_recorder
      "fst local_port_state" "snd local_port_state"]
  by (simp add: registered_def local_port_state_def)

lemma local_port_meme:
  "spec_handler local_port_router ''/memes'' = ''meme''"
  "spec_handler local_port_router (''/memes/'' @ zero_id) = ''meme''"
  "last_block None (handler_blocks ''meme'' local_port_router)
     = Some [Statement [''location'', ''/memes''] None,
             Statement [''memeTemplatePath'', ''resources/memes/templates/''] None,
             Statement [''memePath'', ''resources/memes/data/''] None]"
  by code_simp+

definition post_bytes :: string where
  "post_bytes = request_text ''POST'' ''/memes'' (CHR ''1'') (CHR ''1'') [(''Host'', ''h'')] sample_body"

definition get_bytes :: string where
  "get_bytes =
     request_text ''GET'' (''/memes/'' @ zero_id) (CHR ''1'') (CHR ''1'') [(''Host'', ''h'')] []"

lemma sample_bytes:
  "length post_bytes \<le> max_length" "length get_bytes \<le> max_length"
  "line_text ''/memes''" "CHR ''?'' \<notin> set ''/memes''" "lf \<notin> set sample_body \<and> cr \<notin> set sample_body"
  by (simp_all add: post_bytes_def get_bytes_def request_text_def request_line_def header_line_def
      max_length_def sample_body_def zero_id_def line_text_def)

abbreviation sample_read :: "string \<Rightarrow> recorder \<times> table \<Rightarrow> effect result \<times> recorder \<times> table" where
  "sample_read bytes w \<equiv>
     handle_read rev (route_request rev rev (run_handler sample_env) (fst local_port_state)) [nul] []
       (received bytes \<lparr>session_data = [], ip_addr = []\<rparr>) False (length bytes) w"

lemma meme_over_the_wire_witness:
  "fst (sample_read get_bytes (snd (sample_read post_bytes (new_recorder, []))))
     = Inr (Async_write (fst (generate_response rev
         (typed_response 200 (meme_json ''cat.jpg'' ''So much'' ''proof!'') ''application/json''))))"
proof -
  obtain out w where post: "sample_read post_bytes (new_recorder, []) = (out, w)" by (metis surj_pair)
  obtain out' rec' db' where get: "sample_read get_bytes w = (out', rec', db')" by (metis prod_cases3)
  have "env_sqlite sample_env = engine" "env_uuid sample_env = zero_id"
    by (simp_all add: sample_env_def)
  then show ?thesis
    using meme_over_the_wire [OF local_port_tokens local_port_registered enumerates_rev
        enumerates_rev local_port_meme list_engine.meme_sql_axioms empty_table_ok [of 0] _ _ _
        zero_id_ok _ sample_bytes(3-5) sample_body_check post_bytes_def get_bytes_def
        sample_bytes(1,2) _ _ post get] post get
    by simp
qed

end
