(* ===== verification/Proxy_Chain.thy ===== *)
theory Proxy_Chain
  imports Session_Claims
begin

text \<open>
  Two instances of the program, the proxy of one in front of the other: the network parameter of
  the reverse proxy is instantiated with what a session of this server writes for the bytes it
  receives. So the text the proxy sends is parsed by the constructor of a request, routed and
  answered, and the serialised response is read back by the proxy.

  The properties say what the other server is asked for and what comes back; that the path asked
  for ends with a slash keeps files from coming through, but for requests whose target has two
  question marks.
\<close>

section \<open>The other server as a network\<close>

text \<open>
  What a session of the server with router \<open>rt\<close> writes for the text, of which it reads
  \<open>max_length\<close> bytes, and of which \<open>seen\<close> bytes arrive first; a fault closes the connection.
\<close>

definition served_by ::
  "header_order \<Rightarrow> map_order \<Rightarrow> 'db environment \<Rightarrow> router \<Rightarrow> string \<Rightarrow> string \<Rightarrow> session \<Rightarrow>
     recorder \<times> 'db \<Rightarrow> nat \<Rightarrow> network" where
  "served_by hord ord env rt past behind s w seen host port text =
     (let bytes = take max_length text in
      case fst (handle_read hord (route_request ord hord (run_handler env) rt) past behind
             (received bytes s) False (length bytes) w) of
        Inr (Async_write out) \<Rightarrow> Net_data out seen
      | _ \<Rightarrow> Net_error)"

text \<open>The proxy's request is one the other server reads back.\<close>

lemma proxy_request_is_text:
  "proxy_request_text host path = request_text ''GET'' path (CHR ''1'') (CHR ''1'')
     [(''Host'', host), (''Accept'', ''*/*''), (''Content-Base'', host), (''Connection'', ''close'')] []"
  by (simp add: proxy_request_text_def request_text_def request_line_def header_line_def)

text \<open>The path the proxy asks for begins and ends with a slash.\<close>

lemma c_string_id: "nul \<notin> set s \<Longrightarrow> c_string s = s"
  by (simp add: c_string_plain)

lemma last_dropWhile:
  "s \<noteq> [] \<Longrightarrow> \<not> P (last s) \<Longrightarrow> dropWhile P s \<noteq> [] \<and> last (dropWhile P s) = last s"
  by (induction s) auto

lemma proxied_path:
  assumes "host_and_path h uri = Inr (host, path)" and "nul \<notin> set uri"
  shows "path \<noteq> []" "hd path = CHR ''/''" "last path = CHR ''/''"
    "set path \<subseteq> insert (CHR ''/'') (set uri)"
proof -
  define u where "u = (if last (tl uri) \<noteq> CHR ''/'' then tl uri @ ''/'' else tl uri)"
  have uri: "uri \<noteq> []" "tl uri \<noteq> []"
    using assms(1) by (auto simp: host_and_path_def split: if_splits)
  then have u: "u \<noteq> []" "last u = CHR ''/''" "set u \<subseteq> insert (CHR ''/'') (set uri)" "nul \<notin> set u"
    using assms(2) by (auto simp: u_def dest: list.set_sel(2) [rotated] split: if_splits)
  then have d: "dropWhile (\<lambda>c. c \<noteq> CHR ''/'') u \<noteq> []"
      "last (dropWhile (\<lambda>c. c \<noteq> CHR ''/'') u) = CHR ''/''"
    using last_dropWhile [of u "\<lambda>c. c \<noteq> CHR ''/''"] by auto
  have "path = c_string (dropWhile (\<lambda>c. c \<noteq> CHR ''/'') u)"
    using assms(1) uri
    by (auto simp: host_and_path_def Let_def u_def split: if_splits option.splits)
  then have path: "path = dropWhile (\<lambda>c. c \<noteq> CHR ''/'') u"
    using u(4) c_string_id set_dropWhileD [of nul _ u] by metis
  show "path \<noteq> []" "last path = CHR ''/''" using d path by simp_all
  show "hd path = CHR ''/''" using d path hd_dropWhile by blast
  show "set path \<subseteq> insert (CHR ''/'') (set uri)" using u(3) path by (auto dest: set_dropWhileD)
qed

lemma known_status_small: "umap_find response_codes sc \<noteq> None \<Longrightarrow> sc \<le> 4294967295"
  by (auto simp: response_codes_def umap_find_def split: if_splits)

text \<open>A request the other server takes for valid, and routes: its response comes through.\<close>

lemma answered_through:
  assumes "create_proxy_handler (Some b) root = Inr h" and "port_num h = Some p"
    and "host_and_path h (req_uri req) = Inr (host, path)"
    and "req_valid (new_request (proxy_request_text host path))"
    and "length (proxy_request_text host path) \<le> max_length" and "nul \<in> set past"
    and "enumerates hord"
    and "route_request ord hord (run_handler env) rt (new_request (proxy_request_text host path)) w
      = (Inr r, w')"
    and "length (generate_status_line r) \<le> seen" and "response_headers r \<noteq> []"
    and "\<forall>x \<in> set (response_headers r). header_ok x \<and> CHR '':'' \<notin> set (fst x)"
    and "status_code r \<notin> {301, 302}"
  shows "\<exists>resp. proxy_request (served_by hord ord env rt past behind' s w seen) behind (Some b) root req
      = Inr resp
    \<and> status_code resp = 200 \<and> response_body resp = response_body r"
proof -
  let ?text = "proxy_request_text host path"
  have served: "served_ok r"
    using dispatcher.route_request_served [of ord hord env rt "new_request ?text" w] assms(8) by simp
  have "handle_read hord (route_request ord hord (run_handler env) rt) past behind'
      (received ?text s) False (length ?text) w
    = (Inr (session_write hord r), w')"
    using read_valid [where route = "route_request ord hord (run_handler env) rt", OF assms(6,4,8)]
    by simp
  then have "served_by hord ord env rt past behind' s w seen host (int_string p) ?text
      = Net_data (fst (generate_response hord r)) seen"
    using assms(5) by (simp add: served_by_def session_write_def)
  from relayed_own [where net = "served_by hord ord env rt past behind' s w seen" and behind = behind,
      OF assms(1-3) this assms(9,7,10,11) _ assms(12)]
  show ?thesis
    using served known_status_small by (auto simp: served_ok_def)
qed

lemma chained:
  assumes "create_proxy_handler (Some b) root = Inr h" and "port_num h = Some p"
    and "host_and_path h (req_uri req) = Inr (host, path)"
    and "line_text (req_uri req)" and "CHR ''?'' \<notin> set (req_uri req)" and "nul \<notin> set (req_uri req)"
    and "length (proxy_request_text host path) \<le> max_length" and "nul \<in> set past"
    and "enumerates hord"
    and "route_request ord hord (run_handler env) rt (new_request (proxy_request_text host path)) w
      = (Inr r, w')"
    and "length (generate_status_line r) \<le> seen" and "response_headers r \<noteq> []"
    and "\<forall>x \<in> set (response_headers r). header_ok x \<and> CHR '':'' \<notin> set (fst x)"
    and "status_code r \<notin> {301, 302}"
  shows "req_method (new_request (proxy_request_text host path)) = ''GET''
    \<and> req_uri (new_request (proxy_request_text host path)) = path
    \<and> (\<exists>resp. proxy_request (served_by hord ord env rt past behind' s w seen) behind (Some b) root req
          = Inr resp
        \<and> status_code resp = 200 \<and> response_body resp = response_body r)"
proof -
  note q = proxied_path [OF assms(3,6)]
  have line: "line_text path" "CHR ''?'' \<notin> set path"
    using q(1,4) assms(4,5) by (auto simp: line_text_def)
  note f = request_text_fields [OF GET_word line one_digit one_digit, of
      "[(''Host'', host), (''Accept'', ''*/*''), (''Content-Base'', host), (''Connection'', ''close'')]"
      "[]", folded proxy_request_is_text]
  show ?thesis
    using answered_through [OF assms(1-3) f(1) assms(7-14)] f(2,3) by blast
qed

text \<open>A question mark in the path: the other server takes what is before the last one.\<close>

lemma request_query_fields:
  assumes "line_text u" and "line_text (u @ CHR ''?'' # q)" and "CHR ''?'' \<notin> set q"
  shows "req_valid (new_request (request_text ''GET'' (u @ CHR ''?'' # q) (CHR ''1'') (CHR ''1'') hs body))"
    "req_method (new_request (request_text ''GET'' (u @ CHR ''?'' # q) (CHR ''1'') (CHR ''1'') hs body))
      = ''GET''"
    "req_uri (new_request (request_text ''GET'' (u @ CHR ''?'' # q) (CHR ''1'') (CHR ''1'') hs body)) = u"
proof -
  have "\<forall>c \<in> set q. line_char c" using assms(2) by (auto simp: line_text_def)
  then have "regex_search query_split_rx (u @ CHR ''?'' # q) = Some [(2, q), (1, u)]"
    by (rule query_split_last [OF assms(1) _ assms(3)])
  then show
    "req_valid (new_request (request_text ''GET'' (u @ CHR ''?'' # q) (CHR ''1'') (CHR ''1'') hs body))"
    "req_method (new_request (request_text ''GET'' (u @ CHR ''?'' # q) (CHR ''1'') (CHR ''1'') hs body))
      = ''GET''"
    "req_uri (new_request (request_text ''GET'' (u @ CHR ''?'' # q) (CHR ''1'') (CHR ''1'') hs body)) = u"
    by (simp_all add: new_request_text [OF GET_word assms(2) one_digit one_digit] parse_query_string_def)
qed

lemma mime_header_ok: "header_ok (''Content-Type'', get_mime_type ext)"
  by (auto simp: header_ok_def line_text_def no_separator_def sublist_Cons_right get_mime_type_def
      mime_types_def umap_find_def split: option.splits if_splits)

lemma typed_headers: "response_headers (typed_response sc body mime) = [(''Content-Type'', mime)]"
  by (simp add: typed_response_def set_header_def umap_insert_def umap_find_def new_response_def)

section \<open>Properties\<close>

text \<open>
  C19. The proxy in front of another instance of this server. A request for a URI without
  question mark and line breaks, whose first segment the proxy has a host for, is passed on as a
  text of at most 1024 bytes; the other instance takes it for a GET request of exactly the path
  the proxy computed. If its router answers with a response that has headers, the headers being
  well formed, and that is no redirection, then the client gets that response's body, always
  with status 200.
\<close>

theorem chained_servers:
  assumes "create_proxy_handler (Some b) root = Inr h" and "port_num h = Some p"
    and "host_and_path h (req_uri req) = Inr (host, path)"
    and "line_text (req_uri req)" and "CHR ''?'' \<notin> set (req_uri req)" and "nul \<notin> set (req_uri req)"
    and "length (proxy_request_text host path) \<le> max_length" and "nul \<in> set past"
    and "enumerates hord"
    and "route_request ord hord (run_handler env) rt (new_request (proxy_request_text host path)) w
      = (Inr r, w')"
    and "length (generate_status_line r) \<le> seen" and "response_headers r \<noteq> []"
    and "\<forall>x \<in> set (response_headers r). header_ok x \<and> CHR '':'' \<notin> set (fst x)"
    and "status_code r \<notin> {301, 302}"
  shows "req_method (new_request (proxy_request_text host path)) = ''GET''
    \<and> req_uri (new_request (proxy_request_text host path)) = path
    \<and> (\<exists>resp. proxy_request (served_by hord ord env rt past behind' s w seen) behind (Some b) root req
          = Inr resp
        \<and> status_code resp = 200 \<and> response_body resp = response_body r)"
  using assms by (rule chained)

text \<open>A URI that ends in a slash names no file.\<close>

lemma slash_names_no_file:
  assumes "last u = CHR ''/''"
  shows "\<not> names_file u n e"
proof
  assume "names_file u n e"
  then obtain p where u: "u = p @ ''/'' @ n @ ''.'' @ e" and e: "word_text e"
    by (auto simp: names_file_def)
  then have "e \<noteq> []" "is_word (last e)" by (auto simp: word_text_def)
  then show False using assms is_word_not(4) by (simp add: u)
qed

lemma routed_static_slash:
  assumes "list_all tokens_ok config"
    and "register_routes_from_config (new_router config root, rec0) = Inr (True, rt, rec1)"
    and "enumerates ord" and "enumerates hord"
    and "spec_handler config (req_uri req) \<in> {''static1'', ''static2'', ''webMeme'', ''imageMeme''}"
    and "last_block None (handler_blocks (spec_handler config (req_uri req)) config) = Some c"
    and "req_method req = ''GET''" and "last (req_uri req) = CHR ''/''"
  shows "route_request ord hord (run_handler env) rt req (rec, db)
    = (Inr file_not_found, request_recorder (req_uri req) 404 rec, db)"
proof -
  have reg: "registered config root rec0 rt rec1" using assms(2) by (simp add: registered_def)
  have sel: "spec_route config (req_uri req) = (Static_file_handler, Some c)"
    using assms(5,6) by (auto simp: spec_route_def handler_class_of_def)
  have "parse_file_info (req_uri req) = []"
    using parse_file_info_miss slash_names_no_file [OF assms(8)] by blast
  then have "run_handler env Static_file_handler (Some c) root req (rec, db)
      = (Inr file_not_found, rec, db)"
    using assms(7)
    by (simp add: run_handler_def create_static_handler_def get_static_file_path_def
        config_statements_def static_handle_request_def serve_file_def)
  from routed [OF assms(1) reg assms(3) sel this, where hord = hord] show ?thesis
    using assms(4) by (simp add: file_not_found_def)
qed

text \<open>
  C20. For a request object whose URI has no question mark, no file comes through the proxy. The
  path the proxy asks for then ends with a slash, and
  a file is only found under a path that ends with its name and extension: for every such URI that
  the proxy passes on and the other instance routes to a static file handler, whatever files it
  has, the client gets status 200 and the body of the other instance's 404 page.
\<close>

theorem no_file_through_proxy:
  assumes "create_proxy_handler (Some b) root = Inr h" and "port_num h = Some p"
    and "host_and_path h (req_uri req) = Inr (host, path)"
    and "line_text (req_uri req)" and "CHR ''?'' \<notin> set (req_uri req)" and "nul \<notin> set (req_uri req)"
    and "length (proxy_request_text host path) \<le> max_length" and "nul \<in> set past"
    and "list_all tokens_ok config"
    and "register_routes_from_config (new_router config root', rec0) = Inr (True, rt, rec1)"
    and "enumerates ord" and "enumerates hord"
    and "spec_handler config path \<in> {''static1'', ''static2'', ''webMeme'', ''imageMeme''}"
    and "last_block None (handler_blocks (spec_handler config path) config) = Some c"
    and "length (generate_status_line file_not_found) \<le> seen"
  shows "\<exists>resp. proxy_request (served_by hord ord env rt past behind' s (rec, db) seen) behind (Some b)
      root req = Inr resp
    \<and> status_code resp = 200
    \<and> response_body resp = ''The requested file could not be found!'' @ [lf]"
proof -
  let ?req = "new_request (proxy_request_text host path)"
  note q = proxied_path [OF assms(3,6)]
  have line: "line_text path" "CHR ''?'' \<notin> set path"
    using q(1,4) assms(4,5) by (auto simp: line_text_def)
  note f = request_text_fields [OF GET_word line one_digit one_digit, of
      "[(''Host'', host), (''Accept'', ''*/*''), (''Content-Base'', host), (''Connection'', ''close'')]"
      "[]", folded proxy_request_is_text]
  have r: "route_request ord hord (run_handler env) rt ?req (rec, db)
      = (Inr file_not_found, request_recorder path 404 rec, db)"
    using routed_static_slash [OF assms(9-12), of ?req c env rec db] assms(13,14) f(2,3) q(3) by simp
  have h: "response_headers file_not_found = [(''Content-Type'', ''text/plain'')]"
      "status_code file_not_found = 404"
      "response_body file_not_found = ''The requested file could not be found!'' @ [lf]"
    by (simp_all add: file_not_found_def typed_response_def set_header_def umap_insert_def
        umap_find_def new_response_def)
  have "header_ok (''Content-Type'', ''text/plain'')"
    by (simp add: header_ok_def line_text_def no_separator_def sublist_Cons_right)
  then show ?thesis
    using chained [OF assms(1-8,12) r assms(15), where behind' = behind' and s = s and behind = behind] h by simp
qed

lemma no_file_through_proxy_witness:
  "env_files sample_env ''/srv/x/b.txt'' = Some ''hello''
    \<and> (\<exists>resp. proxy_request
         (served_by rev rev sample_env sample_router [nul] [] \<lparr>session_data = [], ip_addr = []\<rparr>
            (new_recorder, []) 100)
         [] (Some ucla_config) [] (meme_req ''GET'' ''/ucla/a/b.txt'' []) = Inr resp
       \<and> status_code resp = 200
       \<and> response_body resp = ''The requested file could not be found!'' @ [lf])"
proof -
  have host: "host_and_path ucla_handler ''/ucla/a/b.txt'' = Inr (''ucla.edu'', ''/a/b.txt/'')"
    by (simp add: host_and_path_def ucla_handler_def umap_find_def c_string_def)
  have sel: "spec_handler sample_config ''/a/b.txt/'' = ''static1''" by code_simp
  have len: "length (proxy_request_text ''ucla.edu'' ''/a/b.txt/'') \<le> max_length"
    by (simp add: proxy_request_text_def max_length_def)
  have line: "length (generate_status_line file_not_found) \<le> 100" by code_simp
  have "env_files sample_env ''/srv/x/b.txt'' = Some ''hello''" by (simp add: sample_env_def)
  then show ?thesis
    using no_file_through_proxy [where env = sample_env and behind = "[]" and behind' = "[]"
        and s = "\<lparr>session_data = [], ip_addr = []\<rparr>" and rec = new_recorder and db = "[]",
        OF ucla_created, of 80 "meme_req ''GET'' ''/ucla/a/b.txt'' []"
        "''ucla.edu''" "''/a/b.txt/''" "[nul]", OF _ _ _ _ _ len _ sample_config_ok
        sample_router_made enumerates_rev enumerates_rev _ _ line,
        of "[Statement [''location'', ''/a''] None, Statement [''root'', ''/x''] None]"]
      host sel sample_route(2)
    by (simp add: ucla_handler_def line_text_def)
qed

text \<open>
  C39. With two question marks in the request's target, a file does come through the proxy. The
  constructor of a request cuts the target at the last question mark, so the URI of the request
  object keeps the first; the slash the proxy appends ends up behind that, and the
  other instance cuts it off with the rest. If the path before it names a file of one of the
  other instance's static file handlers, the client gets status 200 and the file.
\<close>

theorem file_through_proxy:
  assumes "create_proxy_handler (Some b) root = Inr h" and "port_num h = Some p"
    and "req = new_request (request_text ''GET'' (uri @ CHR ''?'' # z) (CHR ''1'') (CHR ''1'') hs body)"
    and "line_text uri" and "line_text (uri @ CHR ''?'' # z)" and "CHR ''?'' \<notin> set z" and "nul \<notin> set uri"
    and "host_and_path h uri = Inr (host, u @ CHR ''?'' # q)" and "u \<noteq> []" and "CHR ''?'' \<notin> set q"
    and "length (proxy_request_text host (u @ CHR ''?'' # q)) \<le> max_length" and "nul \<in> set past"
    and "list_all tokens_ok config"
    and "register_routes_from_config (new_router config root', rec0) = Inr (True, rt, rec1)"
    and "enumerates ord" and "enumerates hord"
    and "spec_handler config u = name" and "name \<in> {''static1'', ''static2'', ''webMeme'', ''imageMeme''}"
    and "last_block None (handler_blocks name config) = Some c"
    and "names_file u n e"
    and "env_files env (root' @ root_statement [] c @ ''/'' @ n @ ''.'' @ e) = Some contents"
    and "length (generate_status_line (typed_response 200 contents (get_mime_type (''.'' @ e)))) \<le> seen"
  shows "req_uri req = uri
    \<and> (\<exists>resp. proxy_request (served_by hord ord env rt past behind' s (rec, db) seen) behind (Some b)
          root req = Inr resp
        \<and> status_code resp = 200 \<and> response_body resp = contents)"
proof -
  let ?path = "u @ CHR ''?'' # q" and ?r = "typed_response 200 contents (get_mime_type (''.'' @ e))"
  let ?req = "new_request (proxy_request_text host ?path)"
  have uri: "req_uri req = uri" unfolding assms(3) by (rule request_query_fields [OF assms(4-6)])
  have chars: "set ?path \<subseteq> insert (CHR ''/'') (set uri)" by (rule proxied_path(4) [OF assms(8,7)])
  then have line: "line_text ?path" "line_text u"
    using assms(4,9) by (auto simp: line_text_def)
  note f = request_query_fields [OF line(2,1) assms(10), of
      "[(''Host'', host), (''Accept'', ''*/*''), (''Content-Base'', host), (''Connection'', ''close'')]"
      "[]", folded proxy_request_is_text]
  have r: "route_request ord hord (run_handler env) rt ?req (rec, db)
      = (Inr ?r, request_recorder u 200 rec, db)"
    using routed_static [OF assms(13-16), of ?req name c n e env contents rec db] assms(17-21) f(2,3)
    by simp
  have "\<exists>resp. proxy_request (served_by hord ord env rt past behind' s (rec, db) seen) behind (Some b)
      root req = Inr resp
    \<and> status_code resp = 200 \<and> response_body resp = response_body ?r"
    using answered_through [OF assms(1,2) _ f(1) assms(11,12,16) r assms(22)] uri assms(8)
    by (simp add: typed_headers mime_header_ok)
  then show ?thesis using uri by simp
qed

text \<open>The file of the witness above, with \<open>?x?y\<close> behind its path.\<close>

lemma file_through_proxy_witness:
  "\<exists>resp. proxy_request
      (served_by rev rev sample_env sample_router [nul] [] \<lparr>session_data = [], ip_addr = []\<rparr>
         (new_recorder, []) 100)
      [] (Some ucla_config) []
      (new_request (request_text ''GET'' (''/ucla/a/b.txt?x'' @ CHR ''?'' # ''y'') (CHR ''1'') (CHR ''1'') [] []))
      = Inr resp
    \<and> status_code resp = 200 \<and> response_body resp = ''hello''"
proof -
  have host: "host_and_path ucla_handler ''/ucla/a/b.txt?x'' = Inr (''ucla.edu'', ''/a/b.txt'' @ CHR ''?'' # ''x/'')"
    by (simp add: host_and_path_def ucla_handler_def umap_find_def c_string_def)
  have len: "length (proxy_request_text ''ucla.edu'' (''/a/b.txt'' @ CHR ''?'' # ''x/'')) \<le> max_length"
    by (simp add: proxy_request_text_def max_length_def)
  have line: "length (generate_status_line (typed_response 200 ''hello'' (get_mime_type (''.'' @ ''txt'')))) \<le> 100"
    by code_simp
  have "names_file ''/a/b.txt'' ''b'' ''txt''"
    unfolding names_file_def
    by (auto simp: word_text_def is_word_def is_lower_def less_eq_char_def intro: exI [of _ "''/a''"])
  moreover have "env_files sample_env (''/srv'' @ root_statement []
      [Statement [''location'', ''/a''] None, Statement [''root'', ''/x''] None] @ ''/'' @ ''b'' @ ''.'' @ ''txt'')
    = Some ''hello''" by (simp add: sample_env_def)
  ultimately show ?thesis
    using file_through_proxy [where n = "''b''" and env = sample_env and hs = "[]" and body = "[]" and behind = "[]" and behind' = "[]"
        and s = "\<lparr>session_data = [], ip_addr = []\<rparr>" and rec = new_recorder and db = "[]",
        OF ucla_created _ refl _ _ _ _ host _ _ len _ sample_config_ok sample_router_made
        enumerates_rev enumerates_rev sample_route(1) _ sample_route(2) _ _ line, of 80 "''y''" "[nul]"]
    by (simp add: ucla_handler_def line_text_def)
qed

lemma chained_servers_witness:
  "\<exists>resp. proxy_request
      (served_by rev rev sample_env sample_router [nul] [] \<lparr>session_data = [], ip_addr = []\<rparr>
         (new_recorder, []) 100)
      [] (Some ucla_config) [] (meme_req ''GET'' ''/ucla/none'' []) = Inr resp
    \<and> status_code resp = 200
    \<and> response_body resp = ''The requested resource at /none/ could not be found!''"
proof -
  let ?req = "new_request (proxy_request_text ''ucla.edu'' ''/none/'')"
  have host: "host_and_path ucla_handler ''/ucla/none'' = Inr (''ucla.edu'', ''/none/'')"
    by (simp add: host_and_path_def ucla_handler_def umap_find_def c_string_def)
  have len: "length (proxy_request_text ''ucla.edu'' ''/none/'') \<le> max_length"
    by (simp add: proxy_request_text_def max_length_def)
  have uri: "req_uri ?req = ''/none/''" by code_simp
  have reg: "registered sample_config ''/srv'' new_recorder sample_router
      (snd (register_all (config_locations sample_config)
         (new_router sample_config ''/srv'', new_recorder)))"
    using sample_router_made by (simp add: registered_def)
  have "spec_route sample_config ''/none/'' = (Default_handler, None)" by code_simp
  then have r: "route_request rev rev (run_handler sample_env) sample_router ?req (new_recorder, [])
      = (Inr (generate_404_response ?req), request_recorder ''/none/'' 404 new_recorder, [])"
    using routed [OF sample_config_ok reg enumerates_rev, of ?req Default_handler None sample_env
        new_recorder "[]" "generate_404_response ?req" "[]" rev] uri
    by (simp add: run_handler_def default_handle_request_def generate_404_response_def)
  have g: "generate_404_response ?req
      = typed_response 404 ''The requested resource at /none/ could not be found!'' ''text/plain''"
    using uri by (simp add: generate_404_response_def)
  have line: "length (generate_status_line (generate_404_response ?req)) \<le> 100"
    unfolding g by code_simp
  have h: "response_headers (generate_404_response ?req) = [(''Content-Type'', ''text/plain'')]"
      "response_body (generate_404_response ?req)
        = ''The requested resource at /none/ could not be found!''"
      "status_code (generate_404_response ?req) = 404"
    unfolding g by (simp_all add: typed_response_def set_header_def umap_insert_def
        umap_find_def new_response_def)
  have "header_ok (''Content-Type'', ''text/plain'')"
    by (simp add: header_ok_def line_text_def no_separator_def sublist_Cons_right)
  then show ?thesis
    using chained_servers [OF ucla_created _ _ _ _ _ len _ enumerates_rev r line,
        of 80 "meme_req ''GET'' ''/ucla/none'' []" "[nul]"] host h
    by (simp add: ucla_handler_def line_text_def)
qed

end
