(* ===== verification/Concurrent_Routing.thy ===== *)
theory Concurrent_Routing
  imports Handlers "HOL-Library.Multiset"
begin

text \<open>
  Several threads in \<open>router::route_request\<close> of \<open>src/router.cc\<close> at once. A step of a thread is
  one of the sections the code makes atomic with a lock, or the work of a handler in between:
  the handler is selected, it answers, the request is recorded, the log line looks the route up
  again, the default headers are set. The status handler of \<open>src/status_handler.cc\<close> reads the
  recorder three times, each under its own lock, so other threads may record in between.

  The routes are registered before a thread serves, so the router does not change. Each step may
  find another environment. The steps inside one request to the database are the subject of
  theory Meme_Views.
\<close>

section \<open>Threads\<close>

datatype serving =
    Arrived request
  | Selected handler_class "block option" request
  | Counted int request
  | Listed int "(string \<times> nat) list" request
  | Handled handler_class request response
  | Recorded handler_class request response
  | Answered handler_class request response
  | Failed fault

type_synonym 'db pool = "serving list \<times> recorder \<times> 'db"

inductive serve_step :: "map_order \<Rightarrow> map_order \<Rightarrow> router \<Rightarrow> 'db pool \<Rightarrow> 'db pool \<Rightarrow> bool"
  for ord hord rt where
  selected:
    "i < length ts \<Longrightarrow> ts ! i = Arrived req \<Longrightarrow>
     select_handler ord rt (req_uri req) = Inr (cls, c) \<Longrightarrow>
     serve_step ord hord rt (ts, rec, db) (ts[i := Selected cls c req], rec, db)"
| select_failed:
    "i < length ts \<Longrightarrow> ts ! i = Arrived req \<Longrightarrow>
     select_handler ord rt (req_uri req) = Inl e \<Longrightarrow>
     serve_step ord hord rt (ts, rec, db) (ts[i := Failed e], rec, db)"
| handled:
    "i < length ts \<Longrightarrow> ts ! i = Selected cls c req \<Longrightarrow> cls \<noteq> Status_handler \<Longrightarrow>
     run_handler env cls c (server_root rt) req (rec, db) = (Inr resp, rec', db') \<Longrightarrow>
     serve_step ord hord rt (ts, rec, db) (ts[i := Handled cls req resp], rec', db')"
| handler_failed:
    "i < length ts \<Longrightarrow> ts ! i = Selected cls c req \<Longrightarrow> cls \<noteq> Status_handler \<Longrightarrow>
     run_handler env cls c (server_root rt) req (rec, db) = (Inl e, rec', db') \<Longrightarrow>
     serve_step ord hord rt (ts, rec, db) (ts[i := Failed e], rec', db')"
| status_counted:
    "i < length ts \<Longrightarrow> ts ! i = Selected Status_handler c req \<Longrightarrow>
     0 \<le> get_url_response_list_size rec \<Longrightarrow>
     serve_step ord hord rt (ts, rec, db)
       (ts[i := Counted (get_url_response_list_size rec) req], rec, db)"
| status_exits:
    "i < length ts \<Longrightarrow> ts ! i = Selected Status_handler c req \<Longrightarrow>
     get_url_response_list_size rec < 0 \<Longrightarrow>
     serve_step ord hord rt (ts, rec, db) (ts[i := Failed (Exit_process 1)], rec, db)"
| status_listed:
    "i < length ts \<Longrightarrow> ts ! i = Counted n req \<Longrightarrow>
     serve_step ord hord rt (ts, rec, db)
       (ts[i := Listed n (get_url_response_list rec) req], rec, db)"
| status_made:
    "i < length ts \<Longrightarrow> ts ! i = Listed n urls req \<Longrightarrow>
     serve_step ord hord rt (ts, rec, db)
       (ts[i := Handled Status_handler req (generate_status_response req
                  (status_page n urls (get_prefix_handler_list rec)))], rec, db)"
| recorded:
    "i < length ts \<Longrightarrow> ts ! i = Handled cls req resp \<Longrightarrow>
     serve_step ord hord rt (ts, rec, db)
       (ts[i := Recorded cls req resp],
        request_recorder (req_uri req) (status_code resp) rec, db)"
| answered:
    "i < length ts \<Longrightarrow> ts ! i = Recorded cls req resp \<Longrightarrow>
     get_route_handler rt (longest_prefix_match ord rt (req_uri req)) = Inr h \<Longrightarrow>
     serve_step ord hord rt (ts, rec, db)
       (ts[i := Answered cls req (apply_default_headers hord rt resp)], rec, db)"
| log_failed:
    "i < length ts \<Longrightarrow> ts ! i = Recorded cls req resp \<Longrightarrow>
     get_route_handler rt (longest_prefix_match ord rt (req_uri req)) = Inl e \<Longrightarrow>
     serve_step ord hord rt (ts, rec, db) (ts[i := Failed e], rec, db)"

section \<open>What a thread has recorded\<close>

fun entry :: "serving \<Rightarrow> (string \<times> nat) list" where
  "entry (Recorded cls req resp) = [(req_uri req, status_code resp)]"
| "entry (Answered cls req resp) = [(req_uri req, status_code resp)]"
| "entry _ = []"

definition entries :: "serving list \<Rightarrow> (string \<times> nat) multiset" where
  "entries ts = mset (concat (map entry ts))"

lemma entries_update:
  "i < length ts \<Longrightarrow> entries (ts[i := t]) + mset (entry (ts ! i)) = entries ts + mset (entry t)"
proof (induction ts arbitrary: i)
  case (Cons u ts)
  show ?case
  proof (cases i)
    case (Suc j)
    then have "entries (ts[j := t]) + mset (entry (ts ! j)) = entries ts + mset (entry t)"
      using Cons.IH [of j] Cons.prems by simp
    then show ?thesis by (simp add: Suc entries_def)
  qed (simp add: entries_def)
qed simp

lemma default_headers_keep [simp]:
  "status_code (apply_default_headers hord rt resp) = status_code resp"
  "response_body (apply_default_headers hord rt resp) = response_body resp"
proof -
  have "status_code (fold (\<lambda>h. set_header (fst h) (snd h)) hs resp) = status_code resp
      \<and> response_body (fold (\<lambda>h. set_header (fst h) (snd h)) hs resp) = response_body resp" for hs
    by (induction hs arbitrary: resp) simp_all
  then show "status_code (apply_default_headers hord rt resp) = status_code resp"
      "response_body (apply_default_headers hord rt resp) = response_body resp"
    by (simp_all add: apply_default_headers_def)
qed

section \<open>The invariant\<close>

text \<open>
  A page of the status handler that was begun when \<open>ns\<close> was recorded and lists \<open>urls\<close>: the list
  only grew in between, from what there was at the start and to what there is now.
\<close>

definition page_lists ::
  "(string \<times> nat) list \<Rightarrow> (string \<times> nat) list \<Rightarrow> int \<Rightarrow> (string \<times> nat) list \<Rightarrow> bool" where
  "page_lists start now n urls \<longleftrightarrow>
     (\<exists>ns. prefix start ns \<and> prefix ns urls \<and> prefix urls now \<and> n = to_int (int (length ns)))"

definition page_ok ::
  "recorder \<Rightarrow> (string \<times> nat) list \<Rightarrow> response \<Rightarrow> bool" where
  "page_ok rec0 now resp \<longleftrightarrow>
     (\<exists>n urls. page_lists (url_response_list rec0) now n urls \<and> status_code resp = 200
        \<and> response_body resp = status_page n urls (prefix_handler_list rec0))"

fun thread_ok :: "recorder \<Rightarrow> (string \<times> nat) list \<Rightarrow> serving \<Rightarrow> bool" where
  "thread_ok rec0 now (Counted n req) \<longleftrightarrow>
     (\<exists>urls. page_lists (url_response_list rec0) now n urls)"
| "thread_ok rec0 now (Listed n urls req) \<longleftrightarrow> page_lists (url_response_list rec0) now n urls"
| "thread_ok rec0 now (Handled cls req resp) \<longleftrightarrow> (cls = Status_handler \<longrightarrow> page_ok rec0 now resp)"
| "thread_ok rec0 now (Recorded cls req resp) \<longleftrightarrow> (cls = Status_handler \<longrightarrow> page_ok rec0 now resp)"
| "thread_ok rec0 now (Answered cls req resp) \<longleftrightarrow> (cls = Status_handler \<longrightarrow> page_ok rec0 now resp)"
| "thread_ok rec0 now _ \<longleftrightarrow> True"

definition pool_inv :: "recorder \<Rightarrow> 'db pool \<Rightarrow> bool" where
  "pool_inv rec0 st \<longleftrightarrow>
     (case st of (ts, rec, db) \<Rightarrow>
        mset (url_response_list rec) = mset (url_response_list rec0) + entries ts
        \<and> prefix (url_response_list rec0) (url_response_list rec)
        \<and> prefix_handler_list rec = prefix_handler_list rec0
        \<and> (\<forall>t \<in> set ts. thread_ok rec0 (url_response_list rec) t))"

lemma page_lists_later:
  "page_lists start now n urls \<Longrightarrow> prefix now later \<Longrightarrow> page_lists start later n urls"
  unfolding page_lists_def by (blast intro: prefix_order.trans)

lemma thread_ok_later:
  "thread_ok rec0 now t \<Longrightarrow> prefix now later \<Longrightarrow> thread_ok rec0 later t"
  by (cases t) (auto simp: page_ok_def dest: page_lists_later)

lemma page_lists_now: "prefix start now \<Longrightarrow> page_lists start now (to_int (int (length now))) now"
  by (auto simp: page_lists_def)

text \<open>A thread that goes on without recording, and one that records.\<close>

lemma pool_inv_quiet:
  assumes "pool_inv rec0 (ts, rec, db)" and "i < length ts" and "entry t = entry (ts ! i)"
    and "thread_ok rec0 (url_response_list rec) t"
  shows "pool_inv rec0 (ts[i := t], rec, db')"
proof -
  have "entries (ts[i := t]) = entries ts" using entries_update [OF assms(2), of t] assms(3) by simp
  then show ?thesis
    using assms set_update_subset_insert [of ts i t] by (auto simp: pool_inv_def)
qed

lemma pool_inv_record:
  assumes "pool_inv rec0 (ts, rec, db)" and "i < length ts" and "ts ! i = Handled cls req resp"
  shows "pool_inv rec0 (ts[i := Recorded cls req resp],
    request_recorder (req_uri req) (status_code resp) rec, db)"
proof -
  let ?now = "url_response_list rec @ [(req_uri req, status_code resp)]"
  have "entries (ts[i := Recorded cls req resp]) = entries ts + {#(req_uri req, status_code resp)#}"
    using entries_update [OF assms(2), of "Recorded cls req resp"] assms(3) by simp
  moreover have "thread_ok rec0 (url_response_list rec) (ts ! i)"
    using assms(1,2) by (simp add: pool_inv_def)
  then have "thread_ok rec0 ?now (Recorded cls req resp)"
    using assms(3) thread_ok_later [of rec0 "url_response_list rec" "Recorded cls req resp" ?now]
    by simp
  moreover have "\<forall>t \<in> set ts. thread_ok rec0 ?now t"
    using assms(1) by (auto simp: pool_inv_def intro: thread_ok_later)
  moreover have "set (ts[i := Recorded cls req resp]) \<subseteq> insert (Recorded cls req resp) (set ts)"
    by (rule set_update_subset_insert)
  ultimately show ?thesis
    using assms(1) unfolding pool_inv_def by (auto simp: request_recorder_def)
qed

lemma select_handler_ok:
  assumes "list_all tokens_ok config" and "registered config root rec rt rec'" and "enumerates ord"
  shows "\<exists>h. get_route_handler rt (longest_prefix_match ord rt uri) = Inr h"
  using listed_handler [OF assms] by blast

lemma pool_inv_step:
  assumes "serve_step ord hord rt st st'" and "pool_inv rec0 st"
    and "list_all tokens_ok config" and "registered config root rec1 rt rec2" and "enumerates ord"
  shows "pool_inv rec0 st'"
  using assms(1)
proof (cases rule: serve_step.cases)
  case (selected i ts req cls c rec db)
  then show ?thesis
    using assms(2) pool_inv_quiet [of rec0 ts rec db i "Selected cls c req" db] by simp
next
  case (select_failed i ts req e rec db)
  then show ?thesis
    using assms(2) pool_inv_quiet [of rec0 ts rec db i "Failed e" db] by simp
next
  case (handled i ts cls c req env rec db resp rec' db')
  then have "rec' = rec" using run_handler_recorder [of env cls c "server_root rt" req "(rec, db)"] by simp
  then show ?thesis
    using assms(2) handled pool_inv_quiet [of rec0 ts rec db i "Handled cls req resp" db'] by simp
next
  case (handler_failed i ts cls c req env rec db e rec' db')
  then have "rec' = rec" using run_handler_recorder [of env cls c "server_root rt" req "(rec, db)"] by simp
  then show ?thesis
    using assms(2) handler_failed pool_inv_quiet [of rec0 ts rec db i "Failed e" db'] by simp
next
  case (status_counted i ts c req rec db)
  have "prefix (url_response_list rec0) (url_response_list rec)"
    using assms(2) status_counted(1) by (simp add: pool_inv_def)
  then have "thread_ok rec0 (url_response_list rec) (Counted (get_url_response_list_size rec) req)"
    using page_lists_now by (auto simp: get_url_response_list_size_def)
  then show ?thesis
    using assms(2) status_counted
      pool_inv_quiet [of rec0 ts rec db i "Counted (get_url_response_list_size rec) req" db] by simp
next
  case (status_exits i ts c req rec db)
  then show ?thesis
    using assms(2) pool_inv_quiet [of rec0 ts rec db i "Failed (Exit_process 1)" db] by simp
next
  case (status_listed i ts n req rec db)
  then have "thread_ok rec0 (url_response_list rec) (Counted n req)"
    using assms(2) nth_mem [of i ts] by (auto simp: pool_inv_def)
  then obtain ns urls where ns: "prefix (url_response_list rec0) ns" "prefix ns urls"
      "prefix urls (url_response_list rec)" "n = to_int (int (length ns))"
    by (auto simp: page_lists_def)
  have "prefix ns (url_response_list rec)" using prefix_order.trans [OF ns(2,3)] .
  then have "thread_ok rec0 (url_response_list rec) (Listed n (get_url_response_list rec) req)"
    using ns(1,4) by (auto simp: page_lists_def get_url_response_list_def)
  then show ?thesis
    using assms(2) status_listed
      pool_inv_quiet [of rec0 ts rec db i "Listed n (get_url_response_list rec) req" db] by simp
next
  case (status_made i ts n urls req rec db)
  let ?t = "Handled Status_handler req (generate_status_response req
    (status_page n urls (get_prefix_handler_list rec)))"
  have "thread_ok rec0 (url_response_list rec) (Listed n urls req)"
      "prefix_handler_list rec = prefix_handler_list rec0"
    using assms(2) status_made nth_mem [of i ts] by (auto simp: pool_inv_def)
  then have "thread_ok rec0 (url_response_list rec) ?t"
    by (auto simp: page_ok_def generate_status_response_def get_prefix_handler_list_def)
  then show ?thesis
    using assms(2) status_made pool_inv_quiet [of rec0 ts rec db i ?t db] by simp
next
  case (recorded i ts cls req resp rec db)
  then show ?thesis using assms(2) pool_inv_record [of rec0 ts rec db i] by simp
next
  case (answered i ts cls req resp h rec db)
  have "thread_ok rec0 (url_response_list rec) (Recorded cls req resp)"
    using assms(2) answered nth_mem [of i ts] by (auto simp: pool_inv_def)
  then have "thread_ok rec0 (url_response_list rec)
      (Answered cls req (apply_default_headers hord rt resp))"
    by (simp add: page_ok_def)
  then show ?thesis
    using assms(2) answered pool_inv_quiet
      [of rec0 ts rec db i "Answered cls req (apply_default_headers hord rt resp)" db] by simp
next
  case (log_failed i ts cls req resp e rec db)
  then show ?thesis using select_handler_ok [OF assms(3-5), of "req_uri req"] by auto
qed

lemma pool_inv_run:
  assumes "(serve_step ord hord rt)\<^sup>*\<^sup>* st st'" and "pool_inv rec0 st"
    and "list_all tokens_ok config" and "registered config root rec1 rt rec2" and "enumerates ord"
  shows "pool_inv rec0 st'"
  using assms(1,2) by (induction rule: rtranclp_induct) (auto intro: pool_inv_step [OF _ _ assms(3-5)])

lemma pool_inv_start: "pool_inv rec0 (map Arrived reqs, rec0, db)"
proof -
  have "concat (map entry (map Arrived reqs)) = []" by (induction reqs) auto
  then show ?thesis by (auto simp: pool_inv_def entries_def)
qed

section \<open>Every thread comes to its end\<close>

fun steps_left :: "serving \<Rightarrow> nat" where
  "steps_left (Arrived req) = 6"
| "steps_left (Selected cls c req) = 5"
| "steps_left (Counted n req) = 4"
| "steps_left (Listed n urls req) = 3"
| "steps_left (Handled cls req resp) = 2"
| "steps_left (Recorded cls req resp) = 1"
| "steps_left _ = 0"

definition pool_left :: "serving list \<Rightarrow> nat" where
  "pool_left ts = sum_list (map steps_left ts)"

lemma pool_left_update:
  "i < length ts \<Longrightarrow> steps_left t < steps_left (ts ! i) \<Longrightarrow> pool_left (ts[i := t]) < pool_left ts"
proof (induction ts arbitrary: i)
  case (Cons u ts)
  then show ?case by (cases i) (auto simp: pool_left_def)
qed simp

lemma serve_step_left: "serve_step ord hord rt st st' \<Longrightarrow> pool_left (fst st') < pool_left (fst st)"
  by (induction rule: serve_step.induct) (simp_all add: pool_left_update)

lemma serve_steps_bounded:
  "(serve_step ord hord rt ^^ n) st st' \<Longrightarrow> n + pool_left (fst st') \<le> pool_left (fst st)"
proof (induction n arbitrary: st')
  case (Suc n)
  then obtain st1 where "(serve_step ord hord rt ^^ n) st st1" "serve_step ord hord rt st1 st'" by auto
  then show ?case using Suc.IH [of st1] serve_step_left [of ord hord rt st1 st'] by simp
qed simp

lemma pool_left_start: "pool_left (map Arrived reqs) = 6 * length reqs"
  by (induction reqs) (simp_all add: pool_left_def)

definition ended :: "serving \<Rightarrow> bool" where
  "ended t \<longleftrightarrow> (case t of Answered cls req resp \<Rightarrow> True | Failed e \<Rightarrow> True | _ \<Rightarrow> False)"

lemma thread_goes_on:
  assumes "i < length ts" and "\<not> ended (ts ! i)"
  shows "\<exists>st'. serve_step ord hord rt (ts, rec, db) st'"
proof (cases "ts ! i")
  case (Arrived req)
  show ?thesis
  proof (cases "select_handler ord rt (req_uri req)")
    case (Inl e)
    show ?thesis by (intro exI) (rule serve_step.select_failed [OF assms(1) Arrived Inl])
  next
    case (Inr sel)
    obtain cls c where "sel = (cls, c)" by (cases sel)
    then have "select_handler ord rt (req_uri req) = Inr (cls, c)" using Inr by simp
    then show ?thesis by (intro exI) (rule serve_step.selected [OF assms(1) Arrived])
  qed
next
  case (Selected cls c req)
  show ?thesis
  proof (cases "cls = Status_handler")
    case True
    then have sel: "ts ! i = Selected Status_handler c req" using Selected by simp
    show ?thesis
    proof (cases "0 \<le> get_url_response_list_size rec")
      case True
      then show ?thesis by (intro exI) (rule serve_step.status_counted [OF assms(1) sel])
    next
      case False
      then have "get_url_response_list_size rec < 0" by simp
      then show ?thesis by (intro exI) (rule serve_step.status_exits [OF assms(1) sel])
    qed
  next
    case False
    obtain r rec' db' where
      r: "run_handler undefined cls c (server_root rt) req (rec, db) = (r, rec', db')"
      by (metis prod_cases3)
    show ?thesis
    proof (cases r)
      case (Inl e)
      show ?thesis
        by (intro exI) (rule serve_step.handler_failed [OF assms(1) Selected False r [unfolded Inl]])
    next
      case (Inr resp)
      show ?thesis
        by (intro exI) (rule serve_step.handled [OF assms(1) Selected False r [unfolded Inr]])
    qed
  qed
next
  case (Counted n req)
  then show ?thesis by (intro exI) (rule serve_step.status_listed [OF assms(1)])
next
  case (Listed n urls req)
  then show ?thesis by (intro exI) (rule serve_step.status_made [OF assms(1)])
next
  case (Handled cls req resp)
  then show ?thesis by (intro exI) (rule serve_step.recorded [OF assms(1)])
next
  case (Recorded cls req resp)
  show ?thesis
  proof (cases "get_route_handler rt (longest_prefix_match ord rt (req_uri req))")
    case (Inl e)
    show ?thesis by (intro exI) (rule serve_step.log_failed [OF assms(1) Recorded Inl])
  next
    case (Inr h)
    show ?thesis by (intro exI) (rule serve_step.answered [OF assms(1) Recorded Inr])
  qed
qed (use assms in \<open>simp_all add: ended_def\<close>)

section \<open>A thread that is not interrupted\<close>

text \<open>The steps of one thread, in a pool where its place is overwritten.\<close>

lemma step_at:
  assumes "i < length ts"
  shows "serve_step ord hord rt (ts[i := Handled cls req resp], rec, db)
      (ts[i := Recorded cls req resp], request_recorder (req_uri req) (status_code resp) rec, db)"
    "get_route_handler rt (longest_prefix_match ord rt (req_uri req)) = Inr h \<Longrightarrow>
      serve_step ord hord rt (ts[i := Recorded cls req resp], rec, db)
        (ts[i := Answered cls req (apply_default_headers hord rt resp)], rec, db)"
    "get_route_handler rt (longest_prefix_match ord rt (req_uri req)) = Inl e \<Longrightarrow>
      serve_step ord hord rt (ts[i := Recorded cls req resp], rec, db) (ts[i := Failed e], rec, db)"
    "0 \<le> get_url_response_list_size rec \<Longrightarrow>
      serve_step ord hord rt (ts[i := Selected Status_handler c req], rec, db)
        (ts[i := Counted (get_url_response_list_size rec) req], rec, db)"
    "get_url_response_list_size rec < 0 \<Longrightarrow>
      serve_step ord hord rt (ts[i := Selected Status_handler c req], rec, db)
        (ts[i := Failed (Exit_process 1)], rec, db)"
    "serve_step ord hord rt (ts[i := Counted n req], rec, db)
      (ts[i := Listed n (get_url_response_list rec) req], rec, db)"
    "serve_step ord hord rt (ts[i := Listed n urls req], rec, db)
      (ts[i := Handled Status_handler req (generate_status_response req
         (status_page n urls (get_prefix_handler_list rec)))], rec, db)"
    "cls \<noteq> Status_handler \<Longrightarrow>
      run_handler env cls c (server_root rt) req (rec, db) = (r, rec', db') \<Longrightarrow>
      serve_step ord hord rt (ts[i := Selected cls c req], rec, db)
        (ts[i := (case r of Inl e \<Rightarrow> Failed e | Inr resp \<Rightarrow> Handled cls req resp)], rec', db')"
proof -
  have i: "i < length (ts[i := u])" "(ts[i := u]) ! i = u" for u using assms by simp_all
  show "serve_step ord hord rt (ts[i := Handled cls req resp], rec, db)
      (ts[i := Recorded cls req resp], request_recorder (req_uri req) (status_code resp) rec, db)"
    using serve_step.recorded [OF i, where ord = ord] by simp
  show "get_route_handler rt (longest_prefix_match ord rt (req_uri req)) = Inr h \<Longrightarrow>
      serve_step ord hord rt (ts[i := Recorded cls req resp], rec, db)
        (ts[i := Answered cls req (apply_default_headers hord rt resp)], rec, db)"
    using serve_step.answered [OF i, where ord = ord] by simp
  show "get_route_handler rt (longest_prefix_match ord rt (req_uri req)) = Inl e \<Longrightarrow>
      serve_step ord hord rt (ts[i := Recorded cls req resp], rec, db) (ts[i := Failed e], rec, db)"
    using serve_step.log_failed [OF i, where ord = ord] by simp
  show "0 \<le> get_url_response_list_size rec \<Longrightarrow>
      serve_step ord hord rt (ts[i := Selected Status_handler c req], rec, db)
        (ts[i := Counted (get_url_response_list_size rec) req], rec, db)"
    using serve_step.status_counted [OF i, where ord = ord] by simp
  show "get_url_response_list_size rec < 0 \<Longrightarrow>
      serve_step ord hord rt (ts[i := Selected Status_handler c req], rec, db)
        (ts[i := Failed (Exit_process 1)], rec, db)"
    using serve_step.status_exits [OF i, where ord = ord] by simp
  show "serve_step ord hord rt (ts[i := Counted n req], rec, db)
      (ts[i := Listed n (get_url_response_list rec) req], rec, db)"
    using serve_step.status_listed [OF i, where ord = ord] by simp
  show "serve_step ord hord rt (ts[i := Listed n urls req], rec, db)
      (ts[i := Handled Status_handler req (generate_status_response req
         (status_page n urls (get_prefix_handler_list rec)))], rec, db)"
    using serve_step.status_made [OF i, where ord = ord] by simp
  show "cls \<noteq> Status_handler \<Longrightarrow>
      run_handler env cls c (server_root rt) req (rec, db) = (r, rec', db') \<Longrightarrow>
      serve_step ord hord rt (ts[i := Selected cls c req], rec, db)
        (ts[i := (case r of Inl e \<Rightarrow> Failed e | Inr resp \<Rightarrow> Handled cls req resp)], rec', db')"
    using serve_step.handled [OF i, where ord = ord] serve_step.handler_failed [OF i, where ord = ord]
    by (cases r) simp_all
qed

lemma run_handler_steps:
  assumes "i < length ts"
    and "run_handler env cls c (server_root rt) req (rec, db) = (r, rec', db')"
  shows "(serve_step ord hord rt)\<^sup>*\<^sup>* (ts[i := Selected cls c req], rec, db)
    (ts[i := (case r of Inl e \<Rightarrow> Failed e | Inr resp \<Rightarrow> Handled cls req resp)], rec', db')"
proof (cases "cls = Status_handler")
  case True
  then have r: "r = status_handle_request rec rec rec req" "rec' = rec" "db' = db"
    using assms(2) by (auto simp: run_handler_def)
  show ?thesis
  proof (cases "0 \<le> get_url_response_list_size rec")
    case False
    then show ?thesis
      using step_at(5) [OF assms(1), of rec ord hord rt c req db] True
      by (simp add: r status_handle_request_def r_into_rtranclp)
  next
    case n: True
    have "(serve_step ord hord rt)\<^sup>*\<^sup>* (ts[i := Selected Status_handler c req], rec, db)
        (ts[i := Handled Status_handler req (generate_status_response req
           (status_page (get_url_response_list_size rec) (get_url_response_list rec)
             (get_prefix_handler_list rec)))], rec, db)"
      by (rule converse_rtranclp_into_rtranclp, rule step_at(4) [OF assms(1) n],
          rule converse_rtranclp_into_rtranclp, rule step_at(6) [OF assms(1)],
          rule r_into_rtranclp, rule step_at(7) [OF assms(1)])
    then show ?thesis using n True by (simp add: r status_handle_request_def)
  qed
next
  case False
  then show ?thesis using step_at(8) [OF assms(1) False assms(2)] by (rule_tac r_into_rtranclp)
qed

text \<open>What \<open>route_request\<close> does in one go is one of the ways the steps can be taken.\<close>

lemma route_request_steps:
  assumes "i < length ts" and "ts ! i = Arrived req"
    and "route_request ord hord (run_handler env) rt req (rec, db) = (r, rec', db')"
  shows "\<exists>t. (serve_step ord hord rt)\<^sup>*\<^sup>* (ts, rec, db) (ts[i := t], rec', db')
    \<and> (case r of Inl e \<Rightarrow> t = Failed e | Inr resp \<Rightarrow> \<exists>cls. t = Answered cls req resp)"
proof (cases "select_handler ord rt (req_uri req)")
  case (Inl e)
  then show ?thesis
    using assms(3) serve_step.select_failed [OF assms(1,2) Inl, of hord rec db]
    by (intro exI [of _ "Failed e"]) (auto simp: route_request_def r_into_rtranclp)
next
  case (Inr sel)
  obtain cls c where "sel = (cls, c)" by (cases sel)
  then have sel: "select_handler ord rt (req_uri req) = Inr (cls, c)" using Inr by simp
  obtain r1 rec1 db1 where run: "run_handler env cls c (server_root rt) req (rec, db) = (r1, rec1, db1)"
    by (metis prod_cases3)
  have start: "(serve_step ord hord rt)\<^sup>*\<^sup>* (ts, rec, db)
      (ts[i := (case r1 of Inl e \<Rightarrow> Failed e | Inr resp \<Rightarrow> Handled cls req resp)], rec1, db1)"
    using serve_step.selected [OF assms(1,2) sel, of hord rec db]
      run_handler_steps [OF assms(1) run, of ord hord]
    by (rule converse_rtranclp_into_rtranclp)
  show ?thesis
  proof (cases r1)
    case (Inl e)
    then show ?thesis
      using assms(3) start sel run by (intro exI [of _ "Failed e"]) (auto simp: route_request_def)
  next
    case (Inr resp)
    let ?u = "longest_prefix_match ord rt (req_uri req)"
    have rest: "(serve_step ord hord rt)\<^sup>*\<^sup>* (ts, rec, db)
        (ts[i := Recorded cls req resp], request_recorder (req_uri req) (status_code resp) rec1, db1)"
      using start step_at(1) [OF assms(1), of ord hord rt cls req resp rec1 db1]
      unfolding Inr sum.case by (rule rtranclp.rtrancl_into_rtrancl)
    show ?thesis
    proof (cases "get_route_handler rt ?u")
      case log: (Inl e)
      then show ?thesis
        using assms(3) sel run Inr rtranclp.rtrancl_into_rtrancl [OF rest step_at(3) [OF assms(1) log]]
        by (intro exI [of _ "Failed e"]) (auto simp: route_request_def Let_def)
    next
      case log: (Inr h)
      then show ?thesis
        using assms(3) sel run Inr rtranclp.rtrancl_into_rtrancl [OF rest step_at(2) [OF assms(1) log]]
        by (intro exI [of _ "Answered cls req (apply_default_headers hord rt resp)"])
          (auto simp: route_request_def Let_def)
    qed
  qed
qed

section \<open>Each thread serves its request\<close>

fun request_of :: "serving \<Rightarrow> request option" where
  "request_of (Arrived req) = Some req"
| "request_of (Selected cls c req) = Some req"
| "request_of (Counted n req) = Some req"
| "request_of (Listed n urls req) = Some req"
| "request_of (Handled cls req resp) = Some req"
| "request_of (Recorded cls req resp) = Some req"
| "request_of (Answered cls req resp) = Some req"
| "request_of (Failed e) = None"

definition serves :: "request list \<Rightarrow> serving list \<Rightarrow> bool" where
  "serves reqs ts \<longleftrightarrow>
     length ts = length reqs
     \<and> (\<forall>i < length ts. request_of (ts ! i) = None \<or> request_of (ts ! i) = Some (reqs ! i))"

lemma serves_update:
  "serves reqs ts \<Longrightarrow> i < length ts \<Longrightarrow> request_of t = None \<or> request_of t = request_of (ts ! i) \<Longrightarrow>
     serves reqs (ts[i := t])"
  by (auto simp: serves_def nth_list_update)

lemma serves_step: "serve_step ord hord rt st st' \<Longrightarrow> serves reqs (fst st) \<Longrightarrow> serves reqs (fst st')"
  by (induction rule: serve_step.induct) (simp_all add: serves_update)

lemma serves_run:
  "(serve_step ord hord rt)\<^sup>*\<^sup>* st st' \<Longrightarrow> serves reqs (fst st) \<Longrightarrow> serves reqs (fst st')"
  by (induction rule: rtranclp_induct) (auto intro: serves_step simp del: split_paired_All)

lemma serves_start: "serves reqs (map Arrived reqs)"
  by (simp add: serves_def)

section \<open>Two threads, one of which makes the status page\<close>

definition status_config :: block where
  "status_config =
     [Statement [''handler'', ''status''] (Some [Statement [''location'', ''/status''] None])]"

definition status_router :: router where
  "status_router =
     (new_router status_config [])\<lparr>route_map := [(''/status'', ''status'')]\<rparr>"

abbreviation status_q :: request where
  "status_q \<equiv> meme_req ''GET'' ''/status'' []"

abbreviation none_q :: request where
  "none_q \<equiv> meme_req ''GET'' ''/none'' []"

definition one_line :: recorder where
  "one_line = \<lparr>url_response_list = [(''/a'', 200)], prefix_handler_list = []\<rparr>"

definition two_lines :: recorder where
  "two_lines = request_recorder ''/none'' 404 one_line"

definition late_page :: response where
  "late_page = generate_status_response status_q (status_page 1 [(''/a'', 200), (''/none'', 404)] [])"

lemma status_router_facts:
  "list_all tokens_ok status_config"
  "register_routes_from_config (new_router status_config [], new_recorder)
     = Inr (True, status_router, prefix_recorder (''/status'', ''status'') new_recorder)"
  "select_handler rev status_router ''/status''
     = Inr (Status_handler, Some [Statement [''location'', ''/status''] None])"
  "select_handler rev status_router ''/none'' = Inr (Default_handler, None)"
  "get_route_handler status_router (longest_prefix_match rev status_router ''/status'')
     = Inr ''status''"
  by code_simp+

lemma one_line_facts:
  "get_url_response_list_size one_line = 1" "get_url_response_list one_line = [(''/a'', 200)]"
  "get_url_response_list two_lines = [(''/a'', 200), (''/none'', 404)]"
  "get_prefix_handler_list two_lines = []" "status_code late_page = 200"
  by (simp_all add: one_line_def two_lines_def request_recorder_def get_url_response_list_size_def
      get_url_response_list_def get_prefix_handler_list_def to_int_range late_page_def
      generate_status_response_def)

lemma sample_interleaving:
  "(serve_step rev rev status_router)\<^sup>*\<^sup>* (map Arrived [status_q, none_q], one_line, [] :: table)
     ([Answered Status_handler status_q (apply_default_headers rev status_router late_page),
       Recorded Default_handler none_q (generate_404_response none_q)],
      request_recorder ''/status'' 200 two_lines, [])"
proof -
  let ?R = "serve_step rev rev status_router"
  let ?nf = "generate_404_response none_q"
  let ?c = "Some [Statement [''location'', ''/status''] None]"
  have nf: "status_code ?nf = 404" by (simp add: generate_404_response_def)
  have "?R (map Arrived [status_q, none_q], one_line, [] :: table)
      ([Selected Status_handler ?c status_q, Arrived none_q], one_line, [])"
    using serve_step.selected [of 0 "[Arrived status_q, Arrived none_q]" status_q rev status_router
        Status_handler ?c]
      status_router_facts(3) by simp
  moreover have "?R ([Selected Status_handler ?c status_q, Arrived none_q], one_line, [] :: table)
      ([Counted 1 status_q, Arrived none_q], one_line, [])"
    using serve_step.status_counted [of 0 "[Selected Status_handler ?c status_q, Arrived none_q]"
        ?c status_q one_line rev rev status_router] one_line_facts(1) by simp
  moreover have "?R ([Counted 1 status_q, Arrived none_q], one_line, [] :: table)
      ([Counted 1 status_q, Selected Default_handler None none_q], one_line, [])"
    using serve_step.selected [of 1 "[Counted 1 status_q, Arrived none_q]" none_q rev status_router
        Default_handler None]
      status_router_facts(4) by simp
  moreover have "?R ([Counted 1 status_q, Selected Default_handler None none_q], one_line, [] :: table)
      ([Counted 1 status_q, Handled Default_handler none_q ?nf], one_line, [])"
    using serve_step.handled [of 1 "[Counted 1 status_q, Selected Default_handler None none_q]"
        Default_handler None none_q sample_env status_router one_line "[]" ?nf one_line "[]"]
    by (simp add: run_handler_def default_handle_request_def)
  moreover have "?R ([Counted 1 status_q, Handled Default_handler none_q ?nf], one_line, [] :: table)
      ([Counted 1 status_q, Recorded Default_handler none_q ?nf], two_lines, [])"
    using serve_step.recorded [of 1 "[Counted 1 status_q, Handled Default_handler none_q ?nf]"
        Default_handler none_q ?nf rev rev status_router one_line] nf by (simp add: two_lines_def)
  moreover have "?R ([Counted 1 status_q, Recorded Default_handler none_q ?nf], two_lines, [] :: table)
      ([Listed 1 [(''/a'', 200), (''/none'', 404)] status_q, Recorded Default_handler none_q ?nf],
       two_lines, [])"
    using serve_step.status_listed [of 0 "[Counted 1 status_q, Recorded Default_handler none_q ?nf]"
        1 status_q rev rev status_router two_lines] one_line_facts(3) by simp
  moreover have "?R ([Listed 1 [(''/a'', 200), (''/none'', 404)] status_q,
       Recorded Default_handler none_q ?nf], two_lines, [] :: table)
      ([Handled Status_handler status_q late_page, Recorded Default_handler none_q ?nf],
       two_lines, [])"
    using serve_step.status_made [of 0 "[Listed 1 [(''/a'', 200), (''/none'', 404)] status_q,
        Recorded Default_handler none_q ?nf]" 1 "[(''/a'', 200), (''/none'', 404)]" status_q rev rev
        status_router two_lines]
      one_line_facts(4) by (simp add: late_page_def)
  moreover have "?R ([Handled Status_handler status_q late_page,
       Recorded Default_handler none_q ?nf], two_lines, [] :: table)
      ([Recorded Status_handler status_q late_page, Recorded Default_handler none_q ?nf],
       request_recorder ''/status'' 200 two_lines, [])"
    using serve_step.recorded [of 0 "[Handled Status_handler status_q late_page,
        Recorded Default_handler none_q ?nf]" Status_handler status_q late_page rev rev status_router
        two_lines] one_line_facts(5) by simp
  moreover have "?R ([Recorded Status_handler status_q late_page,
       Recorded Default_handler none_q ?nf], request_recorder ''/status'' 200 two_lines, [] :: table)
      ([Answered Status_handler status_q (apply_default_headers rev status_router late_page),
        Recorded Default_handler none_q ?nf], request_recorder ''/status'' 200 two_lines, [])"
    using serve_step.answered [of 0 "[Recorded Status_handler status_q late_page,
        Recorded Default_handler none_q ?nf]" Status_handler status_q late_page status_router rev
        "''status''"]
      status_router_facts(5) by simp
  ultimately show ?thesis
    by (meson converse_rtranclp_into_rtranclp rtranclp.rtrancl_refl)
qed

section \<open>Properties\<close>

text \<open>
  C7. However the threads interleave, each request is recorded once and none is lost: at any time
  the list of the status page, seen as a multiset, is what it was at the start and one line, with
  the URI and the status of the response, for each thread that has come past its recording; what
  was recorded before stays in front; and a thread that has answered has answered its own
  request.
\<close>

theorem requests_recorded_once:
  assumes "list_all tokens_ok config"
    and "register_routes_from_config (new_router config root, rec1) = Inr (True, rt, rec2)"
    and "enumerates ord"
    and "(serve_step ord hord rt)\<^sup>*\<^sup>* (map Arrived reqs, rec0, db) (ts, rec, db')"
  shows "mset (url_response_list rec) = mset (url_response_list rec0) + entries ts
    \<and> prefix (url_response_list rec0) (url_response_list rec)
    \<and> length ts = length reqs
    \<and> (\<forall>i cls req resp. i < length ts \<longrightarrow> ts ! i = Answered cls req resp \<longrightarrow> req = reqs ! i)"
proof -
  have reg: "registered config root rec1 rt rec2" using assms(2) by (simp add: registered_def)
  have "pool_inv rec0 (ts, rec, db')"
    by (rule pool_inv_run [OF assms(4) pool_inv_start assms(1) reg assms(3)])
  moreover have "serves reqs ts" using serves_run [OF assms(4)] serves_start by simp
  ultimately show ?thesis by (auto simp: pool_inv_def serves_def)
qed

lemma requests_recorded_once_witness:
  "mset [(''/a'', 200), (''/none'', 404), (''/status'', 200)] = mset [(''/a'', 200)]
     + entries [Answered Status_handler status_q (apply_default_headers rev status_router late_page),
         Recorded Default_handler none_q (generate_404_response none_q)]"
  using requests_recorded_once [OF status_router_facts(1,2) enumerates_rev sample_interleaving]
  by (simp add: two_lines_def one_line_def request_recorder_def)

text \<open>
  C26. The status page while other threads record: the page a thread answers with is made of
  three reads, so its number is the number of lines recorded at one time, its table the lines
  recorded at a later time, and its prefixes the registered ones. The number is therefore at
  most the number of rows, and both lie between what was recorded at the start and what is now.
\<close>

theorem status_page_interleaved:
  assumes "list_all tokens_ok config"
    and "register_routes_from_config (new_router config root, rec1) = Inr (True, rt, rec2)"
    and "enumerates ord"
    and "(serve_step ord hord rt)\<^sup>*\<^sup>* (map Arrived reqs, rec0, db) (ts, rec, db')"
    and "Answered Status_handler req resp \<in> set ts"
  shows "\<exists>counted rows. prefix (url_response_list rec0) counted \<and> prefix counted rows
    \<and> prefix rows (url_response_list rec) \<and> status_code resp = 200
    \<and> response_body resp
        = status_page (to_int (int (length counted))) rows (prefix_handler_list rec0)"
proof -
  have reg: "registered config root rec1 rt rec2" using assms(2) by (simp add: registered_def)
  have "pool_inv rec0 (ts, rec, db')"
    by (rule pool_inv_run [OF assms(4) pool_inv_start assms(1) reg assms(3)])
  then have "thread_ok rec0 (url_response_list rec) (Answered Status_handler req resp)"
    using assms(5) by (auto simp: pool_inv_def)
  then show ?thesis by (auto simp: page_ok_def page_lists_def)
qed

lemma status_page_interleaved_witness:
  "\<exists>counted rows. prefix [(''/a'', 200)] counted \<and> prefix counted rows
    \<and> response_body late_page = status_page (to_int (int (length counted))) rows []"
  using status_page_interleaved [OF status_router_facts(1,2) enumerates_rev sample_interleaving,
      of status_q "apply_default_headers rev status_router late_page"]
  by (auto simp: one_line_def)

text \<open>
  The coarse definition is one of the fine-grained runs: a thread that is not interrupted does
  in its steps what \<open>route_request\<close> does in one, with the same response, recorder and database.
\<close>

theorem routing_in_steps:
  assumes "i < length ts" and "ts ! i = Arrived req"
    and "route_request ord hord (run_handler env) rt req (rec, db) = (r, rec', db')"
  shows "\<exists>t. (serve_step ord hord rt)\<^sup>*\<^sup>* (ts, rec, db) (ts[i := t], rec', db')
    \<and> (case r of Inl e \<Rightarrow> t = Failed e | Inr resp \<Rightarrow> \<exists>cls. t = Answered cls req resp)"
  using assms by (rule route_request_steps)

lemma routing_in_steps_witness:
  "\<exists>t st. (serve_step rev rev status_router)\<^sup>*\<^sup>* ([Arrived none_q], one_line, [] :: table) ([t], st)"
proof -
  obtain r rec' db' where "route_request rev rev (run_handler sample_env) status_router none_q
      (one_line, []) = (r, rec', db')"
    by (metis prod_cases3)
  then show ?thesis using routing_in_steps [of 0 "[Arrived none_q]" none_q] by fastforce
qed

text \<open>
  Every run ends: no run of the threads has more than six steps for each request, and one that
  can go no further has answered or failed every request.
\<close>

theorem serving_ends:
  assumes "(serve_step ord hord rt ^^ n) (map Arrived reqs, rec0, db0) (ts, rec, db)"
  shows "n \<le> 6 * length reqs
    \<and> (list_all ended ts \<longleftrightarrow> \<not> (\<exists>st. serve_step ord hord rt (ts, rec, db) st))"
proof -
  have "\<not> list_all ended ts" if "serve_step ord hord rt (ts, rec, db) st" for st
    using that by (cases rule: serve_step.cases) (auto simp: ended_def list_all_length)
  moreover have "\<exists>st. serve_step ord hord rt (ts, rec, db) st" if "\<not> list_all ended ts"
    using that thread_goes_on [of _ ts ord hord rt rec db] by (auto simp: list_all_length)
  moreover have "n \<le> 6 * length reqs"
    using serve_steps_bounded [OF assms] pool_left_start [of reqs] by simp
  ultimately show ?thesis by blast
qed

lemma serving_ends_witness:
  "\<exists>st. serve_step rev rev status_router
     ([Selected Default_handler None none_q], one_line, [] :: table) st"
proof -
  have "serve_step rev rev status_router ([Arrived none_q], one_line, [] :: table)
      ([Selected Default_handler None none_q], one_line, [])"
    using serve_step.selected [of 0 "[Arrived none_q]" none_q rev status_router Default_handler None]
      status_router_facts(4) by simp
  then have run: "(serve_step rev rev status_router ^^ 1) (map Arrived [none_q], one_line, [] :: table)
      ([Selected Default_handler None none_q], one_line, [])"
    by (simp only: relpowp_1 list.map)
  have "\<not> list_all ended [Selected Default_handler None none_q]" by (simp add: ended_def)
  then show ?thesis using conjunct2 [OF serving_ends [OF run]] by simp
qed

end
