(* ===== verification/Server_Steps.thy ===== *)
theory Server_Steps
  imports Server_Claims
begin

text \<open>
  The running server as a transition system: connections are accepted one after the other, each
  gets a session, and the callbacks of all sessions interleave. A fault that escapes from a
  callback reaches a thread of the pool and ends the process, and so does the signal handler of
  \<open>src/server_main.cc\<close>, for which \<open>main\<close> waits before it makes the server; no step follows
  either. A callback
  is one step; that the database operations of two callbacks can interleave is the subject of
  theories Meme_Threads and Meme_Views, that their locks cannot block each other of theory Router_Locks.

  The enumeration orders are those of the two hash maps; what the handlers see of the world may
  be different at every step.
\<close>

record 'db system =
  sys_server :: server
  sys_sessions :: "phase list"
  sys_world :: "recorder \<times> 'db"
  sys_waiting :: bool
  sys_exited :: "fault option"

text \<open>
  The handler of SIGINT and SIGTERM. The wait for them is over with the first signal, or with an
  error when it is called off.
\<close>

definition signal_handler :: "bool \<Rightarrow> unit result" where
  "signal_handler error = (if \<not> error then Inl (Exit_process 1) else Inr ())"

definition alive :: "'db system \<Rightarrow> bool" where
  "alive st \<longleftrightarrow> sys_exited st = None
     \<and> list_all (\<lambda>ph. case ph of Escaped e \<Rightarrow> False | _ \<Rightarrow> True) (sys_sessions st)"

definition initial_system :: "server \<Rightarrow> recorder \<times> 'db \<Rightarrow> 'db system" where
  "initial_system sv w =
     \<lparr>sys_server = sv, sys_sessions = [], sys_world = w, sys_waiting = True, sys_exited = None\<rparr>"

text \<open>
  An accept completes only when one has been asked for, and is then no longer pending; its
  callback is what asks for the next. Whether the server is running plays no part for asio.
\<close>

definition accept_completed :: "server \<Rightarrow> server" where
  "accept_completed sv = sv\<lparr>accepts_pending := accepts_pending sv - 1\<rparr>"

inductive server_step :: "map_order \<Rightarrow> header_order \<Rightarrow> 'db system \<Rightarrow> 'db system \<Rightarrow> bool"
  for ord hord where
  accepted:
    "alive st \<Longrightarrow> 0 < accepts_pending (sys_server st) \<Longrightarrow>
     handle_accept peer s False (accept_completed (sys_server st)) = (Some (s', eff), ok, sv') \<Longrightarrow>
     server_step ord hord st
       (st\<lparr>sys_server := sv', sys_sessions := sys_sessions st @ [Reading s']\<rparr>)"
| accept_failed:
    "alive st \<Longrightarrow> 0 < accepts_pending (sys_server st) \<Longrightarrow>
     handle_accept peer s True (accept_completed (sys_server st)) = (None, ok, sv') \<Longrightarrow>
     server_step ord hord st (st\<lparr>sys_server := sv'\<rparr>)"
| progress:
    "alive st \<Longrightarrow> i < length (sys_sessions st) \<Longrightarrow>
     sv_router (sys_server st) = Some rt \<Longrightarrow>
     session_step hord (route_request ord hord (run_handler env) rt)
       (sys_sessions st ! i, sys_world st) (ph, w) \<Longrightarrow>
     server_step ord hord st
       (st\<lparr>sys_sessions := (sys_sessions st)[i := ph], sys_world := w\<rparr>)"
| signalled:
    "alive st \<Longrightarrow> sys_waiting st \<Longrightarrow> signal_handler error = Inl e \<Longrightarrow>
     server_step ord hord st (st\<lparr>sys_waiting := False, sys_exited := Some e\<rparr>)"
| wait_ended:
    "alive st \<Longrightarrow> sys_waiting st \<Longrightarrow> signal_handler error = Inr u \<Longrightarrow>
     server_step ord hord st (st\<lparr>sys_waiting := False\<rparr>)"

section \<open>The recorder under one callback\<close>

definition read_done :: "phase \<Rightarrow> bool" where
  "read_done ph \<longleftrightarrow> (case ph of Reading s \<Rightarrow> False | _ \<Rightarrow> True)"

definition reads_done :: "phase list \<Rightarrow> nat" where
  "reads_done ps = length (filter read_done ps)"

lemma read_done_simps [simp]:
  "\<not> read_done (Reading s)" "read_done (Writing out)" "read_done (Ended en)" "read_done (Escaped e)"
  by (simp_all add: read_done_def)

lemma reads_done_update:
  "i < length ps \<Longrightarrow> reads_done (ps[i := ph]) + (if read_done (ps ! i) then 1 else 0)
     = reads_done ps + (if read_done ph then 1 else 0)"
proof (induction ps arbitrary: i)
  case (Cons p ps)
  show ?case
  proof (cases i)
    case (Suc j)
    then show ?thesis using Cons.IH [of j] Cons.prems by (simp add: reads_done_def)
  qed (simp add: reads_done_def)
qed simp

lemma handle_read_recorder:
  assumes "handle_read hord (route_request ord hord (run_handler env) rt) past behind s error n w
    = (r, w')"
  shows "fst w' = fst w \<or> (\<exists>u code. fst w' = request_recorder u code (fst w))"
proof -
  obtain rec db where w: "w = (rec, db)" by fastforce
  let ?route = "route_request ord hord (run_handler env) rt"
  let ?req = "new_request (take n (session_data s))"
  have "w' = w \<or> w' = snd (?route ?req w)"
    using assms
    by (auto simp: handle_read_def handle_success_def handle_valid_request_def Let_def
        split: if_splits sum.splits prod.splits fault.splits)
  then show ?thesis
    using dispatcher.route_request_recorder [of ord hord env rt ?req rec db] unfolding w by auto
qed

definition is_response :: "header_order \<Rightarrow> string \<Rightarrow> bool" where
  "is_response hord out \<longleftrightarrow> (\<exists>resp. out = fst (generate_response hord resp) \<and> served_ok resp)"

lemma session_step_effect:
  assumes "session_step hord (route_request ord hord (run_handler env) rt) (ph, w) (ph', w')"
  shows "read_done ph'
    \<and> (fst w' = fst w \<or> \<not> read_done ph \<and> (\<exists>u code. fst w' = request_recorder u code (fst w)))
    \<and> (\<forall>out. ph' = Writing out \<longrightarrow> is_response hord out)"
  using assms
proof (cases rule: session_step.cases)
  case (read_answered bytes past behind s error out)
  have "is_response hord out"
    using routing.read_writes [of hord ord hord env rt past behind "received bytes s" error
        "length bytes" w] read_answered by (auto simp: is_response_def session_write_def)
  then show ?thesis
    using handle_read_recorder [OF read_answered(4)] read_answered by auto
next
  case (read_escaped bytes past behind s error e)
  then show ?thesis using handle_read_recorder [OF read_escaped(4)] by auto
qed auto

section \<open>The invariant of the running server\<close>

definition system_inv ::
  "header_order \<Rightarrow> server \<Rightarrow> recorder \<Rightarrow> 'db system \<Rightarrow> bool" where
  "system_inv hord sv rec st \<longleftrightarrow>
     sys_server st = sv \<and> recorder_grows rec (fst (sys_world st))
     \<and> prefix_handler_list (fst (sys_world st)) = prefix_handler_list rec
     \<and> length (url_response_list (fst (sys_world st)))
         \<le> length (url_response_list rec) + reads_done (sys_sessions st)
     \<and> (\<forall>out. Writing out \<in> set (sys_sessions st) \<longrightarrow> is_response hord out)"

lemma accept_same_server:
  assumes "sv_router sv = Some rt" and "is_running sv" and "accepts_pending sv = 1"
    and "handle_accept peer s error (accept_completed sv) = (x, ok, sv')"
  shows "sv' = sv \<and> ok"
  using assms by (auto simp: handle_accept_def start_accept_def accept_completed_def)

lemma reads_done_append [simp]: "reads_done (ps @ [Reading s]) = reads_done ps"
  by (simp add: reads_done_def)

lemma system_inv_step:
  assumes "server_step ord hord st st'" and "system_inv hord sv rec st"
    and "sv_router sv = Some rt" and "is_running sv" and "accepts_pending sv = 1"
  shows "system_inv hord sv rec st'"
  using assms(1)
proof (cases rule: server_step.cases)
  case (accepted peer s s' eff ok sv')
  then show ?thesis
    using assms(2-5) accept_same_server [of sv rt peer s False] by (auto simp: system_inv_def)
next
  case (accept_failed peer s ok sv')
  then show ?thesis
    using assms(2-5) accept_same_server [of sv rt peer s True] by (auto simp: system_inv_def)
next
  case (progress i rt' env ph w)
  have eff: "read_done ph"
      "fst w = fst (sys_world st) \<or> \<not> read_done (sys_sessions st ! i)
        \<and> (\<exists>u code. fst w = request_recorder u code (fst (sys_world st)))"
      "\<And>out. ph = Writing out \<Longrightarrow> is_response hord out"
    using session_step_effect [OF progress(5)] by auto
  have "is_response hord out" if "Writing out \<in> set ((sys_sessions st)[i := ph])" for out
    using that set_update_subset_insert [of "sys_sessions st" i ph] eff(3) assms(2)
    by (auto simp: system_inv_def)
  moreover have "reads_done ((sys_sessions st)[i := ph]) + (if read_done (sys_sessions st ! i) then 1 else 0)
      = reads_done (sys_sessions st) + 1"
    using reads_done_update [OF progress(3), of ph] eff(1) by simp
  ultimately show ?thesis
    using assms(2) eff(2) unfolding progress(1) system_inv_def
    by (auto simp: request_recorder_def recorder_grows_def split: if_splits)
next
  case (signalled error e)
  then show ?thesis using assms(2) by (simp add: system_inv_def)
next
  case (wait_ended error u)
  then show ?thesis using assms(2) by (simp add: system_inv_def)
qed

lemma system_inv_initial: "system_inv hord sv rec (initial_system sv (rec, db))"
  by (simp add: system_inv_def initial_system_def reads_done_def)

lemma system_inv_reach:
  assumes "(server_step ord hord)\<^sup>*\<^sup>* (initial_system sv (rec, db)) st"
    and "sv_router sv = Some rt" and "is_running sv" and "accepts_pending sv = 1"
  shows "system_inv hord sv rec st"
  using assms(1)
  by (induction rule: rtranclp_induct) (blast intro: system_inv_initial system_inv_step [OF _ _ assms(2-4)])+

lemma read_fails: "\<exists>out. session_step hord route (Reading s, w) (Writing out, w)"
proof -
  obtain out where "handle_error hord = Async_write out"
    by (simp add: handle_error_def session_write_def)
  then show ?thesis
    using session_step.read_answered [of "[]" hord route "[]" "[]" s True w out w]
    by (auto simp: handle_read_def max_length_def)
qed

lemma write_disconnected:
  "session_step hord route (Writing out, w) (Escaped (Throw System_error), w)"
  by (rule session_step.write_escaped [of True False False]) (simp add: handle_write_def session_close_def)

section \<open>Properties\<close>

text \<open>
  C5. What holds while the server runs, in every state any interleaving of connections and
  callbacks can reach from the one \<open>main\<close> starts: the flag says that it runs, exactly one accept is
  pending, so the next connection is taken, and the router is the one it started with; what is
  being written to a peer is a serialised response with a known status; the status page has kept
  all of its lines and its list of prefixes, and has at most one more line for each session whose
  read has completed.
\<close>

theorem running_server_invariant:
  assumes "fs f = Some s"
    and "server_main fs listen spawn [prog, f] rec0 = Inr (Running sv rec n)"
    and "(server_step ord hord)\<^sup>*\<^sup>* (initial_system sv (rec, db)) st"
  shows "get_status (sys_server st) \<and> accepts_pending (sys_server st) = 1
    \<and> sv_router (sys_server st) = sv_router sv
    \<and> (\<forall>out. Writing out \<in> set (sys_sessions st) \<longrightarrow>
          (\<exists>resp. out = fst (generate_response hord resp) \<and> served_ok resp))
    \<and> recorder_grows rec (fst (sys_world st))
    \<and> prefix_handler_list (fst (sys_world st)) = prefix_handler_list rec
    \<and> length (url_response_list (fst (sys_world st)))
        \<le> length (url_response_list rec) + reads_done (sys_sessions st)"
proof (rule running_facts [OF assms(1,2)])
  fix c rt t p
  assume "sv = \<lparr>sv_config = c, is_running = True, sv_router = Some rt, thread_count = t,
    acceptor_port = nat p, accepts_pending = 1\<rparr>"
  then have "sv_router sv = Some rt" "is_running sv" "accepts_pending sv = 1" by simp_all
  then show ?thesis
    using system_inv_reach [OF assms(3)] by (simp add: system_inv_def get_status_def is_response_def)
qed

lemma small_accepts:
  "server_step rev rev (initial_system small_server (snd small_state, [] :: table))
     (initial_system small_server (snd small_state, [])
        \<lparr>sys_server := small_server,
         sys_sessions := [Reading \<lparr>session_data = [], ip_addr = ''not given''\<rparr>]\<rparr>)"
proof -
  have "handle_accept None \<lparr>session_data = [], ip_addr = []\<rparr> False (accept_completed small_server)
      = (Some (session_start None \<lparr>session_data = [], ip_addr = []\<rparr>), True, small_server)"
    by (simp add: handle_accept_def start_accept_def small_server_def accept_completed_def)
  then show ?thesis
    using server_step.accepted [of "initial_system small_server (snd small_state, [] :: table)" None
        "\<lparr>session_data = [], ip_addr = []\<rparr>" "\<lparr>session_data = [], ip_addr = ''not given''\<rparr>"
        "Async_read_some 1024" True small_server rev rev]
    by (simp add: initial_system_def alive_def session_start_def session_read_def max_length_def
        small_server_def)
qed

lemma running_server_invariant_witness:
  "accepts_pending (sys_server (initial_system small_server (snd small_state, [] :: table)
        \<lparr>sys_server := small_server,
         sys_sessions := [Reading \<lparr>session_data = [], ip_addr = ''not given''\<rparr>]\<rparr>)) = 1"
  using running_server_invariant
    [OF small_files_parse(1) small_running r_into_rtranclp [where r = "server_step rev rev", OF small_accepts]]
  by blast

lemma accept_one:
  assumes "alive st" and "sv_router (sys_server st) = Some rt" and "is_running (sys_server st)"
    and "accepts_pending (sys_server st) = 1"
  shows "server_step ord hord st
    (st\<lparr>sys_sessions := sys_sessions st @ [Reading (fst (session_start peer new_session))]\<rparr>)"
proof -
  let ?sv = "sys_server st"
  obtain s' eff where s': "session_start peer new_session = (s', eff)" by fastforce
  have "accept_completed ?sv\<lparr>is_running := True,
      accepts_pending := Suc (accepts_pending (accept_completed ?sv))\<rparr> = ?sv"
    using assms(3,4) by (simp add: accept_completed_def)
  then have "handle_accept peer new_session False (accept_completed ?sv) = (Some (s', eff), True, ?sv)"
    using assms(2) s' by (simp add: handle_accept_def start_accept_def accept_completed_def)
  moreover have "st\<lparr>sys_server := ?sv, sys_sessions := sys_sessions st @ [Reading s']\<rparr>
      = st\<lparr>sys_sessions := sys_sessions st @ [Reading s']\<rparr>" by simp
  ultimately show ?thesis
    using server_step.accepted [OF assms(1), of peer new_session s' eff True ?sv ord hord] assms(4) s'
    by simp
qed

lemma accept_many:
  assumes "alive st" and "sv_router (sys_server st) = Some rt" and "is_running (sys_server st)"
    and "accepts_pending (sys_server st) = 1"
  shows "(server_step ord hord)\<^sup>*\<^sup>* st (st\<lparr>sys_sessions := sys_sessions st
    @ map (\<lambda>(peer, s). Reading (fst (session_start peer s))) conns\<rparr>)"
proof (induction conns rule: rev_induct)
  case (snoc c conns)
  obtain peer s where c: "c = (peer, s)" by fastforce
  let ?st = "st\<lparr>sys_sessions := sys_sessions st
    @ map (\<lambda>(peer, s). Reading (fst (session_start peer s))) conns\<rparr>"
  have "alive ?st" using assms(1) by (auto simp: alive_def list_all_iff)
  then have "server_step ord hord ?st (?st\<lparr>sys_sessions := sys_sessions ?st
      @ [Reading (fst (session_start peer s))]\<rparr>)"
    using assms(2-4) by (intro accept_one) simp_all
  then show ?case using snoc by (simp add: c rtranclp.rtrancl_into_rtrancl)
qed simp

text \<open>
  C30. The server does not stop accepting: in every such state in which no fault has escaped and no
  signal has arrived, any number of further connections can be accepted one after the other,
  whatever their peers and however many sessions are open. Each callback of an accept leaves an
  accept pending for the next one, and the sessions that are there stay as they are.
\<close>

theorem can_always_accept:
  assumes "fs f = Some s"
    and "server_main fs listen spawn [prog, f] rec0 = Inr (Running sv rec n)"
    and "(server_step ord hord)\<^sup>*\<^sup>* (initial_system sv (rec, db)) st"
    and "alive st"
  shows "\<exists>st'. (server_step ord hord)\<^sup>*\<^sup>* st st' \<and> alive st' \<and> sys_world st' = sys_world st
    \<and> sys_sessions st' = sys_sessions st
        @ map (\<lambda>(peer, new_session). Reading (fst (session_start peer new_session))) conns
    \<and> accepts_pending (sys_server st') = 1"
proof (rule running_facts [OF assms(1,2)])
  fix c rt t p
  assume "sv = \<lparr>sv_config = c, is_running = True, sv_router = Some rt, thread_count = t,
    acceptor_port = nat p, accepts_pending = 1\<rparr>"
  then have sv: "sv_router sv = Some rt" "is_running sv" "accepts_pending sv = 1" by simp_all
  have "sys_server st = sv" using system_inv_reach [OF assms(3) sv] by (simp add: system_inv_def)
  then have "(server_step ord hord)\<^sup>*\<^sup>* st (st\<lparr>sys_sessions := sys_sessions st
      @ map (\<lambda>(peer, s). Reading (fst (session_start peer s))) conns\<rparr>)"
    using accept_many [OF assms(4)] sv by simp
  then show ?thesis
    using sv(3) \<open>sys_server st = sv\<close> assms(4)
    by (intro exI [of _ "st\<lparr>sys_sessions := sys_sessions st
        @ map (\<lambda>(peer, s). Reading (fst (session_start peer s))) conns\<rparr>"])
      (auto simp: alive_def list_all_iff)
qed

lemma can_always_accept_witness:
  "\<exists>st'. (server_step rev rev)\<^sup>*\<^sup>* (initial_system small_server (snd small_state, [] :: table)) st'
     \<and> length (sys_sessions st') = 2"
proof -
  have "alive (initial_system small_server (snd small_state, [] :: table))"
    by (simp add: initial_system_def alive_def)
  from can_always_accept [where conns = "[(None, \<lparr>session_data = [], ip_addr = []\<rparr>),
        (None, \<lparr>session_data = [], ip_addr = []\<rparr>)]",
      OF small_files_parse(1) small_running rtranclp.rtrancl_refl this]
  show ?thesis by (force simp: initial_system_def)
qed

text \<open>
  C31. One client can stop the server: from the state \<open>main\<close> starts there are a connection, a
  read and a completed write whose peer has disconnected when the session shuts its socket down;
  \<open>shutdown\<close> throws, the exception leaves the callback and the thread, and no step follows.
\<close>

theorem disconnect_stops_server:
  assumes "fs f = Some s"
    and "server_main fs listen spawn [prog, f] rec0 = Inr (Running sv rec n)"
  shows "\<exists>st. (server_step ord hord)\<^sup>*\<^sup>* (initial_system sv (rec, db)) st
    \<and> sys_sessions st = [Escaped (Throw System_error)] \<and> (\<forall>st'. \<not> server_step ord hord st st')"
proof (rule running_facts [OF assms])
  fix c rt t p
  assume "sv = \<lparr>sv_config = c, is_running = True, sv_router = Some rt, thread_count = t,
    acceptor_port = nat p, accepts_pending = 1\<rparr>"
  then have sv: "sv_router sv = Some rt" "is_running sv" "accepts_pending sv = 1" by simp_all
  let ?s0 = "\<lparr>session_data = [], ip_addr = []\<rparr>" and ?w = "(rec, db)"
  let ?s = "?s0\<lparr>ip_addr := ''not given''\<rparr>"
  let ?st = "\<lambda>ph. \<lparr>sys_server = sv, sys_sessions = [ph], sys_world = ?w, sys_waiting = True,
      sys_exited = None\<rparr>"
  have a: "server_step ord hord (initial_system sv ?w) (?st (Reading ?s))"
    using accept_one [of "initial_system sv ?w" rt ord hord None ?s0] sv
    by (simp add: initial_system_def alive_def session_start_def Let_def)
  obtain out where out: "session_step hord (route_request ord hord (run_handler (undefined :: 'a environment)) rt)
        (Reading ?s, ?w) (Writing out, ?w)"
    using read_fails [of hord _ ?s ?w] by fast
  have one: "server_step ord hord (?st (Reading ?s)) (?st (Writing out))"
    using server_step.progress [of "?st (Reading ?s)" 0 rt hord ord "undefined :: 'a environment" "Writing out" ?w] out sv(1)
    by (simp add: alive_def)
  have w: "session_step hord (route_request ord hord (run_handler (undefined :: 'a environment)) rt)
      (Writing out, ?w) (Escaped (Throw System_error), ?w)"
    by (rule write_disconnected)
  have "server_step ord hord (?st (Writing out)) (?st (Escaped (Throw System_error)))"
    using server_step.progress [of "?st (Writing out)" 0 rt hord ord "undefined :: 'a environment"
        "Escaped (Throw System_error)" ?w] w sv(1)
    by (simp add: alive_def)
  then have "(server_step ord hord)\<^sup>*\<^sup>* (initial_system sv ?w) (?st (Escaped (Throw System_error)))"
    using a one by (meson r_into_rtranclp rtranclp_trans)
  moreover have "\<not> server_step ord hord (?st (Escaped (Throw System_error))) st'" for st'
    by (auto elim!: server_step.cases simp: alive_def)
  ultimately show ?thesis by (intro exI [of _ "?st (Escaped (Throw System_error))"]) simp
qed

lemma disconnect_stops_server_witness:
  "\<exists>st. (server_step rev rev)\<^sup>*\<^sup>* (initial_system small_server (snd small_state, [] :: table)) st
     \<and> sys_sessions st = [Escaped (Throw System_error)]"
  using disconnect_stops_server [where ord = rev and hord = rev and db = "[] :: table",
      OF small_files_parse(1) small_running] by blast

text \<open>
  So the server stops only when the process ends: a reachable state without a next step is one in
  which the signal handler has called \<open>exit\<close> or a fault has escaped from a session.
\<close>

theorem server_stops_iff:
  assumes "sv_router sv = Some rt" and "is_running sv" and "accepts_pending sv = 1"
    and "(server_step ord hord)\<^sup>*\<^sup>* (initial_system sv (rec, db)) st"
  shows "(\<forall>st'. \<not> server_step ord hord st st')
    \<longleftrightarrow> sys_exited st \<noteq> None \<or> (\<exists>e. Escaped e \<in> set (sys_sessions st))"
proof -
  have sv: "sys_server st = sv"
    using system_inv_reach [OF assms(4,1-3)] by (simp add: system_inv_def)
  have "\<exists>st'. server_step ord hord st st'" if "alive st"
    using accept_one [OF that] sv assms(1-3) by blast
  moreover have "\<not> server_step ord hord st st'" if "\<not> alive st" for st'
    using that by (auto elim: server_step.cases)
  moreover have "alive st \<longleftrightarrow> \<not> (sys_exited st \<noteq> None \<or> (\<exists>e. Escaped e \<in> set (sys_sessions st)))"
    by (auto simp: alive_def list_all_iff split: phase.splits)
  ultimately show ?thesis by blast
qed

text \<open>A signal ends the process with status 1, in every state in which it waits for one.\<close>

lemma signal_ends_server:
  assumes "alive st" and "sys_waiting st"
  shows "\<exists>st'. server_step ord hord st st' \<and> sys_exited st' = Some (Exit_process 1)
    \<and> (\<forall>st''. \<not> server_step ord hord st' st'')"
proof -
  let ?st = "st\<lparr>sys_waiting := False, sys_exited := Some (Exit_process 1)\<rparr>"
  have "server_step ord hord st ?st"
    using assms by (intro server_step.signalled [of _ False]) (simp_all add: signal_handler_def)
  moreover have "\<not> server_step ord hord ?st st''" for st''
    by (auto elim!: server_step.cases simp: alive_def)
  ultimately show ?thesis by (intro exI [of _ ?st]) simp
qed

lemma server_stops_iff_witness:
  "\<exists>st'. server_step rev rev (initial_system small_server (snd small_state, [] :: table)) st'"
  using server_stops_iff [of small_server _ rev rev, OF _ _ _ rtranclp.rtrancl_refl,
      of _ "snd small_state" "[] :: table"]
  by (auto simp: small_server_def initial_system_def)

end
