(* ===== verification/Router_Locks.thy ===== *)
theory Router_Locks
  imports Router
begin

text \<open>
  The locks of the router and the recorder. Every operation of the two holds a mutex for its
  whole body and some call each other while they hold it; here an operation is the sequence of
  its lock and unlock operations, in the order the code has them, for the branches that are
  taken in a given state of the router. The mutexes of the handler objects are left out: an
  object serves one request, so no two threads meet at them.

  The locale \<open>lock_order\<close> is the discipline that rules deadlocks out: a thread locks a mutex only
  when every mutex it holds has a lower rank. The threads that serve requests follow it; the
  registration of the routes does not.
\<close>

section \<open>The mutexes and the operations\<close>

datatype mutex =
    Log_lock
  | Route_map_lock
  | Config_lock
  | Header_lock
  | Response_list_lock
  | Prefix_list_lock

datatype lock_op = Lock mutex | Unlock mutex

text \<open>A \<open>std::lock_guard\<close> over a body.\<close>

definition guarded :: "mutex \<Rightarrow> lock_op list \<Rightarrow> lock_op list" where
  "guarded m body = Lock m # body @ [Unlock m]"

definition register_route_ops :: "string \<Rightarrow> router \<Rightarrow> lock_op list" where
  "register_route_ops uri rt =
     guarded Route_map_lock
       (case umap_find (route_map rt) uri of
          None \<Rightarrow> guarded Prefix_list_lock []
        | Some _ \<Rightarrow> [])"

fun register_all_ops :: "(string \<times> string) list \<Rightarrow> router \<times> recorder \<Rightarrow> lock_op list" where
  "register_all_ops [] st = []"
| "register_all_ops ((uri, handlerKey) # ps) st =
     register_route_ops uri (fst st)
       @ register_all_ops ps (snd (register_route uri handlerKey st))"

definition register_routes_ops :: "router \<times> recorder \<Rightarrow> lock_op list" where
  "register_routes_ops st =
     guarded Config_lock (register_all_ops (config_locations (rt_config (fst st))) st)"

definition handler_config_ops :: "lock_op list" where
  "handler_config_ops = guarded Config_lock []"

definition route_handler_ops :: "string \<Rightarrow> router \<Rightarrow> lock_op list" where
  "route_handler_ops uri rt =
     guarded Route_map_lock
       (case umap_find (route_map rt) uri of None \<Rightarrow> handler_config_ops | Some _ \<Rightarrow> [])"

definition prefix_match_ops :: "lock_op list" where
  "prefix_match_ops = guarded Route_map_lock []"

definition select_handler_ops :: "map_order \<Rightarrow> string \<Rightarrow> router \<Rightarrow> lock_op list" where
  "select_handler_ops ord uri rt =
     prefix_match_ops @ route_handler_ops (longest_prefix_match ord rt uri) rt @ handler_config_ops"

text \<open>Of the handlers, only the status page takes shared locks.\<close>

definition handler_ops :: "handler_class \<Rightarrow> lock_op list" where
  "handler_ops cls =
     (if cls = Status_handler
      then guarded Response_list_lock [] @ guarded Response_list_lock [] @ guarded Prefix_list_lock []
      else [])"

text \<open>\<open>route_request\<close>, for a request that is answered.\<close>

definition route_request_ops :: "map_order \<Rightarrow> handler_class \<Rightarrow> string \<Rightarrow> router \<Rightarrow> lock_op list" where
  "route_request_ops ord cls uri rt =
     select_handler_ops ord uri rt @ handler_ops cls @ guarded Response_list_lock []
       @ guarded Log_lock (prefix_match_ops @ route_handler_ops (longest_prefix_match ord rt uri) rt)
       @ guarded Header_lock []"

section \<open>Threads\<close>

text \<open>What each thread has left to do, and who owns each mutex.\<close>

type_synonym 'i lock_state = "('i \<Rightarrow> lock_op list) \<times> (mutex \<Rightarrow> 'i option)"

inductive lock_step :: "'i lock_state \<Rightarrow> 'i lock_state \<Rightarrow> bool" where
  lock: "prog i = Lock m # p \<Longrightarrow> owner m = None \<Longrightarrow>
    lock_step (prog, owner) (prog(i := p), owner(m := Some i))"
| unlock: "prog i = Unlock m # p \<Longrightarrow>
    lock_step (prog, owner) (prog(i := p), owner(m := None))"

definition start_locks :: "('i \<Rightarrow> lock_op list) \<Rightarrow> 'i lock_state" where
  "start_locks prog = (prog, \<lambda>m. None)"

definition all_done :: "'i lock_state \<Rightarrow> bool" where
  "all_done st \<longleftrightarrow> (\<forall>i. fst st i = [])"

definition deadlock :: "'i lock_state \<Rightarrow> bool" where
  "deadlock st \<longleftrightarrow> \<not> all_done st \<and> (\<forall>st'. \<not> lock_step st st')"

section \<open>The discipline\<close>

text \<open>A sequence that may be run while holding \<open>H\<close>, and holds nothing at its end.\<close>

fun ordered :: "(mutex \<Rightarrow> nat) \<Rightarrow> mutex set \<Rightarrow> lock_op list \<Rightarrow> bool" where
  "ordered rank H [] \<longleftrightarrow> H = {}"
| "ordered rank H (Lock m # p) \<longleftrightarrow> (\<forall>h \<in> H. rank h < rank m) \<and> ordered rank (insert m H) p"
| "ordered rank H (Unlock m # p) \<longleftrightarrow> m \<in> H \<and> ordered rank (H - {m}) p"

definition held :: "(mutex \<Rightarrow> 'i option) \<Rightarrow> 'i \<Rightarrow> mutex set" where
  "held owner i = {m. owner m = Some i}"

instance mutex :: finite
proof
  let ?all = "{Log_lock, Route_map_lock, Config_lock, Header_lock, Response_list_lock, Prefix_list_lock}"
  have "x \<in> ?all" for x by (cases x) simp_all
  then have "(UNIV :: mutex set) \<subseteq> ?all" by blast
  then show "finite (UNIV :: mutex set)" by (rule finite_subset) simp
qed

lemma ranks_bounded:
  obtains b :: nat where "\<forall>x. (rank :: mutex \<Rightarrow> nat) x \<le> b"
  using finite_nat_set_iff_bounded_le [of "range rank"] by auto

locale lock_order =
  fixes rank :: "mutex \<Rightarrow> nat"
    and program :: "'i \<Rightarrow> lock_op list"
    and threads_of :: "'i set"
  assumes finite_threads: "finite threads_of"
    and others_idle: "i \<notin> threads_of \<Longrightarrow> program i = []"
    and follows: "ordered rank {} (program i)"
begin

definition inv :: "'i lock_state \<Rightarrow> bool" where
  "inv st \<longleftrightarrow> (\<forall>i. ordered rank (held (snd st) i) (fst st i))
     \<and> (\<forall>i. i \<notin> threads_of \<longrightarrow> fst st i = [])"

lemma inv_start: "inv (start_locks program)"
  using follows others_idle by (simp add: inv_def start_locks_def held_def)

lemma inv_step:
  assumes "lock_step st st'" and "inv st"
  shows "inv st'"
  using assms
proof (induction rule: lock_step.induct)
  case (lock prog i m p owner)
  have o: "ordered rank (held owner j) (prog j)" for j using lock.prems by (simp add: inv_def)
  have "held (owner(m := Some i)) j = (if j = i then insert m (held owner i) else held owner j)" for j
    using lock.hyps(2) by (auto simp: held_def)
  then have "ordered rank (held (owner(m := Some i)) j) ((prog(i := p)) j)" for j
    using o [of j] lock.hyps(1) by auto
  moreover have "i \<in> threads_of" using lock.prems lock.hyps(1) by (auto simp: inv_def)
  ultimately show ?case using lock.prems by (auto simp: inv_def)
next
  case (unlock prog i m p owner)
  have o: "ordered rank (held owner j) (prog j)" for j using unlock.prems by (simp add: inv_def)
  have m: "owner m = Some i" using o [of i] unlock.hyps by (simp add: held_def)
  have "held (owner(m := None)) j = (if j = i then held owner i - {m} else held owner j)" for j
    using m by (auto simp: held_def)
  then have "ordered rank (held (owner(m := None)) j) ((prog(i := p)) j)" for j
    using o [of j] unlock.hyps by auto
  moreover have "i \<in> threads_of" using unlock.prems unlock.hyps by (auto simp: inv_def)
  ultimately show ?case using unlock.prems by (auto simp: inv_def)
qed

lemma inv_reach: "lock_step\<^sup>*\<^sup>* (start_locks program) st \<Longrightarrow> inv st"
  by (induction rule: rtranclp_induct) (auto intro: inv_start inv_step)

text \<open>A thread that cannot go on waits for one that waits for a mutex of higher rank.\<close>

lemma blocked:
  assumes "inv st" and "\<forall>st'. \<not> lock_step st st'" and "fst st i \<noteq> []"
  shows "\<exists>m p. fst st i = Lock m # p \<and> snd st m \<noteq> None"
proof -
  obtain a p where a: "fst st i = a # p" using assms(3) by (cases "fst st i") auto
  show ?thesis
  proof (cases a)
    case (Lock m)
    then show ?thesis using a assms(2) lock_step.lock [of "fst st" i m p "snd st"] by auto
  next
    case (Unlock m)
    then have "lock_step st ((fst st)(i := p), (snd st)(m := None))"
      using a lock_step.unlock [of "fst st" i m p "snd st"] by simp
    then show ?thesis using assms(2) by blast
  qed
qed

lemma wait_chain:
  assumes "inv st" and "\<forall>st'. \<not> lock_step st st'"
    and "fst st i = Lock m # p" and "\<forall>x. rank x \<le> b" and "k = b - rank m"
  shows False
  using assms(3,5)
proof (induction k arbitrary: i m p rule: less_induct)
  case (less k)
  obtain j where j: "snd st m = Some j"
    using blocked [OF assms(1,2), of i] less.prems(1) by auto
  have o: "ordered rank (held (snd st) j) (fst st j)" using assms(1) by (simp add: inv_def)
  have "m \<in> held (snd st) j" using j by (simp add: held_def)
  then have "fst st j \<noteq> []" using o by auto
  then obtain m' p' where m': "fst st j = Lock m' # p'"
    using blocked [OF assms(1,2)] by blast
  then have "rank m < rank m'" using o \<open>m \<in> held (snd st) j\<close> by simp
  then have "b - rank m' < k" using less.prems(2) assms(4) by (meson diff_less_mono2 le_trans less_le_trans)
  then show False using less.IH [OF _ m' refl] by blast
qed

lemma stuck_done:
  assumes "inv st" and "\<forall>st'. \<not> lock_step st st'"
  shows "all_done st"
proof (rule ccontr)
  assume "\<not> all_done st"
  then obtain i where i: "fst st i \<noteq> []" by (auto simp: all_done_def)
  obtain b where "\<forall>x. rank x \<le> b" by (rule ranks_bounded)
  then show False using wait_chain [OF assms] blocked [OF assms i] by blast
qed

lemma no_deadlock:
  assumes "lock_step\<^sup>*\<^sup>* (start_locks program) st"
  shows "\<not> deadlock st"
  using stuck_done [OF inv_reach [OF assms]] by (auto simp: deadlock_def)

text \<open>Every step uses up an operation, so the threads can always be brought to their ends.\<close>

definition work :: "'i lock_state \<Rightarrow> nat" where
  "work st = (\<Sum>i \<in> threads_of. length (fst st i))"

lemma work_step:
  assumes "lock_step st st'" and "inv st"
  shows "work st' < work st"
proof -
  obtain i a p where i: "fst st i = a # p" "fst st' = (fst st)(i := p)"
    using assms(1) by (auto elim!: lock_step.cases)
  then have "i \<in> threads_of" using assms(2) by (auto simp: inv_def)
  then show ?thesis
    using i finite_threads unfolding work_def
    by (intro sum_strict_mono_ex1) (auto intro!: bexI [of _ i])
qed

lemma can_finish:
  assumes "inv st"
  shows "\<exists>st'. lock_step\<^sup>*\<^sup>* st st' \<and> all_done st'"
  using assms
proof (induction "work st" arbitrary: st rule: less_induct)
  case less
  show ?case
  proof (cases "all_done st")
    case False
    then have "\<exists>st'. lock_step st st'" using stuck_done [OF less.prems] by blast
    then obtain st' where st': "lock_step st st'" by blast
    then obtain st'' where "lock_step\<^sup>*\<^sup>* st' st''" "all_done st''"
      using less.hyps [OF work_step [OF st' less.prems] inv_step [OF st' less.prems]] by blast
    then show ?thesis using st' by (meson converse_rtranclp_into_rtranclp)
  qed (blast intro: rtranclp.rtrancl_refl)
qed

end

section \<open>The threads that serve\<close>

definition lock_rank :: "mutex \<Rightarrow> nat" where
  "lock_rank m =
     (case m of
        Log_lock \<Rightarrow> 0
      | Route_map_lock \<Rightarrow> 1
      | Config_lock \<Rightarrow> 2
      | _ \<Rightarrow> 3)"

text \<open>Thread \<open>i\<close> serves the \<open>i\<close>-th list of requests, each a URI with the class that handles it.\<close>

definition serving_program ::
  "map_order \<Rightarrow> router \<Rightarrow> (handler_class \<times> string) list list \<Rightarrow> nat \<Rightarrow> lock_op list" where
  "serving_program ord rt reqs i =
     (if i < length reqs
      then concat (map (\<lambda>(cls, uri). route_request_ops ord cls uri rt) (reqs ! i)) else [])"

lemma ordered_append:
  "ordered rank H p \<Longrightarrow> ordered rank {} q \<Longrightarrow> ordered rank H (p @ q)"
  by (induction rank H p rule: ordered.induct) auto

lemma ordered_concat: "(\<And>p. p \<in> set ps \<Longrightarrow> ordered rank {} p) \<Longrightarrow> ordered rank {} (concat ps)"
  by (induction ps) (auto intro: ordered_append)

lemma route_request_ordered: "ordered lock_rank {} (route_request_ops ord cls uri rt)"
  unfolding route_request_ops_def select_handler_ops_def handler_ops_def prefix_match_ops_def
    route_handler_ops_def handler_config_ops_def guarded_def
  by (simp add: lock_rank_def split: option.split)

interpretation serving: lock_order lock_rank "serving_program ord rt reqs" "{..<length reqs}"
  by unfold_locales
    (auto simp: serving_program_def intro!: ordered_concat route_request_ordered)

section \<open>Properties\<close>

text \<open>
  C14. Serving cannot deadlock: however many threads route however many requests, whichever handlers
  answer them, and however their lock operations interleave, some thread that is not done can go
  on; and from every state they reach all threads can come to their ends.
\<close>

theorem serving_never_deadlocks:
  assumes "lock_step\<^sup>*\<^sup>* (start_locks (serving_program ord rt reqs)) st"
  shows "\<not> deadlock st \<and> (\<exists>st'. lock_step\<^sup>*\<^sup>* st st' \<and> all_done st')"
  using serving.no_deadlock [OF assms] serving.can_finish [OF serving.inv_reach [OF assms]] by blast

lemma serving_never_deadlocks_witness:
  "\<exists>st'. lock_step\<^sup>*\<^sup>* (start_locks (serving_program rev two_routes
      [[(Static_file_handler, ''/static/a.txt'')], [(Default_handler, ''/x''), (Status_handler, ''/s'')]])) st'
    \<and> all_done st'"
  using serving_never_deadlocks [OF rtranclp.rtrancl_refl] by blast

text \<open>
  C35. Registration while serving can deadlock: \<open>register_routes_from_config\<close> holds the lock of the
  configuration when it takes that of the route map, and a lookup that misses holds the lock of
  the route map when it takes that of the configuration. With one thread in each, there is a
  schedule after which neither can go on. (The program registers its routes before it starts to
  accept.)
\<close>

theorem registration_can_deadlock:
  assumes "config_locations (rt_config rt) \<noteq> []" and "umap_find (route_map rt) uri = None"
  shows "\<exists>st. lock_step\<^sup>*\<^sup>* (start_locks ((\<lambda>i. [])(0 := register_routes_ops (rt, rec),
            Suc 0 := route_handler_ops uri rt))) st \<and> deadlock st"
proof -
  obtain u h ps where "config_locations (rt_config rt) = (u, h) # ps"
    using assms(1) by (metis neq_Nil_conv surj_pair)
  then obtain p where p: "register_routes_ops (rt, rec) = Lock Config_lock # Lock Route_map_lock # p"
    by (simp add: register_routes_ops_def register_route_ops_def guarded_def)
  obtain q where q: "route_handler_ops uri rt = Lock Route_map_lock # Lock Config_lock # q"
    using assms(2) by (simp add: route_handler_ops_def handler_config_ops_def guarded_def)
  let ?prog = "(\<lambda>i. [])(0 := register_routes_ops (rt, rec), Suc 0 := route_handler_ops uri rt)"
  let ?prog1 = "?prog(0 := Lock Route_map_lock # p)"
  let ?prog2 = "?prog1(Suc 0 := Lock Config_lock # q)"
  let ?own1 = "(\<lambda>m. None)(Config_lock := Some 0)"
  let ?own2 = "?own1(Route_map_lock := Some (Suc 0))"
  have "lock_step (start_locks ?prog) (?prog1, ?own1)"
    unfolding start_locks_def by (rule lock_step.lock) (simp_all add: p)
  moreover have "lock_step (?prog1, ?own1) (?prog2, ?own2)"
    by (rule lock_step.lock) (simp_all add: q)
  ultimately have "lock_step\<^sup>*\<^sup>* (start_locks ?prog) (?prog2, ?own2)"
    by (meson r_into_rtranclp rtranclp_trans)
  moreover have "\<not> lock_step (?prog2, ?own2) st'" for st'
    by (auto elim!: lock_step.cases split: if_splits)
  then have "deadlock (?prog2, ?own2)"
    unfolding deadlock_def all_done_def by (metis fst_conv fun_upd_same list.distinct(1))
  ultimately show ?thesis by blast
qed

definition echo_router :: router where
  "echo_router = new_router sample_config []"

lemma registration_can_deadlock_witness:
  "\<exists>st. lock_step\<^sup>*\<^sup>* (start_locks ((\<lambda>i. [])(0 := register_routes_ops (echo_router, new_recorder),
            Suc 0 := route_handler_ops [] echo_router))) st \<and> deadlock st"
  by (rule registration_can_deadlock)
    (simp_all add: echo_router_def new_router_def config_locations_def block_locations_def
      is_handler_def sample_config_def umap_find_def)

end
