(* ===== verification/Write_Buffer.thy ===== *)
theory Write_Buffer
  imports Session_Claims
begin

text \<open>
  The vector behind an asynchronous write of \<open>src/session.cc\<close>. The session's functions make a
  local vector of the serialised response and pass it to \<open>write\<close> by value; \<open>write\<close> hands
  \<open>async_write\<close> a buffer, which is an address and a size, and returns. The write takes bytes from
  that address when it is started and again whenever the socket is ready for more.

  Theory Session gives the write the bytes of the vector at the call. Here the vectors live in a
  memory, and are deleted where their scope ends; how many bytes the socket takes each time is a
  parameter.
\<close>

section \<open>Vectors in memory\<close>

record vectors =
  live :: "nat \<rightharpoonup> string"
  fresh :: nat

definition new_vector :: "string \<Rightarrow> vectors \<Rightarrow> nat \<times> vectors" where
  "new_vector bytes m =
     (fresh m, m\<lparr>live := (live m)(fresh m \<mapsto> bytes), fresh := fresh m + 1\<rparr>)"

definition delete_vector :: "nat \<Rightarrow> vectors \<Rightarrow> vectors" where
  "delete_vector a m = m\<lparr>live := (live m)(a := None)\<rparr>"

text \<open>Addresses that were given out are not given out again.\<close>

definition vectors_ok :: "vectors \<Rightarrow> bool" where
  "vectors_ok m \<longleftrightarrow> (\<forall>a \<ge> fresh m. live m a = None)"

section \<open>The write\<close>

record buffer_write =
  buffer_at :: nat
  buffer_size :: nat
  bytes_sent :: string

text \<open>The socket takes up to \<open>k\<close> bytes; a write that is complete reads nothing.\<close>

definition take_some :: "nat \<Rightarrow> vectors \<Rightarrow> buffer_write \<Rightarrow> buffer_write result" where
  "take_some k m bw =
     (if length (bytes_sent bw) = buffer_size bw then Inr bw
      else
        (case live m (buffer_at bw) of
           None \<Rightarrow> Inl Undefined_behaviour
         | Some v \<Rightarrow>
             Inr (bw\<lparr>bytes_sent := bytes_sent bw @ take k (drop (length (bytes_sent bw)) v)\<rparr>)))"

text \<open>\<open>write\<close>, with its parameter, of which it takes \<open>k\<close> bytes at once.\<close>

definition write_call :: "nat \<Rightarrow> string \<Rightarrow> vectors \<Rightarrow> (buffer_write \<times> vectors) result" where
  "write_call k bytes m =
     (case new_vector bytes m of
        (data, m') \<Rightarrow>
          result_bind (take_some k m'
              \<lparr>buffer_at = data, buffer_size = length bytes, bytes_sent = []\<rparr>) (\<lambda>bw.
            Inr (bw, delete_vector data m')))"

text \<open>The last lines of the session's functions: the local vector and the call.\<close>

definition send_response ::
  "nat \<Rightarrow> header_order \<Rightarrow> response \<Rightarrow> vectors \<Rightarrow> (buffer_write \<times> vectors) result" where
  "send_response k hord resp m =
     (case new_vector (fst (generate_response hord resp)) m of
        (bytes, m') \<Rightarrow>
          (case live m' bytes of
             None \<Rightarrow> Inl Undefined_behaviour
           | Some copied \<Rightarrow>
               result_bind (write_call k copied m') (\<lambda>(bw, m'').
                 Inr (bw, delete_vector bytes m''))))"

text \<open>What the socket takes later, piece by piece, until the write is complete.\<close>

fun continue_write :: "nat list \<Rightarrow> vectors \<Rightarrow> buffer_write \<Rightarrow> buffer_write result" where
  "continue_write [] m bw = Inr bw"
| "continue_write (k # ks) m bw = result_bind (take_some k m bw) (continue_write ks m)"

section \<open>What reaches the peer\<close>

lemma fresh_not_live: "vectors_ok m \<Longrightarrow> live m (fresh m) = None"
  by (simp add: vectors_ok_def)

lemma delete_new:
  "vectors_ok m \<Longrightarrow> live (delete_vector (fresh m) (snd (new_vector v m))) = live m"
  using fresh_not_live [of m] by (auto simp: delete_vector_def new_vector_def)

lemma new_vector_ok: "vectors_ok m \<Longrightarrow> vectors_ok (snd (new_vector v m))"
  by (simp add: vectors_ok_def new_vector_def)

lemma write_call_eq:
  "write_call k bytes m =
     Inr (\<lparr>buffer_at = fresh m, buffer_size = length bytes, bytes_sent = take k bytes\<rparr>,
          delete_vector (fresh m) (snd (new_vector bytes m)))"
  by (simp add: write_call_def new_vector_def take_some_def)

lemma send_response_eq:
  assumes "vectors_ok m" and "session_write hord resp = Async_write out"
  obtains m' where "send_response k hord resp m =
      Inr (\<lparr>buffer_at = fresh m + 1, buffer_size = length out, bytes_sent = take k out\<rparr>, m')"
    and "live m' = live m" and "live m' (fresh m + 1) = None"
proof -
  let ?m1 = "snd (new_vector out m)"
  let ?m2 = "delete_vector (fresh m + 1) (snd (new_vector out ?m1))"
  let ?m3 = "delete_vector (fresh m) ?m2"
  have "live m (fresh m + 1) = None" using assms(1) by (simp add: vectors_ok_def)
  moreover have "live ?m2 = live ?m1"
    using delete_new [OF new_vector_ok [OF assms(1)], of out out] by (simp add: new_vector_def)
  then have "live ?m3 = live m"
    using fresh_not_live [OF assms(1)] by (auto simp: delete_vector_def new_vector_def)
  moreover have "send_response k hord resp m =
      Inr (\<lparr>buffer_at = fresh m + 1, buffer_size = length out, bytes_sent = take k out\<rparr>, ?m3)"
    using assms(2) by (simp add: send_response_def write_call_eq session_write_def new_vector_def)
  ultimately show ?thesis using that by metis
qed

lemma continue_complete:
  "length (bytes_sent bw) = buffer_size bw \<Longrightarrow> continue_write ks m bw = Inr bw"
  by (induction ks) (simp_all add: take_some_def)

lemma continue_dangling:
  assumes "length (bytes_sent bw) \<noteq> buffer_size bw" and "live m (buffer_at bw) = None"
  shows "continue_write (k # ks) m bw = Inl Undefined_behaviour"
  using assms by (simp add: take_some_def)

text \<open>
  C38. The functions leave no vector behind, the two they make are gone when they return. So the
  response reaches the peer as theory Session has it when the socket takes all of it in the call,
  whatever happens later; and when it takes less, the next piece is read from a vector that no
  longer exists. Were the vector kept until the write is complete, the pieces would add up to the
  response (\<open>kept_vector_delivers\<close>).
\<close>

theorem write_delivers_iff:
  assumes "vectors_ok m" and "session_write hord resp = Async_write out"
  shows "\<exists>bw m'. send_response k hord resp m = Inr (bw, m') \<and> live m' = live m
    \<and> bytes_sent bw = take k out
    \<and> (\<forall>j ks. continue_write (j # ks) m' bw
          = (if length out \<le> k then Inr bw else Inl Undefined_behaviour))"
proof (rule send_response_eq [OF assms])
  fix m'
  let ?bw = "\<lparr>buffer_at = fresh m + 1, buffer_size = length out, bytes_sent = take k out\<rparr>"
  assume sent: "send_response k hord resp m = Inr (?bw, m')" "live m' = live m"
    "live m' (fresh m + 1) = None"
  have "continue_write (j # ks) m' ?bw = (if length out \<le> k then Inr ?bw else Inl Undefined_behaviour)"
    for j ks
    using continue_complete [of ?bw "j # ks" m'] continue_dangling [of ?bw m' j ks] sent(3) by simp
  then show ?thesis using sent by (intro exI [of _ ?bw] exI [of _ m']) simp
qed

lemma kept_vector_delivers:
  assumes "live m a = Some v" and "length v \<le> k + sum_list ks"
  shows "continue_write ks m \<lparr>buffer_at = a, buffer_size = length v, bytes_sent = take k v\<rparr>
    = Inr \<lparr>buffer_at = a, buffer_size = length v, bytes_sent = v\<rparr>"
  using assms(2)
proof (induction ks arbitrary: k)
  case (Cons j ks)
  have "take_some j m \<lparr>buffer_at = a, buffer_size = length v, bytes_sent = take k v\<rparr>
      = Inr \<lparr>buffer_at = a, buffer_size = length v, bytes_sent = take (k + j) v\<rparr>"
    using assms(1) by (auto simp: take_some_def take_add)
  then show ?case using Cons.IH [of "k + j"] Cons.prems by (simp add: add.assoc)
qed simp

lemma write_delivers_iff_witness:
  "\<exists>bw m'. send_response 10 rev (typed_response 200 ''OK'' ''text/plain'')
       \<lparr>live = Map.empty, fresh = 0\<rparr> = Inr (bw, m')
     \<and> bytes_sent bw = ''HTTP/1.1 2'' \<and> continue_write [100] m' bw = Inl Undefined_behaviour"
proof -
  let ?resp = "typed_response 200 ''OK'' ''text/plain''" and ?m = "\<lparr>live = Map.empty, fresh = 0 :: nat\<rparr>"
  let ?out = "fst (generate_response rev ?resp)"
  have "vectors_ok ?m" by (simp add: vectors_ok_def)
  moreover have "session_write rev ?resp = Async_write ?out" by (simp add: session_write_def)
  moreover have "take 10 ?out = ''HTTP/1.1 2''" "\<not> length ?out \<le> 10" by code_simp+
  ultimately show ?thesis using write_delivers_iff [of ?m rev ?resp ?out 10] by auto
qed

end
