(* ===== verification/Meme_Locked.thy ===== *)
theory Meme_Locked
  imports Meme_Spec
begin

text \<open>
  A request for the memes that finds the database locked. The code sets no time to wait, so the
  statement fails at once; what \<open>src/meme_handler.cc\<close> makes of that depends on the call. A meme
  that is to be created, changed or removed gives status 500. The functions that read report no
  error, so a locked database looks like an empty one: a meme that exists is answered 404, and
  the list and the search are answered 200 with an empty list.
\<close>

section \<open>The answers\<close>

definition not_done :: "string \<Rightarrow> response result" where
  "not_done what =
     Inr (text_response 500 (''An error occurred while trying to '' @ what @ '' the provided meme!''))"

definition answers_locked :: "meme_call \<Rightarrow> response result" where
  "answers_locked call =
     (case call of
        Create v \<Rightarrow> not_done ''create''
      | Replace i v \<Rightarrow> not_done ''update''
      | Remove i \<Rightarrow> not_done ''delete''
      | Show i \<Rightarrow> meme_not_found
      | List_all \<Rightarrow> json_ok (listing [])
      | Search q \<Rightarrow> json_ok (listing [])
      | Reply resp \<Rightarrow> Inr resp
      | Undecodable \<Rightarrow> Inl decode_failure)"

lemma empty_listing: "list_response (Inr []) = json_ok (listing [])"
  by (simp add: list_response_def sort_memes_def json_ok_def listing_def)

section \<open>The handler gives them\<close>

context shared_sql
begin

text \<open>What a call on a locked database comes to: its answer, and the memes as they were.\<close>

definition refuses :: "meme_call \<Rightarrow> 'db \<Rightarrow> response result \<times> 'db \<Rightarrow> bool" where
  "refuses call db out \<longleftrightarrow> fst out = answers_locked call \<and> memes (snd out) = memes db"

lemma locked_list: "refuses List_all db (meme_list bq h req db)"
  using locked_records(4) [of "table_name h" "[]" db]
  by (auto simp: refuses_def answers_locked_def meme_list_def empty_listing)

lemma locked_search:
  "refuses (case UriDecode q of Inl e \<Rightarrow> Undecodable | Inr d \<Rightarrow> Search (c_string d)) db
     (meme_search bq h req q db)"
proof (cases "UriDecode q")
  case (Inl e)
  then show ?thesis
    using UriDecode_fault [of q e]
    by (simp add: refuses_def answers_locked_def meme_search_def decode_failure_def)
next
  case (Inr d)
  then show ?thesis
    using locked_records(5) [of "table_name h" "[(field_names h ! 2, d), (field_names h ! 3, d)]" db]
    by (auto simp: refuses_def answers_locked_def meme_search_def empty_listing)
qed

lemma locked_show: "refuses (Show i) db (get_meme_by_id bq h req j db)"
  using locked_records(4) [of "table_name h" "[(field_names h ! 0, j)]" db]
  by (auto simp: refuses_def answers_locked_def get_meme_by_id_def meme_not_found_def)

lemma locked_create:
  assumes "req_method req = ''POST''"
  shows "refuses (call_of req) db (create_meme bq new h req db)"
  using checked_body_cases [of req]
proof (elim disjE exE conjE)
  fix t a b
  assume "body_check (request_body req) [] = Inr (True, [t, a, b])"
    and "checked_body req = Inr (Some (t, a, b))"
  then show ?thesis
    using locked_records(1) [of "table_name h" "[(field_names h ! 0, new), (field_names h ! 1, t),
        (field_names h ! 2, a), (field_names h ! 3, b), (field_names h ! 4, ''0'')]" db] assms
    by (auto simp: refuses_def answers_locked_def call_of_def create_meme_def generate_new_meme_def
        Let_def not_done_def)
qed (simp_all add: assms refuses_def answers_locked_def call_of_def create_meme_def)

lemma locked_replace:
  assumes "req_method req = ''PUT''"
  shows "refuses (call_of req) db (update_meme bq h req (check_uri (req_uri req)) db)"
  using checked_body_cases [of req]
proof (elim disjE exE conjE)
  let ?i = "check_uri (req_uri req)"
  fix t a b
  assume "body_check (request_body req) [] = Inr (True, [t, a, b])"
    and "checked_body req = Inr (Some (t, a, b))"
  then show ?thesis
    using locked_records(2) [of "table_name h" "[(field_names h ! 1, t), (field_names h ! 2, a),
        (field_names h ! 3, b)]" "[(field_names h ! 0, ?i)]" db] assms
    by (cases "check_id ?i")
      (auto simp: refuses_def answers_locked_def call_of_def update_meme_def not_done_def)
qed (simp_all add: assms refuses_def answers_locked_def call_of_def update_meme_def)

lemma locked_remove:
  assumes "req_method req = ''DELETE''"
  shows "refuses (call_of req) db (delete_meme bq h req (check_uri (req_uri req)) db)"
  using locked_records(3) [of "table_name h" "[(field_names h ! 0, check_uri (req_uri req))]" db] assms
  by (auto simp: refuses_def answers_locked_def call_of_def delete_meme_def not_done_def)

lemma locked_reply: "refuses (Reply resp) db (Inr resp, db)"
  by (simp add: refuses_def answers_locked_def)

lemma refuses_if:
  "(c \<Longrightarrow> refuses p db x) \<Longrightarrow> (\<not> c \<Longrightarrow> refuses q db y) \<Longrightarrow>
     refuses (if c then p else q) db (if c then x else y)"
  by simp

lemma locked_get:
  assumes "req_method req = ''GET''"
  shows "refuses (call_of req) db (meme_handle_request bq new h req db)"
proof -
  let ?i = "check_uri (req_uri req)"
  have "refuses (get_call ?i req) db
    (if ?i = ''create'' \<or> ?i = ''create/'' then (Inr (redirect_request req ''create''), db)
     else if ?i = ''view'' \<or> ?i = ''view/'' then (Inr (redirect_request req ''list''), db)
     else if 7 < length ?i \<and> take 7 ?i = ''manage/'' then (Inr (redirect_request req ?i), db)
     else if 5 < length ?i \<and> take 5 ?i = ''view/'' then
       (Inr (redirect_request req (drop 5 ?i)), db)
     else if ?i = [] \<or> ?i = ''/'' then meme_list bq h req db
     else if 7 < length ?i \<and> take 7 ?i = ''search/'' then meme_search bq h req (drop 7 ?i) db
     else get_meme_by_id bq h req ?i db)"
    unfolding get_call_def pages(1,2)
  proof (intro refuses_if locked_reply locked_list locked_search locked_show)
    assume "7 < length ?i \<and> take 7 ?i = ''manage/''"
    then show "refuses (Reply (redirect_to (''/web/memes/manage.html?id='' @ drop 7 ?i))) db
        (Inr (redirect_request req ?i), db)"
      using pages(3) locked_reply by metis
  qed
  then show ?thesis using assms by (simp add: call_of_def meme_handle_request_def Let_def)
qed

lemma locked_handler:
  assumes "meme_handle_request bq new h req db = (r, db')"
  shows "r = answers_locked (call_of req)" and "memes db' = memes db"
proof -
  consider "req_method req = ''POST''" | "req_method req = ''PUT''" | "req_method req = ''DELETE''"
    | "req_method req = ''GET''"
    | "req_method req \<notin> {''POST'', ''PUT'', ''DELETE'', ''GET''}" by blast
  then have "refuses (call_of req) db (meme_handle_request bq new h req db)"
  proof cases
    case 4
    then show ?thesis by (rule locked_get)
  next
    case 5
    then show ?thesis
      using locked_reply by (simp add: meme_handle_request_def call_of_def)
  qed (simp_all add: meme_handle_request_def locked_create locked_replace locked_remove)
  then show "r = answers_locked (call_of req)" and "memes db' = memes db"
    using assms by (simp_all add: refuses_def)
qed

end

end
