(* ===== verification/Meme_Threads.thy ===== *)
theory Meme_Threads
  imports Meme_Locked
begin

text \<open>
  Threads that use \<open>src/meme_handler.cc\<close> at the same time. Each request makes a handler of its
  own, on a connection of its own, and issues one statement to the database, but for the request
  that shows a meme, which selects its row and then writes its view counter. A step is one of
  these accesses, and the accesses of different threads interleave freely. A statement is atomic,
  but it may find the database locked by another connection; the code sets no time to wait for
  the lock, so the statement then fails at once. A step has two engines, one for the statements that get
  their lock and one for those that do not.

  Theory Meme_Views asks how far the counter of one meme can be off. Here all calls are mixed:
  but for the counters, the threads behave as if each call took effect at one moment between its
  arrival and its answer, and a call that meets a lock has no effect.
\<close>

section \<open>The two statements that show a meme\<close>

text \<open>
  What the method has after its first statement: the row and the value for the counter, if there
  is a row, and the response, in which the second statement makes no difference.
\<close>

definition show_select ::
  "'db sqlite \<Rightarrow> meme_handler \<Rightarrow> string \<Rightarrow> 'db \<Rightarrow>
     ((string \<times> string) option \<times> response) result \<times> 'db" where
  "show_select sq h meme_id db =
     (case select_record sq (table_name h) [(field_names h ! 0, meme_id)] db of
        (Inl e, db') \<Rightarrow> (Inl e, db')
      | (Inr result, db') \<Rightarrow>
          if length result \<noteq> 1 then
            (Inr (None, text_response 404 ''The requested file could not be found!''), db')
          else
            (let row = result ! 0 in
             (result_bind (nth_res row 1) (\<lambda>img. result_bind (nth_res row 2) (\<lambda>upper.
              result_bind (nth_res row 3) (\<lambda>lower. result_bind (nth_res row 4) (\<lambda>v.
              result_bind (next_views v) (\<lambda>v'.
                Inr (Some (row ! 0, v'),
                     if img = [] \<or> upper = [] \<or> lower = [] then
                       typed_response 400 ''The provided meme has been corrupted!''
                         (get_mime_type ''.txt'')
                     else typed_response 200 (meme_json img upper lower)
                            (get_mime_type ''.json''))))))), db')))"

definition show_count ::
  "'db sqlite \<Rightarrow> meme_handler \<Rightarrow> string \<times> string \<Rightarrow> 'db \<Rightarrow> 'db" where
  "show_count sq h row db =
     (case row of (row_id, v') \<Rightarrow>
        snd (update_record sq (table_name h) [(field_names h ! 4, v')]
               [(field_names h ! 0, row_id)] db))"

text \<open>One after the other they are the method.\<close>

lemma show_statements:
  "get_meme_by_id sq h req meme_id db =
     (case show_select sq h meme_id db of
        (Inl e, db') \<Rightarrow> (Inl e, db')
      | (Inr (None, resp), db') \<Rightarrow> (Inr resp, db')
      | (Inr (Some row, resp), db') \<Rightarrow> (Inr resp, show_count sq h row db'))"
proof (cases "select_record sq (table_name h) [(field_names h ! 0, meme_id)] db")
  case (Pair res db')
  show ?thesis
  proof (cases res)
    case (Inl e)
    then show ?thesis using Pair by (simp add: get_meme_by_id_def show_select_def)
  next
    case (Inr rows)
    let ?row = "rows ! 0"
    let ?read = "result_bind (nth_res ?row 1) (\<lambda>img. result_bind (nth_res ?row 2) (\<lambda>upper.
       result_bind (nth_res ?row 3) (\<lambda>lower. result_bind (nth_res ?row 4) (\<lambda>v.
       result_bind (next_views v) (\<lambda>v'. Inr (img, upper, lower, v'))))))"
    have "show_select sq h meme_id db =
        (if length rows \<noteq> 1 then
           (Inr (None, text_response 404 ''The requested file could not be found!''), db')
         else (result_bind ?read (\<lambda>(img, upper, lower, v').
           Inr (Some (?row ! 0, v'),
                if img = [] \<or> upper = [] \<or> lower = [] then
                  typed_response 400 ''The provided meme has been corrupted!'' (get_mime_type ''.txt'')
                else typed_response 200 (meme_json img upper lower) (get_mime_type ''.json''))), db'))"
      using Pair Inr
      by (simp add: show_select_def result_bind_def Let_def split: sum.split)
    then show ?thesis
      using Pair Inr
      by (cases ?read) (auto simp: get_meme_by_id_def show_count_def Let_def split: prod.split)
  qed
qed

text \<open>The requests that end in this method, and the identifier they give it.\<close>

definition show_target :: "request \<Rightarrow> string option" where
  "show_target req =
     (let check = check_uri (req_uri req) in
      if req_method req = ''GET''
         \<and> \<not> (check = ''create'' \<or> check = ''create/'')
         \<and> \<not> (check = ''view'' \<or> check = ''view/'')
         \<and> \<not> (7 < length check \<and> take 7 check = ''manage/'')
         \<and> \<not> (5 < length check \<and> take 5 check = ''view/'')
         \<and> \<not> (check = [] \<or> check = ''/'')
         \<and> \<not> (7 < length check \<and> take 7 check = ''search/'')
      then Some check else None)"

lemma show_target_Some:
  assumes "show_target req = Some i"
  shows "meme_handle_request sq new h req db = get_meme_by_id sq h req i db"
    and "call_of req = Show (c_string i)"
proof -
  let ?i = "check_uri (req_uri req)"
  have i: "req_method req = ''GET''" "?i = i"
      "\<not> (?i = ''create'' \<or> ?i = ''create/'')" "\<not> (?i = ''view'' \<or> ?i = ''view/'')"
      "\<not> (7 < length ?i \<and> take 7 ?i = ''manage/'')" "\<not> (5 < length ?i \<and> take 5 ?i = ''view/'')"
      "\<not> (?i = [] \<or> ?i = ''/'')" "\<not> (7 < length ?i \<and> take 7 ?i = ''search/'')"
    using assms unfolding show_target_def Let_def by (metis option.distinct(1) option.inject)+
  have "meme_handle_request sq new h req db = get_meme_by_id sq h req ?i db"
    unfolding meme_handle_request_def Let_def using i(1)
    by (simp only: i(3-8) if_False if_True refl) simp
  then show "meme_handle_request sq new h req db = get_meme_by_id sq h req i db"
    by (simp only: i(2))
  have "call_of req = Show (c_string ?i)"
    unfolding call_of_def Let_def get_call_def using i(1)
    by (simp only: i(3-8) if_False if_True refl) simp
  then show "call_of req = Show (c_string i)" by (simp only: i(2))
qed

lemma show_target_None:
  assumes "show_target req = None"
  shows "call_of req \<noteq> Show i"
proof (cases "req_method req = ''GET''")
  case True
  let ?i = "check_uri (req_uri req)"
  have "get_call ?i req \<noteq> Show i"
    using assms True unfolding show_target_def get_call_def Let_def
    by (auto split: if_splits sum.splits)
  then show ?thesis using True by (simp add: call_of_def)
next
  case False
  then show ?thesis
    by (auto simp: call_of_def Let_def split: sum.splits option.splits)
qed

section \<open>Threads\<close>

text \<open>
  A call has arrived, has made its handler, has selected its row and the counter is still to be
  written, or is answered. An event is the moment a call takes effect: the number of its thread,
  the identifier that would be generated and the request, whether its statement has met a lock,
  and what it will be answered.
\<close>

type_synonym meme_query = "string \<times> request"

datatype meme_pc =
    Sent
  | Opened meme_handler
  | Viewing meme_handler "string \<times> string" response
  | Answered "response result"

type_synonym 'db meme_pool = "(meme_query \<times> meme_pc) list \<times> 'db"
type_synonym meme_event = "nat \<times> meme_query \<times> bool \<times> response result"

text \<open>The engine a statement runs on: \<open>bq\<close> if it finds the database locked.\<close>

definition attempt :: "'db sqlite \<Rightarrow> 'db sqlite \<Rightarrow> bool \<Rightarrow> 'db sqlite" where
  "attempt sq bq locked = (if locked then bq else sq)"

lemma attempt_simps [simp]: "attempt sq bq True = bq" "attempt sq bq False = sq"
  by (simp_all add: attempt_def)

inductive meme_step ::
  "'db sqlite \<Rightarrow> 'db sqlite \<Rightarrow> block option \<Rightarrow> string \<Rightarrow> 'db meme_pool \<Rightarrow> meme_event option \<Rightarrow>
     'db meme_pool \<Rightarrow> bool"
  for sq bq config root where
  arrived:
    "meme_step sq bq config root (ts, db) None (ts @ [(q, Sent)], db)"
| opened:
    "i < length ts \<Longrightarrow> ts ! i = (q, Sent) \<Longrightarrow>
     create_meme_handler (attempt sq bq l) config root db = (Inr h, db') \<Longrightarrow>
     meme_step sq bq config root (ts, db) None (ts[i := (q, Opened h)], db')"
| refused:
    "i < length ts \<Longrightarrow> ts ! i = (q, Sent) \<Longrightarrow>
     create_meme_handler (attempt sq bq l) config root db = (Inl e, db') \<Longrightarrow>
     meme_step sq bq config root (ts, db) None (ts[i := (q, Answered (Inl e))], db')"
| answered:
    "i < length ts \<Longrightarrow> ts ! i = ((new, req), Opened h) \<Longrightarrow> show_target req = None \<Longrightarrow>
     meme_handle_request (attempt sq bq l) new h req db = (r, db') \<Longrightarrow>
     meme_step sq bq config root (ts, db) (Some (i, (new, req), l, r))
       (ts[i := ((new, req), Answered r)], db')"
| selected:
    "i < length ts \<Longrightarrow> ts ! i = ((new, req), Opened h) \<Longrightarrow> show_target req = Some meme_id \<Longrightarrow>
     show_select (attempt sq bq l) h meme_id db = (Inr (Some row, resp), db') \<Longrightarrow>
     meme_step sq bq config root (ts, db) (Some (i, (new, req), l, Inr resp))
       (ts[i := ((new, req), Viewing h row resp)], db')"
| not_there:
    "i < length ts \<Longrightarrow> ts ! i = ((new, req), Opened h) \<Longrightarrow> show_target req = Some meme_id \<Longrightarrow>
     show_select (attempt sq bq l) h meme_id db = (Inr (None, resp), db') \<Longrightarrow>
     meme_step sq bq config root (ts, db) (Some (i, (new, req), l, Inr resp))
       (ts[i := ((new, req), Answered (Inr resp))], db')"
| select_failed:
    "i < length ts \<Longrightarrow> ts ! i = ((new, req), Opened h) \<Longrightarrow> show_target req = Some meme_id \<Longrightarrow>
     show_select (attempt sq bq l) h meme_id db = (Inl e, db') \<Longrightarrow>
     meme_step sq bq config root (ts, db) (Some (i, (new, req), l, Inl e))
       (ts[i := ((new, req), Answered (Inl e))], db')"
| counted:
    "i < length ts \<Longrightarrow> ts ! i = (q, Viewing h row resp) \<Longrightarrow>
     meme_step sq bq config root (ts, db) None
       (ts[i := (q, Answered (Inr resp))], show_count (attempt sq bq l) h row db)"

inductive meme_run ::
  "'db sqlite \<Rightarrow> 'db sqlite \<Rightarrow> block option \<Rightarrow> string \<Rightarrow> 'db meme_pool \<Rightarrow> meme_event list \<Rightarrow>
     'db meme_pool \<Rightarrow> bool"
  for sq bq config root st where
  run_start: "meme_run sq bq config root st [] st"
| run_quiet:
    "meme_run sq bq config root st es st' \<Longrightarrow> meme_step sq bq config root st' None st'' \<Longrightarrow>
     meme_run sq bq config root st es st''"
| run_event:
    "meme_run sq bq config root st es st' \<Longrightarrow> meme_step sq bq config root st' (Some e) st'' \<Longrightarrow>
     meme_run sq bq config root st (es @ [e]) st''"

text \<open>A thread that meets no lock and is not interrupted does what \<open>meme_request\<close> does at once.\<close>

lemma request_in_steps:
  assumes "meme_request sq new config root req db = (r, db')"
  shows "\<exists>es. meme_run sq bq config root ([((new, req), Sent)], db) es ([((new, req), Answered r)], db')"
proof -
  let ?q = "(new, req)"
  let ?run = "meme_run sq bq config root ([(?q, Sent)], db)"
  obtain x d where made: "create_meme_handler sq config root db = (x, d)" by fastforce
  show ?thesis
  proof (cases x)
    case (Inl e)
    then have "meme_step sq bq config root ([(?q, Sent)], db) None ([(?q, Answered r)], db')"
      using made assms meme_step.refused [of 0 "[(?q, Sent)]" ?q sq bq False config root db e d]
      by (simp add: meme_request_def)
    then show ?thesis using run_quiet [OF run_start] by blast
  next
    case (Inr h)
    then have "meme_step sq bq config root ([(?q, Sent)], db) None ([(?q, Opened h)], d)"
      using made meme_step.opened [of 0 "[(?q, Sent)]" ?q sq bq False config root db h d] by simp
    then have opened: "?run [] ([(?q, Opened h)], d)" by (rule run_quiet [OF run_start])
    have run: "meme_handle_request sq new h req d = (r, db')"
      using assms made Inr by (simp add: meme_request_def)
    have event: "\<exists>es. ?run es ([(?q, pc)], d')"
      if "meme_step sq bq config root ([(?q, Opened h)], d) (Some e) ([(?q, pc)], d')" for e pc d'
      using run_event [OF opened that] by (rule exI)
    show ?thesis
    proof (cases "show_target req")
      case None
      then show ?thesis
        using meme_step.answered [of 0 "[(?q, Opened h)]" new req h sq bq False d r db' config root] run
        by (intro event) simp
    next
      case (Some i)
      obtain y d1 where sel: "show_select sq h i d = (y, d1)" by fastforce
      have get: "get_meme_by_id sq h req i d = (r, db')"
        using run show_target_Some(1) [OF Some, of sq new h d] by simp
      show ?thesis
      proof (cases y)
        case (Inl e)
        then have "r = Inl e" "db' = d1" using get sel by (simp_all add: show_statements)
        then show ?thesis
          using meme_step.select_failed [of 0 "[(?q, Opened h)]" new req h i sq bq False d e d1 config root]
            Some sel Inl by (intro event) simp
      next
        case y: (Inr z)
        obtain found resp where z: "z = (found, resp)" by fastforce
        show ?thesis
        proof (cases found)
          case None
          then have "r = Inr resp" "db' = d1" using get sel y z by (simp_all add: show_statements)
          then show ?thesis
            using meme_step.not_there [of 0 "[(?q, Opened h)]" new req h i sq bq False d resp d1 config root]
              Some sel y z None by (intro event) simp
        next
          case row: (Some row)
          then have r: "r = Inr resp" "db' = show_count sq h row d1"
            using get sel y z by (simp_all add: show_statements)
          have "\<exists>es. ?run es ([(?q, Viewing h row resp)], d1)"
            using meme_step.selected [of 0 "[(?q, Opened h)]" new req h i sq bq False d row resp d1 config root]
              Some sel y z row by (intro event) simp
          moreover have "meme_step sq bq config root ([(?q, Viewing h row resp)], d1) None
              ([(?q, Answered (Inr resp))], show_count sq h row d1)"
            using meme_step.counted [of 0 "[(?q, Viewing h row resp)]" ?q h row resp sq bq config root d1 False]
            by simp
          ultimately show ?thesis unfolding r by (blast intro: run_quiet)
        qed
      qed
    qed
  qed
qed

section \<open>The service, shared\<close>

text \<open>
  Tables with the same memes, whatever their counters; the calls of the abstract service, where
  showing a meme leaves the counting to someone else; what a call that meets a lock answers, as
  it does nothing; and a history of calls, between which the counters may change.
\<close>

definition same_memes :: "meme_table \<Rightarrow> meme_table \<Rightarrow> bool" where
  "same_memes m m' \<longleftrightarrow>
     (\<forall>i. map_option (\<lambda>(t, a, b, v). (t, a, b)) (m i) = map_option (\<lambda>(t, a, b, v). (t, a, b)) (m' i))"

definition answers_shared ::
  "(string \<Rightarrow> string \<Rightarrow> bool) \<Rightarrow> string \<Rightarrow> meme_call \<Rightarrow> meme_table \<Rightarrow> response result \<Rightarrow> meme_table \<Rightarrow> bool"
  where
  "answers_shared like new call m r m' \<longleftrightarrow>
     (case call of
        Show i \<Rightarrow> m' = m \<and>
          r = (case m i of None \<Rightarrow> meme_not_found | Some (t, a, b, v) \<Rightarrow> json_ok (meme_json t a b))
      | _ \<Rightarrow> answers like new call m r m')"

definition call_answers ::
  "(string \<Rightarrow> string \<Rightarrow> bool) \<Rightarrow> string \<Rightarrow> meme_call \<Rightarrow> bool \<Rightarrow> meme_table \<Rightarrow> response result \<Rightarrow>
     meme_table \<Rightarrow> bool" where
  "call_answers like new call locked m r m' \<longleftrightarrow>
     (if locked then r = answers_locked call \<and> m' = m else answers_shared like new call m r m')"

fun shared_history ::
  "(string \<Rightarrow> string \<Rightarrow> bool) \<Rightarrow> (meme_query \<times> bool \<times> response result) list \<Rightarrow> meme_table \<Rightarrow>
     meme_table \<Rightarrow> bool"
  where
  "shared_history like [] m m' \<longleftrightarrow> same_memes m m'"
| "shared_history like (((new, req), l, r) # es) m m' \<longleftrightarrow>
     (\<exists>m1 m2. same_memes m m1 \<and> call_answers like new (call_of req) l m1 r m2
        \<and> shared_history like es m2 m')"

lemma same_memes_refl [simp]: "same_memes m m"
  by (simp add: same_memes_def)

lemma same_memes_trans: "same_memes m m1 \<Longrightarrow> same_memes m1 m2 \<Longrightarrow> same_memes m m2"
  by (simp add: same_memes_def)

lemma history_same: "shared_history like es m m1 \<Longrightarrow> same_memes m1 m2 \<Longrightarrow> shared_history like es m m2"
proof (induction es arbitrary: m)
  case (Cons e es)
  obtain new req l r where "e = ((new, req), l, r)" by (metis surj_pair)
  then show ?case using Cons by auto
qed (auto intro: same_memes_trans)

lemma history_snoc:
  assumes "shared_history like es m m1" and "call_answers like new (call_of req) l m1 r m2"
  shows "shared_history like (es @ [((new, req), l, r)]) m m2"
  using assms(1)
proof (induction es arbitrary: m)
  case Nil
  then show ?case using assms(2) by simp (metis same_memes_refl)
next
  case (Cons e es)
  obtain new' req' l' r' where "e = ((new', req'), l', r')" by (metis surj_pair)
  then show ?case using Cons by auto
qed

section \<open>The invariant\<close>

definition events_of :: "nat \<Rightarrow> meme_event list \<Rightarrow> meme_event list" where
  "events_of i es = filter (\<lambda>e. fst e = i) es"

lemma events_of_snoc [simp]:
  "events_of i (es @ [e]) = events_of i es @ (if fst e = i then [e] else [])"
  by (simp add: events_of_def)

text \<open>
  The events of a thread in the state it is in; the row of a meme is found only by a statement
  that has met no lock.
\<close>

fun call_events :: "nat \<Rightarrow> bool \<Rightarrow> meme_query \<times> meme_pc \<Rightarrow> meme_event list" where
  "call_events i l (q, Viewing h row resp) = [(i, q, False, Inr resp)]"
| "call_events i l (q, Answered r) = [(i, q, l, r)]"
| "call_events i l (q, _) = []"

fun call_inv :: "nat \<Rightarrow> meme_event list \<Rightarrow> nat \<Rightarrow> meme_query \<times> meme_pc \<Rightarrow> bool" where
  "call_inv n es i (q, Sent) \<longleftrightarrow> events_of i es = []"
| "call_inv n es i (q, Opened h) \<longleftrightarrow> standard h \<and> events_of i es = []"
| "call_inv n es i (q, Viewing h row resp) \<longleftrightarrow>
     standard h \<and> nul \<notin> set (fst row) \<and> (\<exists>k \<le> n. snd row = nat_string k)
     \<and> events_of i es = [(i, q, False, Inr resp)]"
| "call_inv n es i (q, Answered r) \<longleftrightarrow> (\<exists>l. events_of i es = [(i, q, l, r)])"

definition run_inv ::
  "(string \<Rightarrow> string \<Rightarrow> bool) \<Rightarrow> ('db \<Rightarrow> memes) \<Rightarrow> nat \<Rightarrow> meme_table \<Rightarrow> meme_event list \<Rightarrow>
     'db meme_pool \<Rightarrow> bool" where
  "run_inv like memes n m es st \<longleftrightarrow>
     (case st of (ts, db) \<Rightarrow>
        memes_ok (n + length es) (memes db)
        \<and> shared_history like (map snd es) m (table_of (memes db))
        \<and> (\<forall>e \<in> set es. fst e < length ts)
        \<and> (\<forall>i < length ts. call_inv (n + length es) es i (ts ! i)))"

lemma call_inv_events: "call_inv n es i t \<Longrightarrow> \<exists>l. events_of i es = call_events i l t"
  by (cases "(i, True, t)" rule: call_events.cases) auto

lemma call_inv_later:
  assumes "call_inv n es i t" and "fst e \<noteq> i"
  shows "call_inv (Suc n) (es @ [e]) i t"
proof -
  obtain q pc where "t = (q, pc)" by fastforce
  then show ?thesis using assms by (cases pc) (auto intro: le_SucI)
qed

text \<open>A thread that goes on without an event, and one that has one.\<close>

lemma run_inv_quiet:
  assumes "run_inv like memes n m es (ts, db)" and "i < length ts"
    and "call_inv (n + length es) es i t" and "memes_ok (n + length es) (memes db')"
    and "same_memes (table_of (memes db)) (table_of (memes db'))"
  shows "run_inv like memes n m es (ts[i := t], db')"
  using assms history_same by (auto simp: run_inv_def nth_list_update)

lemma run_inv_event:
  assumes "run_inv like memes n m es (ts, db)" and "i < length ts"
    and "call_inv (Suc (n + length es)) (es @ [(i, (new, req), l, r)]) i t"
    and "memes_ok (Suc (n + length es)) (memes db')"
    and "call_answers like new (call_of req) l (table_of (memes db)) r (table_of (memes db'))"
  shows "run_inv like memes n m (es @ [(i, (new, req), l, r)]) (ts[i := t], db')"
  using assms history_snoc [OF _ assms(5)] call_inv_later
  by (auto simp: run_inv_def nth_list_update)

section \<open>Every step keeps it\<close>

context shared_sql
begin

text \<open>The calls of one statement: the statement gets its lock or not.\<close>

lemma one_statement:
  assumes "show_target req = None" and "standard h" and "memes_ok n (memes db)"
    and "int n < int_max" and "nul \<notin> set new"
    and "meme_handle_request (attempt sq bq l) new h req db = (r, db')"
  shows "memes_ok (Suc n) (memes db')"
    and "call_answers like new (call_of req) l (table_of (memes db)) r (table_of (memes db'))"
proof -
  have "memes_ok (Suc n) (memes db')
    \<and> call_answers like new (call_of req) l (table_of (memes db)) r (table_of (memes db'))"
  proof (cases l)
    case True
    then show ?thesis
      using locked_handler [of new h req db] assms(3,6) memes_ok_mono [of n "memes db" "Suc n"]
      by (auto simp: call_answers_def)
  next
    case False
    then have run: "meme_handle_request sq new h req db = (r, db')" using assms(6) by simp
    have "memes_ok (Suc n) (memes db')"
      using meme_handle_keeps [OF assms(2-5), of req] run by (simp add: keeps_memes_def)
    moreover have "answers like new (call_of req) (table_of (memes db)) r (table_of (memes db'))"
      using handler_refines [OF assms(2-5), of req] run by (simp add: refines_def)
    then have "answers_shared like new (call_of req) (table_of (memes db)) r (table_of (memes db'))"
      using show_target_None [OF assms(1)] by (cases "call_of req") (auto simp: answers_shared_def)
    ultimately show ?thesis using False by (simp add: call_answers_def)
  qed
  then show "memes_ok (Suc n) (memes db')"
    and "call_answers like new (call_of req) l (table_of (memes db)) r (table_of (memes db'))"
    by simp_all
qed

lemma show_select_c_string: "show_select sq h (c_string i) db = show_select sq h i db"
proof -
  have c: "c_string (c_string i) = c_string i" by (simp add: c_string_def)
  have "select_record sq t [(k, c_string i)] d = select_record sq t [(k, i)] d" for t k d
    using statement_keys(4) [of "[(k, c_string i)]" "[(k, i)]" t]
    by (simp add: select_record_def bound_def c)
  then show ?thesis by (simp add: show_select_def)
qed

lemma show_select_effect:
  assumes "show_target req = Some i" and "standard h" and "memes_ok n (memes db)"
    and "int n < int_max" and "show_select sq h i db = (x, db')"
  shows "db' = db \<and> (\<exists>row resp. x = Inr (row, resp)
    \<and> answers_shared like new (call_of req) (table_of (memes db)) (Inr resp) (table_of (memes db))
    \<and> (\<forall>i' v. row = Some (i', v) \<longrightarrow> nul \<notin> set i' \<and> (\<exists>k \<le> Suc n. v = nat_string k)))"
proof -
  let ?i = "c_string i"
  have nul: "nul \<notin> set ?i" by (auto simp: c_string_def dest: set_takeWhileD)
  have call: "call_of req = Show ?i" by (rule show_target_Some [OF assms(1)])
  have sel: "select_record sq ''meme_table'' (id_key ?i) db
      = (Inr (case memes db ?i of None \<Rightarrow> [] | Some r \<Rightarrow> [row_texts ?i r]), db)"
    by (rule store.store_sel [OF nul memes_ok_plain [OF assms(3)]])
  have x: "show_select sq h ?i db = (x, db')" using assms(5) by (simp only: show_select_c_string)
  show ?thesis
  proof (cases "memes db ?i")
    case None
    then have "x = Inr (None, text_response 404 ''The requested file could not be found!'')" "db' = db"
      using x sel by (simp_all add: show_select_def standard_keys [OF assms(2)] field_simps)
    then show ?thesis
      using None by (simp add: answers_shared_def call table_of_def meme_not_found_def)
  next
    case (Some r)
    obtain t a b v where r: "r = (t, a, b, v)" by (metis surj_pair)
    have "row_ok n r" using assms(3) Some unfolding memes_ok_def by blast
    then obtain k where k: "v = nat_string k" "k \<le> n" and c: "t \<noteq> []" "a \<noteq> []" "b \<noteq> []"
      by (auto simp: r row_ok_def caption_text_def)
    have "next_views v = Inr (nat_string (Suc k))"
      unfolding k(1) using k(2) assms(4) by (intro next_views_nat) simp
    then have "x = Inr (Some (?i, nat_string (Suc k)),
          typed_response 200 (meme_json t a b) (get_mime_type ''.json''))" "db' = db"
      using x sel Some c
      by (simp_all add: show_select_def standard_keys [OF assms(2)] field_simps r row_texts_def)
    then show ?thesis
      using Some r k nul by (auto simp: answers_shared_def call table_of_def json_ok_def)
  qed
qed

lemma show_count_effect:
  assumes "standard h" and "nul \<notin> set i" and "memes_ok n (memes db)" and "k \<le> n"
  shows "memes_ok n (memes (show_count sq h (i, nat_string k) db))"
    and "same_memes (table_of (memes db)) (table_of (memes (show_count sq h (i, nat_string k) db)))"
proof -
  let ?db = "show_count sq h (i, nat_string k) db"
  have m: "memes ?db = update_row i (with_views (nat_string k)) (memes db)"
    using store.store_upd_views [OF assms(2) nat_string_no_nul, of k db]
    by (auto simp: show_count_def standard_keys [OF assms(1)] field_simps)
  have "row_ok n (with_views (nat_string k) r)" if "row_ok n r" for r
    using that assms(4) by (cases r) (auto simp: row_ok_def with_views_def)
  then show "memes_ok n (memes ?db)" unfolding m using assms(3) by (intro memes_ok_update_row)
  have "map_option (\<lambda>(t, a, b, v). (t, a, b)) (table_of (memes db) j)
      = map_option (\<lambda>(t, a, b, v). (t, a, b)) (table_of (memes ?db) j)" for j
    by (cases "memes db j") (auto simp: m table_of_def update_row_apply with_views_def)
  then show "same_memes (table_of (memes db)) (table_of (memes ?db))" by (simp add: same_memes_def)
qed

lemma opened_handler:
  assumes "create_meme_handler (attempt sq bq l) (Some c) root db = (Inr h, db')"
  shows "standard h" and "memes db' = memes db"
proof -
  have "memes (snd (create_table (attempt sq bq l) ''meme_table'' meme_columns
      (snd (connect (attempt sq bq l) (new_sql_manager ''meme.db'') db)))) = memes db"
    using sql_create [of "snd (sqlite_open sq ''meme.db'' db)"] sql_open [of db]
      locked_exec [of _ "snd (sqlite_open bq ''meme.db'' db)"] locked_open [of _ db]
    by (cases l) (simp_all add: create_table_def statement_texts connect_def new_sql_manager_def
        c_string_plain)
  then show "standard h" and "memes db' = memes db"
    using create_meme_handler_cases [of "attempt sq bq l" c root db] assms by auto
qed

text \<open>The selection on a locked database finds no row.\<close>

lemma select_effect:
  assumes "show_target req = Some i" and "standard h" and "memes_ok n (memes db)"
    and "int n < int_max" and "show_select (attempt sq bq l) h i db = (x, db')"
  shows "memes db' = memes db \<and> (\<exists>row resp. x = Inr (row, resp)
    \<and> call_answers like new (call_of req) l (table_of (memes db)) (Inr resp) (table_of (memes db))
    \<and> (\<forall>i' v. row = Some (i', v) \<longrightarrow>
         \<not> l \<and> nul \<notin> set i' \<and> (\<exists>k \<le> Suc n. v = nat_string k)))"
proof (cases l)
  case True
  obtain d where "select_record bq (table_name h) [(field_names h ! 0, i)] db = (Inr [], d)"
      "memes d = memes db"
    using locked_records(4) by blast
  then show ?thesis
    using assms(5) True show_target_Some(2) [OF assms(1)]
    by (auto simp: show_select_def call_answers_def answers_locked_def meme_not_found_def)
next
  case False
  then show ?thesis
    using show_select_effect [OF assms(1-4), of x db' new] assms(5)
    by (simp add: call_answers_def)
qed

lemma count_effect:
  assumes "standard h" and "nul \<notin> set i" and "memes_ok n (memes db)" and "k \<le> n"
  shows "memes_ok n (memes (show_count (attempt sq bq l) h (i, nat_string k) db))"
    and "same_memes (table_of (memes db))
      (table_of (memes (show_count (attempt sq bq l) h (i, nat_string k) db)))"
proof -
  have locked: "memes (show_count bq h (i, nat_string k) db) = memes db"
    using locked_records(2) [of "table_name h" "[(field_names h ! 4, nat_string k)]"
        "[(field_names h ! 0, i)]" db]
    by (auto simp: show_count_def)
  show "memes_ok n (memes (show_count (attempt sq bq l) h (i, nat_string k) db))"
    using show_count_effect(1) [OF assms] locked assms(3) by (cases l) simp_all
  show "same_memes (table_of (memes db))
      (table_of (memes (show_count (attempt sq bq l) h (i, nat_string k) db)))"
    using show_count_effect(2) [OF assms] locked by (cases l) simp_all
qed

lemma run_inv_step:
  assumes "meme_step sq bq (Some c) root st eo st'" and "run_inv like memes n m es st"
    and "eo \<noteq> None \<Longrightarrow> int (n + length es) < int_max" and "\<forall>e. eo = Some e \<longrightarrow> check_id (fst (fst (snd e)))"
  shows "run_inv like memes n m (es @ (case eo of None \<Rightarrow> [] | Some e \<Rightarrow> [e])) st'"
  using assms(1)
proof (cases rule: meme_step.cases)
  case (arrived ts db q)
  then have "\<forall>e \<in> set es. fst e \<noteq> length ts" using assms(2) by (auto simp: run_inv_def)
  then have "events_of (length ts) es = []" by (simp add: events_of_def filter_empty_conv)
  then show ?thesis
    using arrived assms(2) by (auto simp: run_inv_def nth_append less_Suc_eq)
next
  case (opened i ts q l db h db')
  have "call_inv (n + length es) es i (q, Sent)" "memes_ok (n + length es) (memes db)"
    using opened assms(2) by (auto simp: run_inv_def)
  then show ?thesis
    using opened assms(2) opened_handler [OF opened(6)] by (auto intro: run_inv_quiet)
next
  case (refused i ts q l db e db')
  then show ?thesis using create_meme_handler_cases [of "attempt sq bq l" c root db] by auto
next
  case (answered i ts new req h l db r db')
  have "call_inv (n + length es) es i ((new, req), Opened h)" "memes_ok (n + length es) (memes db)"
    using answered assms(2) by (auto simp: run_inv_def)
  moreover have "nul \<notin> set new" using answered(2) assms(4) check_id_facts(3) by auto
  ultimately have "memes_ok (Suc (n + length es)) (memes db')"
      "call_answers like new (call_of req) l (table_of (memes db)) r (table_of (memes db'))"
      "events_of i es = []"
    using one_statement [OF answered(6) _ _ _ _ answered(7)] assms(3) answered(2) by simp_all
  then show ?thesis using answered assms(2) by (auto intro!: run_inv_event)
next
  case (selected i ts new req h meme_id l db row resp db')
  have inv: "call_inv (n + length es) es i ((new, req), Opened h)" "memes_ok (n + length es) (memes db)"
    using selected assms(2) by (auto simp: run_inv_def)
  have "standard h" using inv(1) by simp
  moreover have "int (n + length es) < int_max" using assms(3) selected(2) by simp
  ultimately have e: "memes db' = memes db" "\<not> l" "nul \<notin> set (fst row)"
      "\<exists>k \<le> Suc (n + length es). snd row = nat_string k"
      "call_answers like new (call_of req) l (table_of (memes db)) (Inr resp) (table_of (memes db))"
    using select_effect [OF selected(6) _ inv(2) _ selected(7), of new] by (cases row; auto)+
  then show ?thesis
    using selected assms(2) inv memes_ok_mono [OF inv(2)] by (auto intro!: run_inv_event)
next
  case (not_there i ts new req h meme_id l db resp db')
  have inv: "call_inv (n + length es) es i ((new, req), Opened h)" "memes_ok (n + length es) (memes db)"
    using not_there assms(2) by (auto simp: run_inv_def)
  have "standard h" "int (n + length es) < int_max" using inv(1) assms(3) not_there(2) by simp_all
  then have e: "memes db' = memes db"
      "call_answers like new (call_of req) l (table_of (memes db)) (Inr resp) (table_of (memes db))"
    using select_effect [OF not_there(6) _ inv(2) _ not_there(7), of new] by auto
  then show ?thesis
    using not_there assms(2) inv memes_ok_mono [OF inv(2)] by (auto intro!: run_inv_event)
next
  case (select_failed i ts new req h meme_id l db e db')
  have inv: "call_inv (n + length es) es i ((new, req), Opened h)" "memes_ok (n + length es) (memes db)"
    using select_failed assms(2) by (auto simp: run_inv_def)
  then show ?thesis
    using select_effect [OF select_failed(6) _ inv(2) _ select_failed(7), of new] assms(3)
      select_failed(2) by simp
next
  case (counted i ts q h row resp db l)
  have inv: "call_inv (n + length es) es i (q, Viewing h row resp)" "memes_ok (n + length es) (memes db)"
    using counted assms(2) by (auto simp: run_inv_def)
  then obtain k where k: "row = (fst row, nat_string k)" "k \<le> n + length es"
    by (metis call_inv.simps(3) prod.collapse)
  have "memes_ok (n + length es) (memes (show_count (attempt sq bq l) h row db))"
      "same_memes (table_of (memes db)) (table_of (memes (show_count (attempt sq bq l) h row db)))"
    using count_effect [OF _ _ inv(2) k(2), of h "fst row" l] inv(1) k(1) by simp_all
  then show ?thesis using counted assms(2) inv by (auto intro!: run_inv_quiet)
qed

lemma run_inv_run:
  assumes "meme_run sq bq (Some c) root st es st'" and "run_inv like memes n m [] st"
    and "int (n + length es) \<le> int_max" and "\<forall>(i, (new, req), l, r) \<in> set es. check_id new"
  shows "run_inv like memes n m es st'"
  using assms(1,3,4)
proof (induction rule: meme_run.induct)
  case run_start
  then show ?case using assms(2) by simp
next
  case (run_quiet es st' st'')
  then show ?case using run_inv_step [OF run_quiet(2), of n m es] by simp
next
  case (run_event es st' e st'')
  then show ?case using run_inv_step [OF run_event(2), of n m es] by auto
qed

end

section \<open>Property\<close>

text \<open>
  C3. The meme service is linearisable but for the view counters. Take any run of any number of
  threads that arrive at any time, on a table in the handler's invariant, in which any statement
  may find the database locked. Then its events, in the order in which they happen, are a history
  of the abstract service: each call whose statement got its lock answers what the service
  answers on the table the events before it left, up to counters, and changes the memes as the
  service does; a call that met a lock changes nothing, and is answered 500 if it was to create,
  replace or remove a meme, 404 if it was to show one, and with an empty list if it was to list
  or search; counters change only in between. And the event of a call is its own: a
  call that is answered has exactly one event, with its request and its answer, and one that has
  not reached the database has none. So each call takes effect at one moment after it has
  arrived and before it is answered.
\<close>

theorem meme_service_linearisable:
  assumes "shared_sql sq like memes bq" and "memes_ok n (memes db)"
    and "meme_run sq bq (Some c) root ([], db) es (ts, db')" and "int (n + length es) \<le> int_max"
    and "\<forall>(i, (new, req), l, r) \<in> set es. check_id new"
  shows "shared_history like (map snd es) (table_of (memes db)) (table_of (memes db'))
    \<and> (\<forall>i < length ts. \<exists>l. events_of i es = call_events i l (ts ! i))"
proof -
  have "run_inv like memes n (table_of (memes db)) [] ([], db)"
    using assms(2) by (simp add: run_inv_def)
  then have "run_inv like memes n (table_of (memes db)) es (ts, db')"
    using shared_sql.run_inv_run [OF assms(1,3) _ assms(4,5)] by blast
  then show ?thesis using call_inv_events unfolding run_inv_def prod.case by blast
qed

text \<open>
  A view of a meme; in between its two statements another view finds the database locked, and is
  told that there is no such meme, and the meme is removed.
\<close>

definition view_query :: meme_query where
  "view_query = (zero_id, meme_req ''GET'' (''/memes/'' @ zero_id) [])"

definition removal_query :: meme_query where
  "removal_query = (zero_id, meme_req ''DELETE'' (''/memes/'' @ zero_id) [])"

definition sample_events :: "meme_event list" where
  "sample_events =
     [(0, view_query, False, json_ok (meme_json ''cat.jpg'' ''Hi'' ''you'')),
      (1, view_query, True, meme_not_found),
      (2, removal_query, False, Inr (id_response 200 zero_id))]"

lemma sample_handler_made:
  "\<exists>h. standard h \<and> create_meme_handler engine (Some []) [] (db :: table) = (Inr h, db)"
proof -
  have "snd (create_table engine ''meme_table'' meme_columns
      (snd (connect engine (new_sql_manager ''meme.db'') db))) = db"
    by (simp add: create_table_def connect_def list_engine_def)
  then show ?thesis using create_meme_handler_cases [of engine "[]" "[]" db] by metis
qed

lemma sample_threads:
  "\<exists>db'. meme_run engine locked_engine (Some []) [] ([], sample_table) sample_events
     ([(view_query, Answered (json_ok (meme_json ''cat.jpg'' ''Hi'' ''you''))),
       (view_query, Answered meme_not_found),
       (removal_query, Answered (Inr (id_response 200 zero_id)))], db')"
proof -
  let ?run = "meme_run engine locked_engine (Some []) [] ([], sample_table)"
  let ?step = "meme_step engine locked_engine (Some []) []"
  let ?resp = "typed_response 200 (meme_json ''cat.jpg'' ''Hi'' ''you'') (get_mime_type ''.json'')"
  let ?none = "text_response 404 ''The requested file could not be found!''"
  let ?row = "(zero_id, nat_string 8)" and ?v = "view_query" and ?d = "removal_query"
  let ?gone = "Answered (Inr (id_response 200 zero_id))"
  obtain h where h: "standard h" "create_meme_handler engine (Some []) [] sample_table = (Inr h, sample_table)"
    using sample_handler_made [of sample_table] by blast
  have target: "show_target (snd ?v) = Some zero_id" "show_target (snd ?d) = None"
    using zero_id_uri by (simp_all add: show_target_def view_query_def removal_query_def zero_id_def)
  have nul: "nul \<notin> set zero_id" using check_id_facts(3) [OF zero_id_ok] .
  have seven: "nat_string 7 = ''7''" by code_simp
  have "select_record engine ''meme_table'' (id_key zero_id) sample_table
      = (Inr [[zero_id, ''cat.jpg'', ''Hi'', ''you'', nat_string 7]], sample_table)"
    using list_engine.store.store_sel [OF nul memes_ok_plain [OF sample_table_ok]]
    by (simp add: sample_table_def row_texts_def seven)
  moreover have "next_views (nat_string 7) = Inr (nat_string 8)"
    using next_views_nat [of 7] by (simp add: int_max_def)
  ultimately have sel: "show_select engine h zero_id sample_table = (Inr (Some ?row, ?resp), sample_table)"
    by (simp add: show_select_def standard_keys [OF h(1)] field_simps)
  have busy: "show_select locked_engine h zero_id sample_table = (Inr (None, ?none), sample_table)"
    by (simp add: show_select_def select_record_def read_rows_def all_rows_def locked_engine_def)
  obtain db1 where del: "meme_handle_request engine zero_id h (snd ?d) sample_table
      = (Inr (id_response 200 zero_id), db1)"
    using list_engine.delete_meme_effect [OF h(1) zero_id_ok, where like = "(=)" and db = sample_table and req = "snd ?d"] zero_id_uri
    by (auto simp: meme_handle_request_def removal_query_def)
  let ?db = "show_count engine h ?row db1"
  let ?s = "[(?v, Sent), (?v, Sent), (?d, Sent)]" and ?o = "[(?v, Opened h), (?v, Opened h), (?d, Opened h)]"
  note step = meme_step.intros [where sq = engine and bq = locked_engine and config = "Some []" and root = "[]"]
  have "?run [] ([(?v, Sent)], sample_table)"
    using run_quiet [OF run_start step(1) [of "[]" sample_table ?v]] by simp
  then have "?run [] ([(?v, Sent), (?v, Sent)], sample_table)"
    using run_quiet [OF _ step(1) [of "[(?v, Sent)]" sample_table ?v]] by simp
  then have "?run [] (?s, sample_table)"
    using run_quiet [OF _ step(1) [of "[(?v, Sent), (?v, Sent)]" sample_table ?d]] by simp
  then have "?run [] ([(?v, Opened h), (?v, Sent), (?d, Sent)], sample_table)"
    using run_quiet [OF _ step(2) [of 0 ?s ?v False sample_table h sample_table]] h(2) by simp
  then have "?run [] ([(?v, Opened h), (?v, Opened h), (?d, Sent)], sample_table)"
    using run_quiet [OF _ step(2) [of 1 "[(?v, Opened h), (?v, Sent), (?d, Sent)]" ?v False
        sample_table h sample_table]] h(2) by simp
  then have "?run [] (?o, sample_table)"
    using run_quiet [OF _ step(2) [of 2 "[(?v, Opened h), (?v, Opened h), (?d, Sent)]" ?d False
        sample_table h sample_table]] h(2) by simp
  moreover have "?step (?o, sample_table) (Some (0, ?v, False, Inr ?resp))
      ([(?v, Viewing h ?row ?resp), (?v, Opened h), (?d, Opened h)], sample_table)"
    using step(5) [of 0 ?o "fst ?v" "snd ?v" h zero_id False sample_table ?row ?resp sample_table]
      target(1) sel by simp
  ultimately have "?run ([] @ [(0, ?v, False, Inr ?resp)])
      ([(?v, Viewing h ?row ?resp), (?v, Opened h), (?d, Opened h)], sample_table)"
    by (rule run_event)
  moreover have "?step ([(?v, Viewing h ?row ?resp), (?v, Opened h), (?d, Opened h)], sample_table)
      (Some (1, ?v, True, Inr ?none))
      ([(?v, Viewing h ?row ?resp), (?v, Answered (Inr ?none)), (?d, Opened h)], sample_table)"
    using step(6) [of 1 "[(?v, Viewing h ?row ?resp), (?v, Opened h), (?d, Opened h)]" "fst ?v"
        "snd ?v" h zero_id True sample_table ?none sample_table] target(1) busy by simp
  ultimately have "?run (([] @ [(0, ?v, False, Inr ?resp)]) @ [(1, ?v, True, Inr ?none)])
      ([(?v, Viewing h ?row ?resp), (?v, Answered (Inr ?none)), (?d, Opened h)], sample_table)"
    by (rule run_event)
  moreover have "?step ([(?v, Viewing h ?row ?resp), (?v, Answered (Inr ?none)), (?d, Opened h)], sample_table)
      (Some (2, ?d, False, Inr (id_response 200 zero_id)))
      ([(?v, Viewing h ?row ?resp), (?v, Answered (Inr ?none)), (?d, ?gone)], db1)"
    using step(4) [of 2 "[(?v, Viewing h ?row ?resp), (?v, Answered (Inr ?none)), (?d, Opened h)]"
        "fst ?d" "snd ?d" h False sample_table "Inr (id_response 200 zero_id)" db1] target(2) del
    by (simp add: removal_query_def)
  ultimately have "?run ((([] @ [(0, ?v, False, Inr ?resp)]) @ [(1, ?v, True, Inr ?none)])
        @ [(2, ?d, False, Inr (id_response 200 zero_id))])
      ([(?v, Viewing h ?row ?resp), (?v, Answered (Inr ?none)), (?d, ?gone)], db1)"
    by (rule run_event)
  then have "?run sample_events
      ([(?v, Viewing h ?row ?resp), (?v, Answered (Inr ?none)), (?d, ?gone)], db1)"
    by (simp add: sample_events_def json_ok_def meme_not_found_def)
  then have "?run sample_events
      ([(?v, Answered (Inr ?resp)), (?v, Answered (Inr ?none)), (?d, ?gone)], ?db)"
    using run_quiet [OF _ step(8) [of 0 "[(?v, Viewing h ?row ?resp), (?v, Answered (Inr ?none)),
        (?d, ?gone)]" ?v h ?row ?resp db1 False]] by simp
  then show ?thesis
    by (intro exI [of _ ?db]) (simp add: json_ok_def meme_not_found_def)
qed

lemma meme_service_linearisable_witness:
  "\<exists>m. shared_history (=) (map snd sample_events) (table_of (map_of sample_table)) m"
proof -
  obtain ts db' where run: "meme_run engine locked_engine (Some []) [] ([], sample_table)
      sample_events (ts, db')"
    using sample_threads by blast
  have "\<forall>(i, (new, req), l, r) \<in> set sample_events. check_id new" "int (7 + length sample_events) \<le> int_max"
    using zero_id_ok by (simp_all add: sample_events_def view_query_def removal_query_def int_max_def)
  then show ?thesis
    using meme_service_linearisable [OF shared_engine.shared_sql_axioms sample_table_ok run] by blast
qed

end
