(* ===== verification/Response_Lines.thy ===== *)
theory Response_Lines
  imports Session_Claims
begin

text \<open>
  What a peer reads of a response: the lines up to the first empty one, and the body. A response
  is written line by line from a status and a map of headers, and some of the values come from
  elsewhere: the address a browser is redirected to from the client's URI, the content type of a
  reply the proxy passes on from another host. Were there a line feed in one of them, its sender
  could add lines of his own (response splitting). Here no handler of the server lets one in.
\<close>

section \<open>Reading the head of a response\<close>

text \<open>Lines end with a line feed; the carriage return before it is left to the line.\<close>

fun read_head :: "string \<Rightarrow> string \<Rightarrow> string list \<times> string" where
  "read_head line [] = ([line], [])"
| "read_head line (c # s) =
     (if c \<noteq> lf then read_head (line @ [c]) s
      else if line = [cr] then ([], s)
      else (case read_head [] s of (ls, body) \<Rightarrow> (line # ls, body)))"

definition status_text :: "response \<Rightarrow> string" where
  "status_text r =
     ''HTTP/1.1 '' @ nat_string (status_code r) @ '' '' @ get_status_word (status_code r) @ [cr]"

definition header_text :: "string \<times> string \<Rightarrow> string" where
  "header_text h = fst h @ '': '' @ snd h @ [cr]"

definition one_line :: "string \<times> string \<Rightarrow> bool" where
  "one_line h \<longleftrightarrow> lf \<notin> set (fst h) \<and> lf \<notin> set (snd h)"

text \<open>The names the handlers use, and responses that have no others, apart from \<open>names\<close>.\<close>

definition server_names :: "string set" where
  "server_names = {''Content-Type'', ''Content-Length'', ''Location''}"

definition plain_headers :: "string set \<Rightarrow> response \<Rightarrow> bool" where
  "plain_headers names r \<longleftrightarrow>
     (\<forall>h \<in> set (response_headers r). one_line h \<and> fst h \<in> server_names \<union> names)"

lemma read_head_line:
  "lf \<notin> set l \<Longrightarrow> read_head w (l @ lf # s) =
     (if w @ l = [cr] then ([], s) else (case read_head [] s of (ls, b) \<Rightarrow> ((w @ l) # ls, b)))"
  by (induction l arbitrary: w) auto

lemma read_head_lines:
  assumes "\<forall>h \<in> set hs. one_line h"
  shows "read_head [] (concat (map header_line hs) @ crlf @ b) = (map header_text hs, b)"
  using assms
proof (induction hs)
  case Nil
  show ?case using read_head_line [of "[cr]" "[]" b] by simp
next
  case (Cons h hs)
  have "lf \<notin> set (header_text h)"
    using Cons.prems by (simp add: header_text_def one_line_def)
  moreover have "header_line h = header_text h @ [lf]"
    by (simp add: header_line_def header_text_def)
  moreover have "header_text h \<noteq> [cr]" by (simp add: header_text_def)
  ultimately show ?case
    using Cons read_head_line [of "header_text h" "[]" "concat (map header_line hs) @ crlf @ b"] by simp
qed

lemma read_head_response:
  assumes "plain_headers names r" and "enumerates ord"
  shows "read_head [] (fst (generate_response ord r))
    = (status_text r # map header_text (ord (response_headers r)), response_body r)"
proof -
  have "lf \<notin> set (status_text r)"
    using nat_string_no_lf get_status_word_line by (simp add: status_text_def)
  moreover have "status_text r \<noteq> [cr]" by (simp add: status_text_def)
  moreover have "\<forall>h \<in> set (ord (response_headers r)). one_line h"
    using assms enumerates_set [OF assms(2)] by (simp add: plain_headers_def)
  ultimately show ?thesis
    using read_head_lines [of "ord (response_headers r)" "response_body r"]
      read_head_line [of "status_text r" "[]"]
    unfolding generate_response_shape status_text_def [symmetric] by simp
qed

section \<open>Building responses\<close>

lemma set_header_plain:
  assumes "plain_headers names r" and "one_line (n, v)" and "n \<in> server_names \<union> names"
  shows "plain_headers names (set_header n v r)"
  using assms
  by (auto simp: plain_headers_def set_header_assign umap_assign_def umap_insert_def
      umap_replace_def split: option.splits)

lemma new_response_plain [simp]: "plain_headers names (new_response sc b)"
  by (simp add: plain_headers_def)

lemma typed_response_plain [simp]: "lf \<notin> set mime \<Longrightarrow> plain_headers names (typed_response sc b mime)"
  by (simp add: typed_response_def set_header_plain one_line_def server_names_def)

lemma set_body_plain [simp]: "plain_headers names (set_body b r) = plain_headers names r"
  by (simp add: plain_headers_def)

lemma plain_headers_more: "plain_headers {} r \<Longrightarrow> plain_headers names r"
  by (auto simp: plain_headers_def)

lemma plain_with_headers:
  assumes "plain_headers names r" and "\<forall>h \<in> set hs. one_line h \<and> fst h \<in> names"
  shows "plain_headers names (fold (\<lambda>h. set_header (fst h) (snd h)) hs r)"
  using assms
proof (induction hs arbitrary: r)
  case (Cons h hs)
  then show ?case using set_header_plain [of names r "fst h" "snd h"] by simp
qed simp

lemma mime_type_line [simp]: "lf \<notin> set (get_mime_type ext)"
  by (auto simp: get_mime_type_def mime_types_def umap_find_def split: option.splits if_splits)

section \<open>What the handlers let into a header\<close>

lemma static_plain: "plain_headers {} (static_handle_request fs h req)"
  by (simp add: static_handle_request_def serve_file_def static_invalid_method_def
      file_not_found_def Let_def split: option.split)

text \<open>A line of the host's reply, and what is cut out of it.\<close>

lemma getline_one_line: "getline st = (Some l, st') \<Longrightarrow> lf \<notin> set l"
  by (induction st rule: getline.induct) (auto simp: Let_def dest: set_takeWhileD split: if_splits)

lemma header_mime_line: "lf \<notin> set header \<Longrightarrow> lf \<notin> set mime \<Longrightarrow> lf \<notin> set (header_mime header mime)"
  by (auto simp: header_mime_def dest: set_takeWhileD in_set_dropD)

lemma read_headers_line_free: "lf \<notin> set mime \<Longrightarrow> lf \<notin> set (fst (read_headers st mime))"
proof (induction st mime rule: read_headers.induct)
  case (1 st mime)
  obtain l st' where st: "getline st = (l, st')" by (cases "getline st")
  show ?case
  proof (cases l)
    case (Some header)
    then have "lf \<notin> set (header_mime header mime)"
      using st getline_one_line header_mime_line 1(2) by blast
    then show ?thesis using 1 st Some by (subst read_headers.simps) auto
  qed (use 1(2) st in \<open>simp add: read_headers.simps\<close>)
qed

lemma read_reply_line:
  "read_reply bytes seen mime = Inr (sc, mime', body) \<Longrightarrow> lf \<notin> set mime \<Longrightarrow> lf \<notin> set mime'"
  using read_headers_line_free [of mime]
  by (auto simp: read_reply_def Let_def case_prod_unfold split: if_splits option.splits)

lemma fetch_line:
  assumes "fetch net h host text = Inr (sc, body, h')" and "lf \<notin> set (mime_type h)"
  shows "lf \<notin> set (mime_type h')"
proof -
  obtain port bytes seen mime where "net host (int_string port) text = Net_data bytes seen"
      "read_reply bytes seen (mime_type h) = Inr (sc, mime, body)" "h' = h\<lparr>mime_type := mime\<rparr>"
    using assms(1)
    by (auto simp: fetch_def result_bind_eq_Inr split: option.splits net_reply.splits)
  then show ?thesis using read_reply_line assms(2) by simp
qed

lemma sent_line:
  assumes "constructGetRequest net u h = Inr (s, h')" and "lf \<notin> set (mime_type h)"
  shows "lf \<notin> set (mime_type h')"
proof -
  obtain host msg sc h1 where "fetch net h host msg = Inr (sc, s, h1)"
      "mime_type h' = mime_type h1"
    using assms(1)
    by (auto simp: constructGetRequest_def sendGetRequest_def result_bind_eq_Inr)
  then show ?thesis using fetch_line assms(2) by simp
qed

lemma proxy_plain: "returns (plain_headers {}) (proxy_request net behind config root req)"
proof (rule returnsI)
  fix resp assume *: "proxy_request net behind config root req = Inr resp"
  then obtain b h where "read_proxy_config b []
         \<lparr>config_ptr = config, root_path = root, location2proxy = [], mime_type = [],
          port_num = None, redirect = False\<rparr> = Inr h"
    and req: "proxy_handle_request net behind h req = Inr resp"
    by (auto simp: proxy_request_def create_proxy_handler_def result_bind_eq_Inr)
  then have "mime_type h = []" using read_proxy_config_pairs by fastforce
  then have "lf \<notin> set (mime_type h')" if "constructGetRequest net u h = Inr (s, h')" for u s h'
    using sent_line [OF that] by simp
  moreover have "plain_headers {} (with_length r)" if "plain_headers {} r" for r
    using that nat_string_no_lf
    by (simp add: with_length_def set_header_plain one_line_def server_names_def)
  ultimately show "plain_headers {} resp"
    using req by (auto simp: proxy_handle_request_def result_bind_eq_Inr split: if_splits)
qed

text \<open>The address of a redirection is what follows in the URI, which the pattern ends at a line's end.\<close>

lemma check_uri_line: "lf \<notin> set (check_uri uri)"
proof (cases "regex_search memes_rx uri")
  case (Some m)
  then obtain t where "rx_search_from memes_rx 0 uri = Some (t, m)"
    by (auto simp: regex_search_def)
  then obtain i v where "rx_path memes_rx i v [] [] t m"
    using rx_search_from_path by blast
  then obtain w where "m = [(1, w)]" "\<forall>c \<in> set w. class_has Any c"
    unfolding memes_rx_def by (simp only: rx_parts) auto
  then show ?thesis using Some by (auto simp: check_uri_def)
qed (simp add: check_uri_def)

lemma redirect_plain:
  assumes "lf \<notin> set location"
  shows "plain_headers {} (redirect_request req location)"
proof -
  have "plain_headers {} (redirect_to l)" if "lf \<notin> set l" for l
    using that by (simp add: redirect_to_def set_header_plain one_line_def server_names_def)
  moreover have "lf \<notin> set (drop 7 location)" using assms by (auto dest: in_set_dropD)
  ultimately show ?thesis using assms by (simp add: redirect_request_def)
qed

lemma meme_answers_plain [simp]:
  "plain_headers {} (id_response sc i)" "plain_headers {} (text_response sc msg)"
  "plain_headers {} (meme_invalid_method req)"
  by (simp_all add: id_response_def text_response_def meme_invalid_method_def)

lemma list_response_plain: "returns (plain_headers {}) (list_response res)"
  unfolding list_response_def by (intro returns_bind) simp

lemma meme_methods_plain:
  "returns (plain_headers {}) (fst (create_meme sq new h req db))"
  "returns (plain_headers {}) (fst (update_meme sq h req i db))"
  "returns (plain_headers {}) (fst (delete_meme sq h req i db))"
  "returns (plain_headers {}) (fst (meme_list sq h req db))"
  "returns (plain_headers {}) (fst (meme_search sq h req i db))"
  "returns (plain_headers {}) (fst (get_meme_by_id sq h req i db))"
  by (simp_all add: create_meme_def update_meme_def delete_meme_def meme_list_def meme_search_def
      get_meme_by_id_def list_response_plain Let_def split: sum.split prod.split)

lemma meme_plain: "returns (plain_headers {}) (fst (meme_request sq new config root req db))"
proof -
  let ?i = "check_uri (req_uri req)"
  have "lf \<notin> set (drop 5 ?i)" using check_uri_line by (auto dest: in_set_dropD)
  then have pages: "plain_headers {} (redirect_request req ''create'')"
      "plain_headers {} (redirect_request req ''list'')"
      "plain_headers {} (redirect_request req ?i)"
      "plain_headers {} (redirect_request req (drop 5 ?i))"
    using check_uri_line by (intro redirect_plain; simp)+
  have "returns (plain_headers {}) (fst (meme_handle_request sq new h req db))" for h db
    unfolding meme_handle_request_def Let_def
    by (simp only: if_distrib [of fst] if_distrib [of "returns (plain_headers {})"] fst_conv
        returns_simps meme_answers_plain meme_methods_plain pages if_True if_cancel simp_thms)
  then show ?thesis by (simp add: meme_request_def split: prod.split sum.split)
qed

section \<open>The interface, with plain headers\<close>

text \<open>A dispatcher whose handlers also keep their headers to one line each.\<close>

locale plain_dispatcher = request_dispatcher +
  assumes plain: "returns (plain_headers {}) (fst (dispatch cls config root req s))"
begin

lemma route_request_plain:
  assumes "enumerates hord" and "\<forall>h \<in> set (rt_headers rt). one_line h"
  shows "returns (plain_headers (fst ` set (rt_headers rt)))
    (fst (route_request ord hord dispatch rt req s))"
proof (cases "select_handler ord rt (req_uri req)")
  case (Inr cc)
  obtain cls c where cc: "cc = (cls, c)" by fastforce
  obtain r rec w where d: "dispatch cls c (server_root rt) req s = (r, rec, w)" by (metis surj_pair)
  show ?thesis
  proof (cases r)
    case r: (Inr out)
    have "plain_headers {} out" using plain [of cls c "server_root rt" req s] d r by simp
    then have "plain_headers (fst ` set (rt_headers rt)) (apply_default_headers hord rt out)"
      unfolding apply_default_headers_def using assms(2) enumerates_set [OF assms(1)]
      by (intro plain_with_headers [OF plain_headers_more]) auto
    then show ?thesis using d r Inr by (simp add: cc route_request_def Let_def split: sum.split)
  qed (use d Inr in \<open>simp add: cc route_request_def\<close>)
qed (simp add: route_request_def)

lemma routed_head:
  assumes "enumerates hord" and "\<forall>h \<in> set (rt_headers rt). one_line h"
    and "route_request ord hord dispatch rt req s = (Inr resp, s')"
  shows "read_head [] (fst (generate_response hord resp))
    = (status_text resp # map header_text (hord (response_headers resp)), response_body resp)"
    and "fst ` set (response_headers resp) \<subseteq> server_names \<union> fst ` set (rt_headers rt)"
proof -
  have "plain_headers (fst ` set (rt_headers rt)) resp"
    using route_request_plain [OF assms(1,2), of ord req s] assms(3) by simp
  then show "read_head [] (fst (generate_response hord resp))
      = (status_text resp # map header_text (hord (response_headers resp)), response_body resp)"
    and "fst ` set (response_headers resp) \<subseteq> server_names \<union> fst ` set (rt_headers rt)"
    using read_head_response [OF _ assms(1)] by (auto simp: plain_headers_def)
qed

end

lemma run_handler_plain: "returns (plain_headers {}) (fst (run_handler env cls config root req s))"
proof -
  obtain rec db where s: "s = (rec, db)" by fastforce
  have "returns (plain_headers {}) (echo_handle_request b req)" for b
    unfolding echo_handle_request_def generate_echo_response_def by (intro returns_bind) simp
  moreover have "returns (plain_headers {}) (status_handle_request rec rec rec req)"
    by (simp add: status_handle_request_def generate_status_response_def Let_def)
  moreover have "plain_headers {} (health_handle_request req)" "plain_headers {} (default_handle_request req)"
    by (simp_all add: health_handle_request_def generate_200_response_def default_handle_request_def
        generate_404_response_def)
  ultimately show ?thesis
    using meme_plain [of "env_sqlite env" "env_uuid env" config root req db]
      proxy_plain [of "env_network env" "env_behind env" config root req] static_plain
    by (cases cls) (auto simp: s run_handler_def intro!: returns_bind split: prod.split)
qed

interpretation plain: plain_dispatcher "run_handler env"
  by unfold_locales (rule run_handler_plain)

section \<open>Properties\<close>

text \<open>
  C11. No response splitting: whatever a client sends, whatever the files, the database and the
  hosts behind the proxy hold, and whichever handler answers, a peer that reads the bytes of the
  routed response line by line up to the first empty line reads the status line and one line for
  each header of the response, of which none has a name but the three the handlers use and the
  router's defaults, and the rest is the body. (The defaults have to be free of line feeds.)
\<close>

theorem no_response_splitting:
  assumes "enumerates hord"
    and "\<forall>h \<in> set (rt_headers rt). lf \<notin> set (fst h) \<and> lf \<notin> set (snd h)"
    and "route_request ord hord (run_handler env) rt req w = (Inr resp, w')"
  shows "read_head [] (fst (generate_response hord resp))
      = (status_text resp # map header_text (hord (response_headers resp)), response_body resp)
    \<and> fst ` set (response_headers resp)
        \<subseteq> {''Content-Type'', ''Content-Length'', ''Location''} \<union> fst ` set (rt_headers rt)"
  using plain.routed_head [OF assms(1) _ assms(3)] assms(2)
  by (simp add: one_line_def server_names_def)

text \<open>A URI that tries to add a header, and a router that redirects it.\<close>

definition redirecting_router :: router where
  "redirecting_router =
     \<lparr>rt_config = [Statement [''handler'', ''meme''] (Some [])], route_map = [(''/memes'', ''meme'')],
      rt_headers = [], server_root = []\<rparr>"

definition splitting_request :: request where
  "splitting_request = meme_req ''GET'' ''/memes/view/%0D%0ASet-Cookie: a=b'' []"

lemma splitting_redirected:
  "\<exists>w'. route_request rev rev (run_handler sample_env) redirecting_router splitting_request
       (new_recorder, [])
     = (Inr (redirect_to ''/web/memes/view.html?id=%0D%0ASet-Cookie: a=b''), w')"
proof -
  let ?uri = "''/memes/view/%0D%0ASet-Cookie: a=b''"
  have uri: "check_uri ?uri = ''view/%0D%0ASet-Cookie: a=b''" by code_simp
  have sel: "select_handler rev redirecting_router ?uri = Inr (Meme_handler, Some [])"
    and log: "get_route_handler redirecting_router (longest_prefix_match rev redirecting_router ?uri)
      = Inr ''meme''"
    by code_simp+
  obtain h where "create_meme_handler engine (Some []) [] ([] :: table) = (Inr h, snd (create_table
      engine ''meme_table'' meme_columns (snd (connect engine (new_sql_manager ''meme.db'') []))))"
    using create_meme_handler_cases [of engine "[]" "[]" "[]"] by metis
  then have "fst (meme_request engine u (Some []) [] splitting_request [])
      = Inr (redirect_to ''/web/memes/view.html?id=%0D%0ASet-Cookie: a=b'')" for u
    using uri
    by (simp add: meme_request_def meme_handle_request_def splitting_request_def redirect_request_def)
  then obtain db' where meme: "meme_request engine zero_id (Some []) [] splitting_request []
      = (Inr (redirect_to ''/web/memes/view.html?id=%0D%0ASet-Cookie: a=b''), db')"
    by (metis prod.collapse)
  have "req_uri splitting_request = ?uri" "server_root redirecting_router = []"
      "rt_headers redirecting_router = []"
    by (simp_all add: splitting_request_def redirecting_router_def)
  then show ?thesis
    using sel log meme
    by (simp add: route_request_def run_handler_def sample_env_def apply_default_headers_def Let_def)
qed

lemma no_response_splitting_witness:
  "read_head [] (fst (generate_response rev (redirect_to ''/web/memes/view.html?id=%0D%0ASet-Cookie: a=b'')))
     = ([''HTTP/1.1 303 See Other'' @ [cr],
         ''Location: /web/memes/view.html?id=%0D%0ASet-Cookie: a=b'' @ [cr]],
        ''Location: /web/memes/view.html?id=%0D%0ASet-Cookie: a=b'')"
proof -
  obtain w' where w: "route_request rev rev (run_handler sample_env) redirecting_router splitting_request
       (new_recorder, [])
     = (Inr (redirect_to ''/web/memes/view.html?id=%0D%0ASet-Cookie: a=b''), w')"
    using splitting_redirected by blast
  have "nat_string 303 = ''303''" by code_simp
  then show ?thesis
    using no_response_splitting [OF enumerates_rev _ w]
    by (simp add: redirecting_router_def redirect_to_def set_header_def umap_find_def umap_insert_def
        status_text_def header_text_def get_status_word_def response_codes_def)
qed

end
