(* ===== verification/Status_Log.thy ===== *)
theory Status_Log
  imports Session_Claims
begin

text \<open>
  What the recorder behind the status page (\<open>src/server_status_recorder.cc\<close>) keeps of the reads
  of a server (\<open>src/session.cc\<close>): \<open>route_request\<close> records a request when its handler has returned,
  so the responses the session makes itself, for a request it cannot parse, for an exception and
  for a failed read, are not on the page.
\<close>

section \<open>One read\<close>

text \<open>Looking a route up fails only in ways no \<open>catch\<close> sees.\<close>

lemma validProxy_fault: "validProxy b name = Inl e \<Longrightarrow> e = Undefined_behaviour"
  by (induction b) (auto simp: result_bind_eq_Inl nth_res_def split: if_splits)

lemma handler_config_fault:
  "handler_config_loop name b found = Inl e \<Longrightarrow> e = Undefined_behaviour"
  by (induction b arbitrary: found)
    (auto simp: result_bind_eq_Inl nth_res_def split: if_splits option.splits)

lemma get_route_handler_fault:
  assumes "get_route_handler rt uri = Inl e"
  shows "e = Undefined_behaviour"
  using assms handler_config_fault validProxy_fault
  by (auto simp: get_route_handler_def get_handler_config_def result_bind_eq_Inl
      split: option.splits)

text \<open>An exception leaves the router before anything is recorded.\<close>

lemma thrown_not_recorded:
  assumes "route_request ord hord (run_handler env) rt req (rec, db) = (Inl (Throw x), rec', db')"
  shows "rec' = rec"
proof (cases "select_handler ord rt (req_uri req)")
  case (Inr cc)
  obtain cls c where cc: "cc = (cls, c)" by fastforce
  obtain r rec1 w where d: "run_handler env cls c (server_root rt) req (rec, db) = (r, rec1, w)"
    by (metis surj_pair)
  then have "rec1 = rec" using run_handler_recorder [of env cls c "server_root rt" req "(rec, db)"] by simp
  moreover have "\<exists>e. r = Inl e"
  proof (cases r)
    case r: (Inr out)
    then show ?thesis
      using assms Inr cc d get_route_handler_fault
      by (auto simp: route_request_def Let_def split: sum.splits)
  qed simp
  ultimately show ?thesis using assms Inr cc d by (auto simp: route_request_def)
qed (use assms in \<open>simp add: route_request_def\<close>)

text \<open>
  A read: the memory behind the two buffers, the session with what it has received, whether the
  read failed, the number of bytes, and what the handlers see of the world.\<close>

record 'db read =
  rd_past :: string
  rd_behind :: string
  rd_session :: session
  rd_error :: bool
  rd_size :: nat
  rd_env :: "'db environment"

definition rd_request :: "'db read \<Rightarrow> request" where
  "rd_request rd = new_request (take (rd_size rd) (session_data (rd_session rd)))"

definition read_by ::
  "map_order \<Rightarrow> header_order \<Rightarrow> router \<Rightarrow> 'db read \<Rightarrow> recorder \<times> 'db \<Rightarrow>
     effect result \<times> recorder \<times> 'db" where
  "read_by ord hord rt rd w =
     handle_read hord (route_request ord hord (run_handler (rd_env rd)) rt) (rd_past rd)
       (rd_behind rd) (rd_session rd) (rd_error rd) (rd_size rd) w"

text \<open>
  What a read that is answered leaves. A failed read and a request that cannot be parsed do not
  come to the router: the session answers 500 and 400, and no line is added to the list. Any other request
  comes to the router. If that throws, the session answers 500 and no line is added; if it
  returns a response, whatever its status, the bytes are those of this response, and one line is
  added.
\<close>

definition made_by_session :: "header_order \<Rightarrow> nat \<Rightarrow> string \<Rightarrow> bool" where
  "made_by_session hord status out \<longleftrightarrow>
     (\<exists>resp. out = fst (generate_response hord resp) \<and> status_code resp = status)"

definition read_logged ::
  "map_order \<Rightarrow> header_order \<Rightarrow> router \<Rightarrow> 'db read \<Rightarrow> recorder \<times> 'db \<Rightarrow> string \<Rightarrow>
     (string \<times> nat) list \<Rightarrow> bool" where
  "read_logged ord hord rt rd w out lines \<longleftrightarrow>
     (let req = rd_request rd in
      if rd_error rd then made_by_session hord 500 out \<and> lines = []
      else if \<not> req_valid req then made_by_session hord 400 out \<and> lines = []
      else
        (case fst (route_request ord hord (run_handler (rd_env rd)) rt req w) of
           Inl e \<Rightarrow> made_by_session hord 500 out \<and> lines = []
         | Inr resp \<Rightarrow>
             out = fst (generate_response hord resp) \<and> lines = [(req_uri req, status_code resp)]))"

lemma session_made:
  "handle_error hord = Async_write out \<Longrightarrow> made_by_session hord 500 out"
  "handle_invalid_request hord behind req = Inr (Async_write out) \<Longrightarrow> made_by_session hord 400 out"
  by (auto simp: handle_error_def handle_invalid_request_def session_write_def result_bind_eq_Inr
      made_by_session_def intro: typed_response_simps)

lemma read_logs:
  assumes "read_by ord hord rt rd (rec, db) = (Inr (Async_write out), rec', db')"
  shows "\<exists>lines. url_response_list rec' = url_response_list rec @ lines
    \<and> read_logged ord hord rt rd (rec, db) out lines"
proof -
  let ?req = "rd_request rd"
  let ?route = "route_request ord hord (run_handler (rd_env rd)) rt ?req (rec, db)"
  obtain r rec1 db1 where route: "?route = (r, rec1, db1)" by (metis surj_pair)
  note read = assms [unfolded read_by_def handle_read_def handle_success_def Let_def, folded rd_request_def]
  show ?thesis
  proof (cases "rd_error rd \<or> \<not> req_valid ?req")
    case True
    then have "rec' = rec" and "if rd_error rd then handle_error hord = Async_write out
        else handle_invalid_request hord (rd_behind rd) ?req = Inr (Async_write out)"
      using read by (auto simp: result_bind_eq_Inr split: if_splits sum.splits)
    then show ?thesis
      using True session_made(1) [of hord out] session_made(2) [of hord "rd_behind rd" ?req out]
      by (intro exI [of _ "[]"]) (auto simp: read_logged_def split: if_splits)
  next
    case False
    consider x where "r = Inl (Throw x)" "rec' = rec1" "handle_error hord = Async_write out"
      | resp where "r = Inr resp" "rec' = rec1" "out = fst (generate_response hord resp)"
      using read route False
      by (auto simp: handle_valid_request_def session_write_def result_bind_eq_Inr
          split: sum.splits fault.splits)
    then show ?thesis
    proof cases
      case 1
      then show ?thesis
        using thrown_not_recorded [OF route [unfolded 1(1)]] session_made(1) route False
        by (intro exI [of _ "[]"]) (simp add: read_logged_def)
    next
      case 2
      then have "rec' = request_recorder (req_uri ?req) (status_code resp) rec"
        using dispatcher.route_request_records [OF route [unfolded 2(1)]] by simp
      then show ?thesis
        using 2 route False
        by (intro exI [of _ "[(req_uri ?req, status_code resp)]"])
          (simp add: read_logged_def request_recorder_def)
    qed
  qed
qed

section \<open>Reads one after the other\<close>

text \<open>A server that answers reads in this order, up to one that stops the process.\<close>

fun answer_reads ::
  "map_order \<Rightarrow> header_order \<Rightarrow> router \<Rightarrow> 'db read list \<Rightarrow> recorder \<times> 'db \<Rightarrow>
     string list result \<times> recorder \<times> 'db" where
  "answer_reads ord hord rt [] w = (Inr [], w)"
| "answer_reads ord hord rt (rd # rds) w =
     (case read_by ord hord rt rd w of
        (Inr (Async_write out), w') \<Rightarrow>
          (case answer_reads ord hord rt rds w' of
             (Inl e, w'') \<Rightarrow> (Inl e, w'')
           | (Inr outs, w'') \<Rightarrow> (Inr (out # outs), w''))
      | (Inr (Async_read_some k), w') \<Rightarrow> answer_reads ord hord rt rds w'
      | (Inl e, w') \<Rightarrow> (Inl e, w'))"

fun all_logged ::
  "map_order \<Rightarrow> header_order \<Rightarrow> router \<Rightarrow> 'db read list \<Rightarrow> recorder \<times> 'db \<Rightarrow> string list \<Rightarrow>
     (string \<times> nat) list \<Rightarrow> bool" where
  "all_logged ord hord rt [] w outs lines \<longleftrightarrow> outs = [] \<and> lines = []"
| "all_logged ord hord rt (rd # rds) w outs lines \<longleftrightarrow>
     (\<exists>out outs' l lines'. outs = out # outs' \<and> lines = l @ lines'
        \<and> read_logged ord hord rt rd w out l
        \<and> all_logged ord hord rt rds (snd (read_by ord hord rt rd w)) outs' lines')"

lemma read_writes_once:
  "handle_read hord route past behind s error n w \<noteq> (Inr (Async_read_some k), w')"
  by (auto simp: handle_read_def handle_success_def handle_valid_request_def
      handle_invalid_request_def handle_error_def session_write_def Let_def result_bind_eq_Inr
      split: if_splits sum.splits prod.splits fault.splits)

lemma reads_logged:
  "answer_reads ord hord rt rds (rec, db) = (Inr outs, rec', db') \<Longrightarrow>
     \<exists>lines. url_response_list rec' = url_response_list rec @ lines \<and> all_logged ord hord rt rds (rec, db) outs lines"
proof (induction rds arbitrary: rec db outs)
  case (Cons rd rds)
  obtain x rec1 db1 where x: "read_by ord hord rt rd (rec, db) = (x, rec1, db1)"
    by (metis surj_pair)
  then obtain eff where eff: "x = Inr eff" using Cons.prems by (cases x) auto
  have "eff \<noteq> Async_read_some k" for k
    using x [unfolded eff read_by_def] by (auto simp: read_writes_once)
  then obtain out where out: "x = Inr (Async_write out)" using eff by (cases eff) auto
  obtain outs' where outs: "outs = out # outs'"
      "answer_reads ord hord rt rds (rec1, db1) = (Inr outs', rec', db')"
    using Cons.prems x out by (auto split: prod.splits sum.splits)
  obtain l where "url_response_list rec1 = url_response_list rec @ l"
      "read_logged ord hord rt rd (rec, db) out l"
    using read_logs [OF x [unfolded out]] by blast
  then show ?case using Cons.IH [OF outs(2)] outs(1) x by auto
qed simp

section \<open>Property\<close>

text \<open>
  C27. What the status page knows: when a server has answered any sequence of reads, the list
  behind the page has grown by the lines of these reads in their order. A read whose request the
  router has returned a response for gave one line, with the URI the request object has and the
  status of that response, which is the one that was sent. The responses the session makes itself
  gave none: status 500 for a read that failed, 400 for a request it cannot parse, 500 for one
  whose routing has thrown. They are missing on the page.
\<close>

theorem status_page_knows:
  assumes "answer_reads ord hord rt rds (rec, db) = (Inr outs, rec', db')"
  shows "\<exists>lines. get_url_response_list rec' = get_url_response_list rec @ lines
    \<and> all_logged ord hord rt rds (rec, db) outs lines"
  using reads_logged [OF assms] by (simp add: get_url_response_list_def)

text \<open>A text that is no request, a request no handler is registered for, and a read that fails.\<close>

definition sample_read :: "string \<Rightarrow> bool \<Rightarrow> table read" where
  "sample_read bytes error =
     \<lparr>rd_past = [nul], rd_behind = [nul], rd_session = \<lparr>session_data = bytes, ip_addr = []\<rparr>,
      rd_error = error, rd_size = length bytes, rd_env = sample_env\<rparr>"

definition sample_reads :: "table read list" where
  "sample_reads = [sample_read ''bad'' False,
     sample_read (''GET /none HTTP/1.1'' @ crlf @ crlf) False, sample_read [] True]"

lemma sample_reads_answered:
  "(case answer_reads rev rev (new_router [] []) sample_reads (new_recorder, []) of
      (r, rec, db) \<Rightarrow> (map_sum id (map (take 12)) r, url_response_list rec))
    = (Inr [''HTTP/1.1 400'', ''HTTP/1.1 404'', ''HTTP/1.1 500''], [(''/none'', 404)])"
  by code_simp

lemma status_page_knows_witness:
  "\<exists>outs. map (take 12) outs = [''HTTP/1.1 400'', ''HTTP/1.1 404'', ''HTTP/1.1 500'']
     \<and> all_logged rev rev (new_router [] []) sample_reads (new_recorder, []) outs [(''/none'', 404)]"
proof -
  obtain r rec' db' where run: "answer_reads rev rev (new_router [] []) sample_reads (new_recorder, [])
      = (r, rec', db')" by (metis surj_pair)
  then obtain outs where outs: "r = Inr outs" "map (take 12) outs = [''HTTP/1.1 400'', ''HTTP/1.1 404'', ''HTTP/1.1 500'']"
      "url_response_list rec' = [(''/none'', 404)]"
    using sample_reads_answered by (cases r) auto
  show ?thesis
    using status_page_knows [OF run [unfolded outs(1)]] outs(2,3)
    by (intro exI [of _ outs]) (simp add: get_url_response_list_def new_recorder_def)
qed

end
