(* ===== verification/Spec2Isabelle.thy ===== *)
theory Spec2Isabelle
  imports Config_Language Config_Values Uri_Lib Meme_Views Meme_Spec Deployment Proxy_Chain
    Concurrent_Routing Server_Steps Router_Locks Write_Buffer Meme_Threads Response_Lines
    Status_Log
begin

text \<open>
  A verification library of the web server in this repository: a C++ program that reads an
  nginx-like configuration, listens on a port, and answers HTTP requests with one of seven
  handlers. All of the server's own code under \<open>src/\<close> and \<open>include/\<close> is modelled but the
  configuration of the logger; theories are named after the files they model.

  \<^bold>\<open>How a request goes through the program.\<close> \<open>main\<close> parses the configuration file into a tree of
  statements, reads port, root and number of threads from it, makes the server and its router
  and registers the routes the handler blocks list. The server accepts connections; each gets a
  session, which reads once, makes a request object of the bytes, and lets the router answer it.
  The router finds the longest registered prefix of the URI, makes a handler of the class that
  is registered for it, from the last block of that name in the configuration, lets it answer,
  adds URI and status to the recorder behind the status page, and sets its default headers. The
  session writes the serialised response, and closes the connection when that has completed. An
  exception on the way becomes a response with status 500.

  \<^bold>\<open>Theories and the code they model.\<close>

    \<^item> \<open>Web_Prelude\<close>: results that are a fault or a value, characters, and the hash maps
      (\<open>std::unordered_map\<close>) as association lists with distinct keys behind the locales
      \<open>dictionary\<close> and \<open>assignable_dictionary\<close>. The order in which a hash map is enumerated is
      an argument \<open>ord\<close> of what depends on it, of which only \<open>enumerates ord\<close> is assumed.
    \<^item> \<open>Cpp_Text\<close>: \<open>std::to_string\<close>, \<open>std::stoi\<close>, the narrowing to \<open>int\<close> and \<open>short\<close>.
    \<^item> \<open>Regex\<close>: the patterns of \<open>std::regex\<close> the sources use, with its backtracking order and its
      iterator; what a pattern matches is also given as a relation, \<open>rx_path\<close>.
    \<^item> \<open>Config_Parser\<close>, \<open>Config_Grammar\<close> (\<open>config_parser.cc\<close>, parser and printer): tokenizer, parser
      with its explicit stack, printer; then the round trip and the invariant of the parser.
      \<open>Config_Language\<close>: the grammar of the language on the symbols of a text, which the parser
      recognises, and the line printed for a text it rejects.
    \<^item> \<open>Config_Statements\<close> (\<open>config_parser.cc\<close>, \<open>ParseStatements\<close> and accessors); \<open>Config_Values\<close>:
      what the settings come to, written as a search for the first port and the last root.
    \<^item> \<open>Uri_Lib\<close> (\<open>uri_lib.cc\<close>), \<open>Request\<close> (\<open>request.cc\<close>), \<open>Response\<close> (\<open>response.cc\<close>,
      \<open>response_codes.h\<close>).
    \<^item> \<open>Route_Handler\<close> (\<open>route_handler.h\<close>): what handlers are given, and the locale \<open>route_handler\<close>
      of what they promise: a response has a known status and distinct header names. Every
      handler interprets it, and so does the router with the handlers behind it.
    \<^item> \<open>Recorder\<close> (\<open>server_status_recorder.cc\<close>), \<open>Basic_Handlers\<close> (\<open>default_handler.cc\<close>,
      \<open>echo_handler.cc\<close>, \<open>health_handler.cc\<close>, \<open>status_handler.cc\<close>), \<open>Static_File_Handler\<close>
      (\<open>static_file_handler.cc\<close>, \<open>mime_types.h\<close>).
    \<^item> \<open>Sql_Lib\<close> (\<open>sql_lib.cc\<close>): the texts of the statements and the operations that run them.
      \<open>Meme_Store\<close> states what is relied on of SQLite, in the locales \<open>meme_store\<close> (a table as a
      partial function) and \<open>meme_sql\<close> (the statements the handler issues), the first of which
      is derived from the second, and \<open>locked_sql\<close> and \<open>shared_sql\<close> (a database another connection
      has locked); an engine on lists interprets them.
    \<^item> \<open>Meme_Handler\<close> (\<open>meme_handler.cc\<close>); \<open>Meme_Properties\<close>: the effect of each operation and the
      invariant of the table; \<open>Meme_Claims\<close>: whole requests; \<open>Meme_Views\<close>: views that interleave;
      \<open>Meme_Spec\<close>: the handler as an abstract service over a partial function; \<open>Meme_Locked\<close>: what
      it makes of a locked database; \<open>Meme_Threads\<close>: that service under threads whose statements
      interleave, and may find the database locked; \<open>Meme_Wire\<close>: a meme from the bytes
      of one request to the bytes of another's response.
    \<^item> \<open>Reverse_Proxy_Handler\<close> (\<open>reverse_proxy_handler.cc\<close>) and \<open>Proxy_Claims\<close>; \<open>Proxy_Chain\<close>: the
      proxy in front of another instance of this server.
    \<^item> \<open>Router\<close> (\<open>router.cc\<close>): routes, default headers, the choice of a handler; the locale
      \<open>request_dispatcher\<close> is what it relies on of the handlers. \<open>Handlers\<close> puts the handlers
      behind it, interprets the locale, and relates the routing to a specification.
      \<open>Router_Locks\<close>: the lock operations of router and recorder, with the locale \<open>lock_order\<close>.
      \<open>Concurrent_Routing\<close>: threads in \<open>route_request\<close> that interleave between its critical sections.
    \<^item> \<open>Session\<close>, \<open>Session_Claims\<close> (\<open>session.cc\<close>); \<open>Write_Buffer\<close>: the vectors its writes read
      from; \<open>Status_Log\<close>: what the reads of a server leave on the status page; \<open>Response_Lines\<close>:
      what a peer reads of a response, with the locale \<open>plain_dispatcher\<close>. \<open>Server\<close>, \<open>Server_Claims\<close> (\<open>server.cc\<close>, \<open>server_main.cc\<close>); \<open>Server_Steps\<close>: the running
      server and the signal handler as a transition system.
    \<^item> \<open>Deployment\<close> (\<open>conf/local_port\<close>): the shipped configuration file and the server it starts.

  \<^bold>\<open>State and errors.\<close> An object's members are a record, changed by passing it on: \<open>request\<close>,
  \<open>response\<close>, \<open>router\<close>, \<open>recorder\<close>, \<open>session\<close>, \<open>server\<close> and one record per handler with state.
  Members a constructor leaves uninitialised are optional, and reading one that was not written
  is a fault. An operation that can fail returns a \<open>result\<close>: a thrown exception (\<open>Throw\<close>), a call
  of \<open>exit\<close>, or \<open>Undefined_behaviour\<close> for what the language leaves undefined: reading a vector out
  of range, a null pointer, the end of a map, the memory behind a buffer when that does not happen
  to hold a terminator, an \<open>int\<close> that overflows.

  \<^bold>\<open>The world outside.\<close> Files, memory behind a buffer, generated identifiers, the network and
  SQLite are parameters, gathered in the record \<open>environment\<close> of theory \<open>Handlers\<close>; listening on
  a port and creating a thread can fail, by parameters of \<open>server_main\<close>. Asynchronous calls are
  steps of \<open>session_step\<close> and \<open>server_step\<close>, which complete them with or without an error.

  \<^bold>\<open>What is shown.\<close>

    \<^item> From text to bytes: a configuration that is printed is read back (\<open>parse_ToString\<close>), and a
      server started on such a text serves the files it configures (\<open>config_text_to_bytes\<close>); when
      it starts and how it fails to (\<open>server_runs_iff\<close>, \<open>startup_faults\<close>). The parser accepts what
      the grammar derives (\<open>parse_iff_grammar\<close>), the settings are those of the reference
      (\<open>ParseStatements_reference\<close>), and the shipped file gives the server its routes
      (\<open>shipped_configuration\<close>).
    \<^item> Requests and responses: what makes a request valid, what is read of it, and that what is
      written can be read back; two of the patterns lose data. URIs are decoded as the standard has
      it, and texts that are no encoding are decoded as well.
    \<^item> Routing: the longest prefix is found whatever the enumeration order, the choice refines a
      specification on the configuration (\<open>routing_refines_spec\<close>), unknown URIs get the 404 page.
      Threads that interleave record each request once, and a status page made meanwhile lists what
      was recorded at one time (\<open>requests_recorded_once\<close>, \<open>status_page_interleaved\<close>).
    \<^item> Handlers: the static handler serves files of one directory only; the proxy relays bodies,
      but a file of a host like this server only where a question mark hides the slash it appends
      (\<open>no_file_through_proxy\<close>, \<open>file_through_proxy\<close>), and for a redirection the client's own request;
      the meme handler refines its abstract service
      (\<open>meme_service_refines\<close>), from bytes to bytes (\<open>meme_over_the_wire\<close>): memes that are
      created are served and those deleted are gone, the table keeps its invariant, the list is
      sorted, and no value sent by a client reaches the text of an SQL statement. Under threads
      each call takes effect at one moment (\<open>meme_service_linearisable\<close>), but for the counters:
      concurrent views raise the counter but can be lost. A call that finds the database locked
      changes nothing; if it reads, its answer is as for a table without memes.
    \<^item> Responses of the router cannot be split: no sender of a URI, a file or a reply from another
      host adds a header line (\<open>no_response_splitting\<close>). The status page lists the responses the
      router has returned, whatever their status, and none that the session makes itself, for a
      read that failed, a request it cannot parse or an exception (\<open>status_page_knows\<close>).
    \<^item> The running server: sessions end after one read and one write, no exception leaves a read,
      every byte written belongs to a well-formed response, the server always has one accept
      pending until the process ends, and serving threads do not deadlock; on the other side, a peer that
      disconnects at the right time stops the process, registering routes while serving could
      deadlock, and a response that the socket does not take at once is read from a vector that is
      gone (\<open>write_delivers_iff\<close>).

  \<^bold>\<open>Termination and bounds.\<close> The loops of the tokenizer, the parser, the
  regular expressions and the header lines of the proxy are functions with termination proofs, on
  the length of what is left of the input; thread creation on the number of threads left. Only the
  iterator over the matches of a pattern, \<open>rx_iter\<close>, takes fuel: one more than the length
  of the text, which is enough for the patterns the code iterates over, as each of their matches
  takes at least one character (\<open>iter_fuel\<close>). Integers
  are kept at their width where the code narrows or overflows: the number of threads is a 32-bit
  word, the port passes through \<open>short\<close> and \<open>unsigned short\<close>, the count on the status page and the
  view counter and the counter of open blocks are \<open>int\<close>s, whose overflow is a fault. Sizes of strings and vectors are not bounded.

  \<^bold>\<open>Not modelled.\<close> Output on the console and the log (but for the log line of the session that
  reads past its buffer and the line the parser prints), \<open>logger.cc\<close>, the pause of the
  echo handler, and what \<open>std::regex\<close> does on inputs so long
  that its recursion exhausts the stack. A callback is one step of \<open>server_step\<close>; interleavings
  inside of callbacks are treated where they matter: in \<open>route_request\<close>, in the
  meme handler and for the locks. Accessors that return a member, and constructors that only store their arguments
  (the session's and those of the handlers), have no definition of their own.
  The pages under \<open>web/\<close>, the tests and the build and deployment files (but for
  \<open>conf/local_port\<close>) are no part of the server.
\<close>

end
